theory Spec2Isabelle
  imports Complex_Main
begin

section \<open>Decimal arithmetic (github.com/shopspring/decimal)\<close>

text \<open>
  A \<open>decimal.Decimal\<close> is an arbitrary-precision decimal number; the services only use its
  value (comparisons go through \<open>Cmp\<close>), so it is embedded as the rational it denotes.
  \<open>Add\<close>, \<open>Sub\<close>, \<open>Mul\<close>, \<open>Neg\<close> and \<open>Abs\<close> are exact and are written with the
  arithmetic of \<open>rat\<close>. \<open>Round\<close> rounds half away from zero to the given number of
  places; \<open>Div\<close> is \<open>DivRound\<close> at \<open>DivisionPrecision = 16\<close> places (again half away
  from zero) and panics on a zero divisor, which is the value \<open>None\<close> here.
\<close>

type_synonym decimal = rat

definition Round :: "decimal \<Rightarrow> nat \<Rightarrow> decimal" where
  "Round d places =
     (if d < 0 then - (of_int \<lfloor>- d * 10 ^ places + 1 / 2\<rfloor> / 10 ^ places)
      else of_int \<lfloor>d * 10 ^ places + 1 / 2\<rfloor> / 10 ^ places)"

definition DivisionPrecision :: nat where
  "DivisionPrecision = 16"

definition Div :: "decimal \<Rightarrow> decimal \<Rightarrow> decimal option" where
  "Div d d2 = (if d2 = 0 then None else Some (Round (d / d2) DivisionPrecision))"

section \<open>Errors (pkg/errors)\<close>

datatype AppError = AppError (Code: string) (Message: string) (Status: int)

definition ErrCodeValidation :: string where "ErrCodeValidation = ''VALIDATION_ERROR''"

definition ErrCodeRequired :: string where "ErrCodeRequired = ''REQUIRED_FIELD''"

definition ErrCodeInvalid :: string where "ErrCodeInvalid = ''INVALID_VALUE''"

definition ErrCodeNotFound :: string where "ErrCodeNotFound = ''NOT_FOUND''"

definition ErrCodeInsufficientFund :: string where "ErrCodeInsufficientFund = ''INSUFFICIENT_FUND''"

definition ErrCodeInvalidSplit :: string where "ErrCodeInvalidSplit = ''INVALID_SPLIT''"

definition ErrCodeDatabase :: string where "ErrCodeDatabase = ''DATABASE_ERROR''"

definition StatusBadRequest :: int where "StatusBadRequest = 400"

definition StatusNotFound :: int where "StatusNotFound = 404"

definition StatusInternalServerError :: int where "StatusInternalServerError = 500"

definition NewValidationError :: "string \<Rightarrow> AppError" where
  "NewValidationError message = AppError ErrCodeValidation message StatusBadRequest"

definition NewRequiredFieldError :: "string \<Rightarrow> AppError" where
  "NewRequiredFieldError field =
     AppError ErrCodeRequired (''Field '' @ [CHR 0x27] @ field @ [CHR 0x27] @ '' is required'')
       StatusBadRequest"

definition NewInvalidValueError :: "string \<Rightarrow> string \<Rightarrow> AppError" where
  "NewInvalidValueError field v =
     AppError ErrCodeInvalid
       (''Invalid value '' @ [CHR 0x27] @ v @ [CHR 0x27] @ '' for field '' @ [CHR 0x27] @ field @ [CHR 0x27])
       StatusBadRequest"

definition NewNotFoundError :: "string \<Rightarrow> AppError" where
  "NewNotFoundError resource = AppError ErrCodeNotFound (resource @ '' not found'') StatusNotFound"

definition NewInsufficientFundError :: "string \<Rightarrow> string \<Rightarrow> AppError" where
  "NewInsufficientFundError available required =
     AppError ErrCodeInsufficientFund
       (''Insufficient funds: available '' @ available @ '', required '' @ required)
       StatusBadRequest"

definition NewInvalidSplitError :: "string \<Rightarrow> AppError" where
  "NewInvalidSplitError message = AppError ErrCodeInvalidSplit message StatusBadRequest"

definition NewDatabaseError :: AppError where
  "NewDatabaseError = AppError ErrCodeDatabase ''Database operation failed'' StatusInternalServerError"

text \<open>
  A Go call ends with a value, with an \<open>error\<close> (an \<open>*AppError\<close>, or an error of the SQL
  driver that the code passes on unwrapped), or with a panic.
\<close>

datatype failure = AppErr AppError | DriverErr string | Panic string

section \<open>Libraries taken as parameters\<close>

text \<open>
  \<open>uuid.Parse\<close> (behind \<open>utils.IsValidUUID\<close>) and \<open>Decimal.String\<close> (used only to render
  the message of an insufficient-funds error) belong to third-party libraries.
  \<open>UnicodeToUpper\<close> is \<open>strings.Map(unicode.ToUpper, s)\<close> of the Go standard library, the
  path \<open>strings.ToUpper\<close> takes on a string that holds a byte outside ASCII; it depends on
  the case tables of Unicode. The services are verified for every choice of the three
  functions.
\<close>

record deps =
  IsValidUUID :: "string \<Rightarrow> bool"
  DecimalString :: "decimal \<Rightarrow> string"
  UnicodeToUpper :: "string \<Rightarrow> string"

section \<open>Validation (internal/utils)\<close>

definition ValidateAmount :: "decimal \<Rightarrow> AppError option" where
  "ValidateAmount amount =
     (if amount \<le> 0 then Some (NewValidationError ''Amount must be greater than zero'')
      else if amount > 99999999999 / 100 then Some (NewValidationError ''Amount is too large'')
      else None)"

text \<open>
  A Go string is a sequence of bytes, the UTF-8 encoding of its text, and \<open>len\<close> counts
  bytes; a \<open>string\<close> here is that sequence of bytes.

  \<open>strings.TrimSpace\<close> removes the leading and the trailing white space, as
  \<open>unicode.IsSpace\<close> defines it: the six ASCII characters, U+0085 and U+00A0, U+1680,
  U+2000 to U+200A, U+2028, U+2029, U+202F, U+205F and U+3000. \<open>spaceRunes\<close> lists their
  UTF-8 encodings. A byte sequence that is not the encoding of one of them decodes to
  another character or to \<open>utf8.RuneError\<close>, which is not white space, and stops the trim.
\<close>

definition spaceRunes :: "string list" where
  "spaceRunes =
     [[CHR 0x09], [CHR 0x0A], [CHR 0x0B], [CHR 0x0C], [CHR 0x0D], [CHR 0x20],
      [CHR 0xC2, CHR 0x85], [CHR 0xC2, CHR 0xA0],
      [CHR 0xE1, CHR 0x9A, CHR 0x80],
      [CHR 0xE2, CHR 0x80, CHR 0x80], [CHR 0xE2, CHR 0x80, CHR 0x81],
      [CHR 0xE2, CHR 0x80, CHR 0x82], [CHR 0xE2, CHR 0x80, CHR 0x83],
      [CHR 0xE2, CHR 0x80, CHR 0x84], [CHR 0xE2, CHR 0x80, CHR 0x85],
      [CHR 0xE2, CHR 0x80, CHR 0x86], [CHR 0xE2, CHR 0x80, CHR 0x87],
      [CHR 0xE2, CHR 0x80, CHR 0x88], [CHR 0xE2, CHR 0x80, CHR 0x89],
      [CHR 0xE2, CHR 0x80, CHR 0x8A],
      [CHR 0xE2, CHR 0x80, CHR 0xA8], [CHR 0xE2, CHR 0x80, CHR 0xA9],
      [CHR 0xE2, CHR 0x80, CHR 0xAF],
      [CHR 0xE2, CHR 0x81, CHR 0x9F],
      [CHR 0xE3, CHR 0x80, CHR 0x80]]"

text \<open>The number of bytes of the white-space character a string starts with, or ends
  with; zero when there is none.\<close>

definition leadingSpace :: "string \<Rightarrow> nat" where
  "leadingSpace s =
     (case find (\<lambda>p. take (length p) s = p) spaceRunes of None \<Rightarrow> 0 | Some p \<Rightarrow> length p)"

definition trailingSpace :: "string \<Rightarrow> nat" where
  "trailingSpace s =
     (case find (\<lambda>p. drop (length s - length p) s = p) spaceRunes of
        None \<Rightarrow> 0 | Some p \<Rightarrow> length p)"

function TrimLeft :: "string \<Rightarrow> string" where
  "TrimLeft s = (if leadingSpace s = 0 then s else TrimLeft (drop (leadingSpace s) s))"
  by pat_completeness auto
termination
proof (relation "measure length")
  show "wf (measure length)" by simp
next
  fix s :: string
  assume "leadingSpace s \<noteq> 0"
  moreover have "leadingSpace [] = 0" by (simp add: leadingSpace_def spaceRunes_def)
  ultimately have "s \<noteq> []" by auto
  with \<open>leadingSpace s \<noteq> 0\<close> show "(drop (leadingSpace s) s, s) \<in> measure length"
    by simp
qed

function TrimRight :: "string \<Rightarrow> string" where
  "TrimRight s =
     (if trailingSpace s = 0 then s else TrimRight (take (length s - trailingSpace s) s))"
  by pat_completeness auto
termination
proof (relation "measure length")
  show "wf (measure length)" by simp
next
  fix s :: string
  assume "trailingSpace s \<noteq> 0"
  moreover have "trailingSpace [] = 0" by (simp add: trailingSpace_def spaceRunes_def)
  ultimately have "s \<noteq> []" by auto
  with \<open>trailingSpace s \<noteq> 0\<close> show "(take (length s - trailingSpace s) s, s) \<in> measure length"
    by simp
qed

declare TrimLeft.simps [simp del]

declare TrimRight.simps [simp del]

definition TrimSpace :: "string \<Rightarrow> string" where
  "TrimSpace s = TrimRight (TrimLeft s)"

text \<open>
  \<open>strings.ToUpper\<close>: a string of ASCII bytes has its letters \<open>a\<close> to \<open>z\<close> moved to \<open>A\<close> to
  \<open>Z\<close>; any other string goes through the case tables of Unicode.
\<close>

definition toUpperChar :: "char \<Rightarrow> char" where
  "toUpperChar c =
     (let n = (of_char c :: nat) in if 97 \<le> n \<and> n \<le> 122 then char_of (n - 32) else c)"

definition ToUpper :: "deps \<Rightarrow> string \<Rightarrow> string" where
  "ToUpper lib s =
     (if list_all (\<lambda>c. (of_char c :: nat) < 128) s then map toUpperChar s
      else UnicodeToUpper lib s)"

definition ValidateDescription :: "string \<Rightarrow> AppError option" where
  "ValidateDescription description =
     (let d = TrimSpace description in
      if d = [] then Some (NewRequiredFieldError ''description'')
      else if length d > 1000 then
        Some (NewValidationError ''Description must be less than 1000 characters'')
      else None)"

definition SupportedCurrencies :: "string list" where
  "SupportedCurrencies =
     [''USD'', ''EUR'', ''GBP'', ''JPY'', ''CAD'', ''AUD'', ''CHF'', ''CNY'', ''INR'']"

definition ValidateCurrency :: "deps \<Rightarrow> string \<Rightarrow> AppError option" where
  "ValidateCurrency lib currency =
     (let c = ToUpper lib currency in
      if c \<notin> set SupportedCurrencies then Some (NewInvalidValueError ''currency'' c)
      else None)"

definition ValidatePercentage :: "decimal \<Rightarrow> AppError option" where
  "ValidatePercentage percentage =
     (if percentage < 0 then Some (NewValidationError ''Percentage cannot be negative'')
      else if percentage > 100 then
        Some (NewValidationError ''Percentage cannot be greater than 100'')
      else None)"

section \<open>Data model (internal/models)\<close>

text \<open>
  The structs keep their Go field names behind a prefix for the struct. Time stamps are
  left out. A table of the schema is the list of its rows in insertion order, each row
  the struct the repository scans it into with the relationship fields empty.
\<close>

record User =
  u_ID :: int
  u_UUID :: string
  u_Name :: string
  u_Email :: string

record Group =
  g_ID :: int
  g_UUID :: string
  g_Name :: string
  g_Description :: string
  g_CreatedBy :: int
  g_Creator :: "User option"

record GroupMember =
  gm_ID :: int
  gm_GroupID :: int
  gm_UserID :: int

record ExpenseSplit =
  es_ID :: int
  es_ExpenseID :: int
  es_UserID :: int
  es_Amount :: decimal
  es_Percentage :: decimal
  es_User :: "User option"

record Expense =
  e_ID :: int
  e_UUID :: string
  e_GroupID :: int
  e_PaidBy :: int
  e_Amount :: decimal
  e_Currency :: string
  e_Description :: string
  e_SplitType :: string
  e_Splits :: "ExpenseSplit list"

record CreateExpenseSplitRequest =
  sq_UserUUID :: string
  sq_Amount :: decimal
  sq_Percentage :: decimal

record CreateExpenseRequest =
  rq_GroupUUID :: string
  rq_PaidByUUID :: string
  rq_Amount :: decimal
  rq_Currency :: string
  rq_Description :: string
  rq_SplitType :: string
  rq_Splits :: "CreateExpenseSplitRequest list"

definition SplitTypeEqual :: string where "SplitTypeEqual = ''equal''"

definition SplitTypeExact :: string where "SplitTypeExact = ''exact''"

definition SplitTypePercentage :: string where "SplitTypePercentage = ''percentage''"

record Settlement =
  st_ID :: int
  st_UUID :: string
  st_GroupID :: int
  st_FromUserID :: int
  st_ToUserID :: int
  st_Amount :: decimal
  st_Currency :: string
  st_Description :: string
  st_Group :: "Group option"
  st_FromUser :: "User option"
  st_ToUser :: "User option"

record CreateSettlementRequest =
  sr_GroupUUID :: string
  sr_FromUserUUID :: string
  sr_ToUserUUID :: string
  sr_Amount :: decimal
  sr_Currency :: string
  sr_Description :: string

record Balance =
  b_ID :: int
  b_GroupID :: int
  b_UserID :: int
  b_Balance :: decimal
  b_Currency :: string
  b_Group :: "Group option"
  b_User :: "User option"

record SettlementSuggestion =
  sg_FromUser :: "User option"
  sg_ToUser :: "User option"
  sg_Amount :: decimal
  sg_Currency :: string

record DebtSimplification =
  ds_OriginalTransactions :: int
  ds_SimplifiedTransactions :: int
  ds_Savings :: int
  ds_Suggestions :: "SettlementSuggestion list"

section \<open>The database (internal/database, migrations/001_initial_schema.up.sql)\<close>

text \<open>
  The state of the MySQL database: one list of rows per table, and whether the server
  answers. When it does not, every statement fails with a driver error, which the
  repositories wrap in a \<open>DATABASE_ERROR\<close>. A statement on a server that answers fails only
  on a unique key of the schema.

  A \<open>DECIMAL(15,2)\<close> or \<open>DECIMAL(5,2)\<close> column keeps two places: a value written to it is
  rounded half away from zero, and the struct that was passed keeps the value it had. The
  range of a column, which \<open>ValidateAmount\<close> and \<open>ValidatePercentage\<close> bound for a single
  amount or percentage, and the digits the server reads of a literal are not modelled.
\<close>

record DB =
  online :: bool
  users :: "User list"
  groups :: "Group list"
  group_members :: "GroupMember list"
  expenses :: "Expense list"
  expense_splits :: "ExpenseSplit list"
  settlements :: "Settlement list"
  user_balances :: "Balance list"

text \<open>\<open>AUTO_INCREMENT\<close>: an id above every id of the table.\<close>

definition next_id :: "int list \<Rightarrow> int" where
  "next_id ids = fold max ids 0 + 1"

section \<open>Repositories (internal/repository)\<close>

definition userRepo_GetByUUID :: "DB \<Rightarrow> string \<Rightarrow> failure + User" where
  "userRepo_GetByUUID db uuid =
     (if \<not> online db then Inl (AppErr NewDatabaseError)
      else case find (\<lambda>u. u_UUID u = uuid) (users db) of
        None \<Rightarrow> Inl (AppErr (NewNotFoundError ''User''))
      | Some user \<Rightarrow> Inr user)"

definition groupRepo_GetByUUID :: "DB \<Rightarrow> string \<Rightarrow> failure + Group" where
  "groupRepo_GetByUUID db uuid =
     (if \<not> online db then Inl (AppErr NewDatabaseError)
      else case find (\<lambda>g. g_UUID g = uuid) (groups db) of
        None \<Rightarrow> Inl (AppErr (NewNotFoundError ''Group''))
      | Some grp \<Rightarrow>
          Inr (grp\<lparr>g_Creator :=
            map_option (\<lambda>u. \<lparr>u_ID = g_CreatedBy grp, u_UUID = u_UUID u, u_Name = u_Name u,
                              u_Email = u_Email u\<rparr>)
              (find (\<lambda>u. u_ID u = g_CreatedBy grp) (users db))\<rparr>))"

definition groupRepo_IsMember :: "DB \<Rightarrow> int \<Rightarrow> int \<Rightarrow> failure + bool" where
  "groupRepo_IsMember db groupID userID =
     (if \<not> online db then Inl (AppErr NewDatabaseError)
      else Inr (length (filter (\<lambda>m. gm_GroupID m = groupID \<and> gm_UserID m = userID)
                  (group_members db)) > 0))"

text \<open>
  The joins of the \<open>SELECT\<close> statements fill a relationship field with the columns the
  statement reads, when the joined row exists. String comparison in a \<open>WHERE\<close> clause is
  equality; foreign keys are not modelled.
\<close>

definition joinUser :: "DB \<Rightarrow> int \<Rightarrow> User option" where
  "joinUser db userID =
     map_option (\<lambda>u. \<lparr>u_ID = userID, u_UUID = u_UUID u, u_Name = u_Name u, u_Email = u_Email u\<rparr>)
       (find (\<lambda>u. u_ID u = userID) (users db))"

definition joinGroup :: "DB \<Rightarrow> int \<Rightarrow> Group option" where
  "joinGroup db groupID =
     map_option (\<lambda>g. \<lparr>g_ID = groupID, g_UUID = g_UUID g, g_Name = g_Name g, g_Description = [],
                       g_CreatedBy = 0, g_Creator = None\<rparr>)
       (find (\<lambda>g. g_ID g = groupID) (groups db))"

definition balanceRepo_GetByGroupAndUser :: "DB \<Rightarrow> int \<Rightarrow> int \<Rightarrow> string \<Rightarrow> failure + Balance" where
  "balanceRepo_GetByGroupAndUser db groupID userID currency =
     (if \<not> online db then Inl (AppErr NewDatabaseError)
      else case find (\<lambda>b. b_GroupID b = groupID \<and> b_UserID b = userID \<and> b_Currency b = currency)
                  (user_balances db) of
        None \<Rightarrow>
          Inr \<lparr>b_ID = 0, b_GroupID = groupID, b_UserID = userID, b_Balance = 0,
               b_Currency = currency, b_Group = None, b_User = None\<rparr>
      | Some row \<Rightarrow>
          Inr (row\<lparr>b_Group := joinGroup db (b_GroupID row), b_User := joinUser db (b_UserID row)\<rparr>))"

text \<open>\<open>ORDER BY ub.balance DESC\<close>; rows of equal balance stay in table order.\<close>

definition balanceRepo_GetGroupBalances :: "DB \<Rightarrow> int \<Rightarrow> string \<Rightarrow> failure + Balance list" where
  "balanceRepo_GetGroupBalances db groupID currency =
     (if \<not> online db then Inl (AppErr NewDatabaseError)
      else Inr (map (\<lambda>row. row\<lparr>b_User := joinUser db (b_UserID row)\<rparr>)
                 (sort_key (\<lambda>b. - b_Balance b)
                    (filter (\<lambda>b. b_GroupID b = groupID \<and> b_Currency b = currency)
                       (user_balances db)))))"

text \<open>\<open>INSERT ... ON DUPLICATE KEY UPDATE balance = balance + VALUES(balance)\<close> on the
  unique key \<open>(group_id, user_id, currency)\<close>; \<open>VALUES(balance)\<close> is the value the insert
  would have stored, with two places.\<close>

definition balanceRepo_UpdateBalance ::
  "DB \<Rightarrow> int \<Rightarrow> int \<Rightarrow> decimal \<Rightarrow> string \<Rightarrow> failure + DB" where
  "balanceRepo_UpdateBalance db groupID userID amount currency =
     (let same = (\<lambda>b. b_GroupID b = groupID \<and> b_UserID b = userID \<and> b_Currency b = currency) in
      if \<not> online db then Inl (AppErr NewDatabaseError)
      else if list_ex same (user_balances db) then
        Inr (db\<lparr>user_balances :=
               map (\<lambda>b. if same b then b\<lparr>b_Balance := b_Balance b + Round amount 2\<rparr> else b)
                 (user_balances db)\<rparr>)
      else
        Inr (db\<lparr>user_balances := user_balances db @
               [\<lparr>b_ID = next_id (map b_ID (user_balances db)), b_GroupID = groupID,
                 b_UserID = userID, b_Balance = Round amount 2, b_Currency = currency,
                 b_Group = None, b_User = None\<rparr>]\<rparr>))"

text \<open>\<open>INSERT INTO expenses\<close>: \<open>uuid\<close> is unique; the new id is written back to the struct.\<close>

definition expenseRepo_Create :: "DB \<Rightarrow> Expense \<Rightarrow> failure + (DB \<times> Expense)" where
  "expenseRepo_Create db expense =
     (if \<not> online db then Inl (AppErr NewDatabaseError)
      else if list_ex (\<lambda>e. e_UUID e = e_UUID expense) (expenses db) then
        Inl (AppErr NewDatabaseError)
      else
        let expense' = expense\<lparr>e_ID := next_id (map e_ID (expenses db))\<rparr>
        in Inr (db\<lparr>expenses := expenses db @
                  [expense'\<lparr>e_Amount := Round (e_Amount expense) 2, e_Splits := []\<rparr>]\<rparr>,
                expense'))"

text \<open>\<open>INSERT INTO expense_splits\<close>: \<open>(expense_id, user_id)\<close> is unique.\<close>

definition expenseRepo_CreateSplit :: "DB \<Rightarrow> ExpenseSplit \<Rightarrow> failure + (DB \<times> ExpenseSplit)" where
  "expenseRepo_CreateSplit db split =
     (if \<not> online db then Inl (AppErr NewDatabaseError)
      else if list_ex (\<lambda>r. es_ExpenseID r = es_ExpenseID split \<and> es_UserID r = es_UserID split)
                (expense_splits db) then
        Inl (AppErr NewDatabaseError)
      else
        let split' = split\<lparr>es_ID := next_id (map es_ID (expense_splits db))\<rparr>
        in Inr (db\<lparr>expense_splits := expense_splits db @
                  [split'\<lparr>es_Amount := Round (es_Amount split) 2,
                          es_Percentage := Round (es_Percentage split) 2, es_User := None\<rparr>]\<rparr>,
                split'))"

text \<open>The statement scans the joined user's columns into strings, which fails on a
  missing user.\<close>

definition expenseRepo_GetExpenseSplits :: "DB \<Rightarrow> int \<Rightarrow> failure + ExpenseSplit list" where
  "expenseRepo_GetExpenseSplits db expenseID =
     (let rows = filter (\<lambda>r. es_ExpenseID r = expenseID) (expense_splits db) in
      if \<not> online db then Inl (AppErr NewDatabaseError)
      else if list_ex (\<lambda>r. joinUser db (es_UserID r) = None) rows then
        Inl (AppErr NewDatabaseError)
      else Inr (map (\<lambda>r. r\<lparr>es_User := joinUser db (es_UserID r)\<rparr>) rows))"

definition settlementRepo_Create :: "DB \<Rightarrow> Settlement \<Rightarrow> failure + (DB \<times> Settlement)" where
  "settlementRepo_Create db settlement =
     (if \<not> online db then Inl (AppErr NewDatabaseError)
      else if list_ex (\<lambda>r. st_UUID r = st_UUID settlement) (settlements db) then
        Inl (AppErr NewDatabaseError)
      else
        let settlement' = settlement\<lparr>st_ID := next_id (map st_ID (settlements db))\<rparr>
        in Inr (db\<lparr>settlements := settlements db @
                  [settlement'\<lparr>st_Amount := Round (st_Amount settlement) 2\<rparr>]\<rparr>,
                settlement'))"

definition settlementRepo_GetByUUID :: "DB \<Rightarrow> string \<Rightarrow> failure + Settlement" where
  "settlementRepo_GetByUUID db uuid =
     (if \<not> online db then Inl (AppErr NewDatabaseError)
      else case find (\<lambda>r. st_UUID r = uuid) (settlements db) of
        None \<Rightarrow> Inl (AppErr (NewNotFoundError ''Settlement''))
      | Some row \<Rightarrow>
          Inr (row\<lparr>st_Group := joinGroup db (st_GroupID row),
                    st_FromUser := joinUser db (st_FromUserID row),
                    st_ToUser := joinUser db (st_ToUserID row)\<rparr>))"

text \<open>
  \<open>WithTransaction\<close>: the function's writes are kept when it returns no error and are
  rolled back when it returns one or panics.
\<close>

definition WithTransaction :: "DB \<Rightarrow> (DB \<Rightarrow> failure + (DB \<times> 'a)) \<Rightarrow> DB \<times> (failure + 'a)" where
  "WithTransaction db fn =
     (if \<not> online db then (db, Inl (DriverErr ''begin''))
      else case fn db of
        Inl err \<Rightarrow> (db, Inl err)
      | Inr (db', x) \<Rightarrow> (db', Inr x))"

section \<open>Split calculation (internal/service/expense_service.go)\<close>

text \<open>
  Each \<open>for ... range req.Splits\<close> loop is a recursion over the splits still to visit,
  carrying the loop's variables: the index \<open>i\<close>, the slice \<open>splits\<close> built so far and the
  running total.
\<close>

fun calculateEqualSplits_loop ::
  "deps \<Rightarrow> DB \<Rightarrow> CreateExpenseRequest \<Rightarrow> int \<Rightarrow> decimal \<Rightarrow> int \<Rightarrow>
   CreateExpenseSplitRequest list \<Rightarrow> ExpenseSplit list \<Rightarrow> decimal \<Rightarrow> failure + ExpenseSplit list"
where
  "calculateEqualSplits_loop lib db req groupID amountPerUser i [] splits totalAssigned = Inr splits"
| "calculateEqualSplits_loop lib db req groupID amountPerUser i (splitReq # rest) splits totalAssigned =
     (if \<not> IsValidUUID lib (sq_UserUUID splitReq) then
        Inl (AppErr (NewInvalidValueError ''user_uuid'' (sq_UserUUID splitReq)))
      else case userRepo_GetByUUID db (sq_UserUUID splitReq) of
        Inl err \<Rightarrow> Inl err
      | Inr user \<Rightarrow>
          (case groupRepo_IsMember db groupID (u_ID user) of
            Inl err \<Rightarrow> Inl err
          | Inr isMember \<Rightarrow>
              if \<not> isMember then
                Inl (AppErr (NewValidationError ''All users in split must be members of the group''))
              else
                let amount = (if i = int (length (rq_Splits req)) - 1
                              then rq_Amount req - totalAssigned else amountPerUser)
                in calculateEqualSplits_loop lib db req groupID amountPerUser (i + 1) rest
                     (splits @ [\<lparr>es_ID = 0, es_ExpenseID = 0, es_UserID = u_ID user,
                                 es_Amount = amount, es_Percentage = 0, es_User = Some user\<rparr>])
                     (totalAssigned + amount)))"

definition calculateEqualSplits ::
  "deps \<Rightarrow> DB \<Rightarrow> CreateExpenseRequest \<Rightarrow> int \<Rightarrow> failure + ExpenseSplit list" where
  "calculateEqualSplits lib db req groupID =
     (let splitCount = (of_nat (length (rq_Splits req)) :: decimal) in
      case Div (rq_Amount req) splitCount of
        None \<Rightarrow> Inl (Panic ''decimal division by 0'')
      | Some q \<Rightarrow>
          calculateEqualSplits_loop lib db req groupID (Round q 2) 0 (rq_Splits req) [] 0)"

fun calculateExactSplits_loop ::
  "deps \<Rightarrow> DB \<Rightarrow> int \<Rightarrow> CreateExpenseSplitRequest list \<Rightarrow> ExpenseSplit list \<Rightarrow> decimal \<Rightarrow>
   failure + (ExpenseSplit list \<times> decimal)"
where
  "calculateExactSplits_loop lib db groupID [] splits totalSplitAmount = Inr (splits, totalSplitAmount)"
| "calculateExactSplits_loop lib db groupID (splitReq # rest) splits totalSplitAmount =
     (if \<not> IsValidUUID lib (sq_UserUUID splitReq) then
        Inl (AppErr (NewInvalidValueError ''user_uuid'' (sq_UserUUID splitReq)))
      else if sq_Amount splitReq \<le> 0 then
        Inl (AppErr (NewValidationError ''Split amounts must be greater than zero''))
      else case userRepo_GetByUUID db (sq_UserUUID splitReq) of
        Inl err \<Rightarrow> Inl err
      | Inr user \<Rightarrow>
          (case groupRepo_IsMember db groupID (u_ID user) of
            Inl err \<Rightarrow> Inl err
          | Inr isMember \<Rightarrow>
              if \<not> isMember then
                Inl (AppErr (NewValidationError ''All users in split must be members of the group''))
              else
                calculateExactSplits_loop lib db groupID rest
                  (splits @ [\<lparr>es_ID = 0, es_ExpenseID = 0, es_UserID = u_ID user,
                              es_Amount = sq_Amount splitReq, es_Percentage = 0,
                              es_User = Some user\<rparr>])
                  (totalSplitAmount + sq_Amount splitReq)))"

definition calculateExactSplits ::
  "deps \<Rightarrow> DB \<Rightarrow> CreateExpenseRequest \<Rightarrow> int \<Rightarrow> failure + ExpenseSplit list" where
  "calculateExactSplits lib db req groupID =
     (case calculateExactSplits_loop lib db groupID (rq_Splits req) [] 0 of
        Inl err \<Rightarrow> Inl err
      | Inr (splits, totalSplitAmount) \<Rightarrow>
          if \<not> (totalSplitAmount = rq_Amount req) then
            Inl (AppErr (NewInvalidSplitError ''Sum of split amounts must equal total expense amount''))
          else Inr splits)"

fun calculatePercentageSplits_loop ::
  "deps \<Rightarrow> DB \<Rightarrow> CreateExpenseRequest \<Rightarrow> int \<Rightarrow> CreateExpenseSplitRequest list \<Rightarrow>
   ExpenseSplit list \<Rightarrow> decimal \<Rightarrow> failure + (ExpenseSplit list \<times> decimal)"
where
  "calculatePercentageSplits_loop lib db req groupID [] splits totalPercentage =
     Inr (splits, totalPercentage)"
| "calculatePercentageSplits_loop lib db req groupID (splitReq # rest) splits totalPercentage =
     (if \<not> IsValidUUID lib (sq_UserUUID splitReq) then
        Inl (AppErr (NewInvalidValueError ''user_uuid'' (sq_UserUUID splitReq)))
      else case ValidatePercentage (sq_Percentage splitReq) of
        Some err \<Rightarrow> Inl (AppErr err)
      | None \<Rightarrow>
          (case userRepo_GetByUUID db (sq_UserUUID splitReq) of
            Inl err \<Rightarrow> Inl err
          | Inr user \<Rightarrow>
              (case groupRepo_IsMember db groupID (u_ID user) of
                Inl err \<Rightarrow> Inl err
              | Inr isMember \<Rightarrow>
                  if \<not> isMember then
                    Inl (AppErr (NewValidationError
                      ''All users in split must be members of the group''))
                  else
                    (case Div (rq_Amount req * sq_Percentage splitReq) 100 of
                      None \<Rightarrow> Inl (Panic ''decimal division by 0'')
                    | Some q \<Rightarrow>
                        calculatePercentageSplits_loop lib db req groupID rest
                          (splits @ [\<lparr>es_ID = 0, es_ExpenseID = 0, es_UserID = u_ID user,
                                      es_Amount = Round q 2,
                                      es_Percentage = sq_Percentage splitReq,
                                      es_User = Some user\<rparr>])
                          (totalPercentage + sq_Percentage splitReq)))))"

definition calculatePercentageSplits ::
  "deps \<Rightarrow> DB \<Rightarrow> CreateExpenseRequest \<Rightarrow> int \<Rightarrow> failure + ExpenseSplit list" where
  "calculatePercentageSplits lib db req groupID =
     (case calculatePercentageSplits_loop lib db req groupID (rq_Splits req) [] 0 of
        Inl err \<Rightarrow> Inl err
      | Inr (splits, totalPercentage) \<Rightarrow>
          if \<not> (totalPercentage = 100) then
            Inl (AppErr (NewInvalidSplitError ''Percentages must sum to 100''))
          else Inr splits)"

definition validateAndCalculateSplits ::
  "deps \<Rightarrow> DB \<Rightarrow> CreateExpenseRequest \<Rightarrow> int \<Rightarrow> failure + ExpenseSplit list" where
  "validateAndCalculateSplits lib db req groupID =
     (if length (rq_Splits req) = 0 then
        Inl (AppErr (NewValidationError ''At least one split is required''))
      else if rq_SplitType req = SplitTypeEqual then calculateEqualSplits lib db req groupID
      else if rq_SplitType req = SplitTypeExact then calculateExactSplits lib db req groupID
      else if rq_SplitType req = SplitTypePercentage then
        calculatePercentageSplits lib db req groupID
      else Inl (AppErr (NewInvalidValueError ''split_type'' (rq_SplitType req))))"

section \<open>Creating an expense (internal/service/expense_service.go)\<close>

fun updateBalancesAfterExpense_loop :: "DB \<Rightarrow> Expense \<Rightarrow> ExpenseSplit list \<Rightarrow> failure + DB" where
  "updateBalancesAfterExpense_loop db expense [] = Inr db"
| "updateBalancesAfterExpense_loop db expense (split # rest) =
     (case balanceRepo_UpdateBalance db (e_GroupID expense) (es_UserID split) (es_Amount split)
             (e_Currency expense) of
        Inl err \<Rightarrow> Inl err
      | Inr db' \<Rightarrow> updateBalancesAfterExpense_loop db' expense rest)"

definition updateBalancesAfterExpense :: "DB \<Rightarrow> Expense \<Rightarrow> ExpenseSplit list \<Rightarrow> failure + DB" where
  "updateBalancesAfterExpense db expense splits =
     (case updateBalancesAfterExpense_loop db expense splits of
        Inl err \<Rightarrow> Inl err
      | Inr db' \<Rightarrow>
          balanceRepo_UpdateBalance db' (e_GroupID expense) (e_PaidBy expense)
            (- e_Amount expense) (e_Currency expense))"

text \<open>The loop of the transaction that stores the splits; each split gets the expense's
  id and then its own.\<close>

fun createSplits_loop ::
  "DB \<Rightarrow> Expense \<Rightarrow> ExpenseSplit list \<Rightarrow> ExpenseSplit list \<Rightarrow> failure + (DB \<times> ExpenseSplit list)"
where
  "createSplits_loop db expense [] done = Inr (db, done)"
| "createSplits_loop db expense (split # rest) done =
     (case expenseRepo_CreateSplit db (split\<lparr>es_ExpenseID := e_ID expense\<rparr>) of
        Inl err \<Rightarrow> Inl err
      | Inr (db', split') \<Rightarrow> createSplits_loop db' expense rest (done @ [split']))"

definition createExpense_tx ::
  "Expense \<Rightarrow> ExpenseSplit list \<Rightarrow> DB \<Rightarrow> failure + (DB \<times> Expense)" where
  "createExpense_tx expense splits tx =
     (case expenseRepo_Create tx expense of
        Inl err \<Rightarrow> Inl err
      | Inr (tx1, expense') \<Rightarrow>
          (case createSplits_loop tx1 expense' splits [] of
            Inl err \<Rightarrow> Inl err
          | Inr (tx2, splits') \<Rightarrow>
              (case updateBalancesAfterExpense tx2 expense' splits' of
                Inl err \<Rightarrow> Inl err
              | Inr tx3 \<Rightarrow> Inr (tx3, expense'))))"

text \<open>\<open>newUUID\<close> is the value of \<open>utils.GenerateUUID()\<close>. The result is the database
  after the call and what the call returns.\<close>

definition CreateExpense ::
  "deps \<Rightarrow> DB \<Rightarrow> string \<Rightarrow> CreateExpenseRequest \<Rightarrow> DB \<times> (failure + Expense)" where
  "CreateExpense lib db newUUID req =
     (case ValidateAmount (rq_Amount req) of
        Some err \<Rightarrow> (db, Inl (AppErr err))
      | None \<Rightarrow>
     (case ValidateDescription (rq_Description req) of
        Some err \<Rightarrow> (db, Inl (AppErr err))
      | None \<Rightarrow>
     (let currency = (if rq_Currency req = [] then ''USD'' else rq_Currency req) in
      case ValidateCurrency lib currency of
        Some err \<Rightarrow> (db, Inl (AppErr err))
      | None \<Rightarrow>
     (if \<not> IsValidUUID lib (rq_GroupUUID req) then
        (db, Inl (AppErr (NewInvalidValueError ''group_uuid'' (rq_GroupUUID req))))
      else if \<not> IsValidUUID lib (rq_PaidByUUID req) then
        (db, Inl (AppErr (NewInvalidValueError ''paid_by_uuid'' (rq_PaidByUUID req))))
      else
     (case groupRepo_GetByUUID db (rq_GroupUUID req) of
        Inl err \<Rightarrow> (db, Inl err)
      | Inr grp \<Rightarrow>
     (case userRepo_GetByUUID db (rq_PaidByUUID req) of
        Inl err \<Rightarrow> (db, Inl err)
      | Inr payer \<Rightarrow>
     (case groupRepo_IsMember db (g_ID grp) (u_ID payer) of
        Inl err \<Rightarrow> (db, Inl err)
      | Inr isMember \<Rightarrow>
     (if \<not> isMember then
        (db, Inl (AppErr (NewValidationError ''Payer must be a member of the group'')))
      else
     (case validateAndCalculateSplits lib db req (g_ID grp) of
        Inl err \<Rightarrow> (db, Inl err)
      | Inr splits \<Rightarrow>
     (let expense = \<lparr>e_ID = 0, e_UUID = newUUID, e_GroupID = g_ID grp, e_PaidBy = u_ID payer,
                      e_Amount = rq_Amount req, e_Currency = currency,
                      e_Description = rq_Description req, e_SplitType = rq_SplitType req,
                      e_Splits = []\<rparr> in
      case WithTransaction db (createExpense_tx expense splits) of
        (db', Inl err) \<Rightarrow> (db', Inl err)
      | (db', Inr expense') \<Rightarrow>
          (case expenseRepo_GetExpenseSplits db' (e_ID expense') of
            Inl err \<Rightarrow> (db', Inl err)
          | Inr stored \<Rightarrow> (db', Inr (expense'\<lparr>e_Splits := stored\<rparr>)))))))))))))"

section \<open>Creating a settlement (internal/service/settlement_service.go)\<close>

definition updateBalancesAfterSettlement :: "DB \<Rightarrow> Settlement \<Rightarrow> failure + DB" where
  "updateBalancesAfterSettlement db settlement =
     (case balanceRepo_UpdateBalance db (st_GroupID settlement) (st_FromUserID settlement)
             (- st_Amount settlement) (st_Currency settlement) of
        Inl err \<Rightarrow> Inl err
      | Inr db' \<Rightarrow>
          balanceRepo_UpdateBalance db' (st_GroupID settlement) (st_ToUserID settlement)
            (st_Amount settlement) (st_Currency settlement))"

definition createSettlement_tx :: "Settlement \<Rightarrow> DB \<Rightarrow> failure + (DB \<times> Settlement)" where
  "createSettlement_tx settlement tx =
     (case settlementRepo_Create tx settlement of
        Inl err \<Rightarrow> Inl err
      | Inr (tx1, settlement') \<Rightarrow>
          (case updateBalancesAfterSettlement tx1 settlement' of
            Inl err \<Rightarrow> Inl err
          | Inr tx2 \<Rightarrow> Inr (tx2, settlement')))"

definition CreateSettlement ::
  "deps \<Rightarrow> DB \<Rightarrow> string \<Rightarrow> CreateSettlementRequest \<Rightarrow> DB \<times> (failure + Settlement)" where
  "CreateSettlement lib db newUUID req =
     (case ValidateAmount (sr_Amount req) of
        Some err \<Rightarrow> (db, Inl (AppErr err))
      | None \<Rightarrow>
     (let currency = (if sr_Currency req = [] then ''USD'' else sr_Currency req) in
      case ValidateCurrency lib currency of
        Some err \<Rightarrow> (db, Inl (AppErr err))
      | None \<Rightarrow>
     (if \<not> IsValidUUID lib (sr_GroupUUID req) then
        (db, Inl (AppErr (NewInvalidValueError ''group_uuid'' (sr_GroupUUID req))))
      else if \<not> IsValidUUID lib (sr_FromUserUUID req) then
        (db, Inl (AppErr (NewInvalidValueError ''from_user_uuid'' (sr_FromUserUUID req))))
      else if \<not> IsValidUUID lib (sr_ToUserUUID req) then
        (db, Inl (AppErr (NewInvalidValueError ''to_user_uuid'' (sr_ToUserUUID req))))
      else if sr_FromUserUUID req = sr_ToUserUUID req then
        (db, Inl (AppErr (NewValidationError ''From user and to user cannot be the same'')))
      else
     (case groupRepo_GetByUUID db (sr_GroupUUID req) of
        Inl err \<Rightarrow> (db, Inl err)
      | Inr grp \<Rightarrow>
     (case userRepo_GetByUUID db (sr_FromUserUUID req) of
        Inl err \<Rightarrow> (db, Inl err)
      | Inr fromUser \<Rightarrow>
     (case userRepo_GetByUUID db (sr_ToUserUUID req) of
        Inl err \<Rightarrow> (db, Inl err)
      | Inr toUser \<Rightarrow>
     (case groupRepo_IsMember db (g_ID grp) (u_ID fromUser) of
        Inl err \<Rightarrow> (db, Inl err)
      | Inr isFromMember \<Rightarrow>
     (if \<not> isFromMember then
        (db, Inl (AppErr (NewValidationError ''From user must be a member of the group'')))
      else
     (case groupRepo_IsMember db (g_ID grp) (u_ID toUser) of
        Inl err \<Rightarrow> (db, Inl err)
      | Inr isToMember \<Rightarrow>
     (if \<not> isToMember then
        (db, Inl (AppErr (NewValidationError ''To user must be a member of the group'')))
      else
     (case balanceRepo_GetByGroupAndUser db (g_ID grp) (u_ID fromUser) currency of
        Inl err \<Rightarrow> (db, Inl err)
      | Inr fromBalance \<Rightarrow>
     (if sr_Amount req > b_Balance fromBalance then
        (db, Inl (AppErr (NewInsufficientFundError
                (DecimalString lib (b_Balance fromBalance)) (DecimalString lib (sr_Amount req)))))
      else
     (let settlement = \<lparr>st_ID = 0, st_UUID = newUUID, st_GroupID = g_ID grp,
                         st_FromUserID = u_ID fromUser, st_ToUserID = u_ID toUser,
                         st_Amount = sr_Amount req, st_Currency = currency,
                         st_Description = sr_Description req, st_Group = None,
                         st_FromUser = None, st_ToUser = None\<rparr> in
      case WithTransaction db (createSettlement_tx settlement) of
        (db', Inl err) \<Rightarrow> (db', Inl err)
      | (db', Inr settlement') \<Rightarrow>
          (db', settlementRepo_GetByUUID db' (st_UUID settlement')))))))))))))))"

section \<open>Debt simplification (internal/service/settlement_service.go)\<close>

text \<open>The scan for the largest balance: the first index of a maximal balance.\<close>

definition findMaxIdx :: "Balance list \<Rightarrow> nat" where
  "findMaxIdx work =
     fold (\<lambda>i maxIdx. if b_Balance (work ! i) > b_Balance (work ! maxIdx) then i else maxIdx)
       [0..<length work] 0"

text \<open>\<open>append(work[:i], work[i+1:]...)\<close>\<close>

definition removeAt :: "nat \<Rightarrow> 'a list \<Rightarrow> 'a list" where
  "removeAt i xs = take i xs @ drop (i + 1) xs"

text \<open>
  The body of the greedy loop once the two indices are chosen: settle the smaller of the
  two balances, record the suggestion, subtract, and drop who reached zero. The working
  copies are slices of pointers, so the subtraction updates the element in place.
\<close>

definition settle_at ::
  "string \<Rightarrow> nat \<Rightarrow> nat \<Rightarrow> Balance list \<Rightarrow> Balance list \<Rightarrow> SettlementSuggestion list \<Rightarrow>
   Balance list \<times> Balance list \<times> SettlementSuggestion list" where
  "settle_at currency maxCreditorIdx maxDebtorIdx creditorsWork debtorsWork suggestions =
     (let creditor = creditorsWork ! maxCreditorIdx;
          debtor = debtorsWork ! maxDebtorIdx;
          settlementAmount = (if b_Balance debtor < b_Balance creditor then b_Balance debtor
                              else b_Balance creditor);
          suggestions' = suggestions @
            [\<lparr>sg_FromUser = b_User debtor, sg_ToUser = b_User creditor,
              sg_Amount = settlementAmount, sg_Currency = currency\<rparr>];
          creditor' = creditor\<lparr>b_Balance := b_Balance creditor - settlementAmount\<rparr>;
          debtor' = debtor\<lparr>b_Balance := b_Balance debtor - settlementAmount\<rparr>;
          creditorsWork1 = creditorsWork[maxCreditorIdx := creditor'];
          debtorsWork1 = debtorsWork[maxDebtorIdx := debtor'];
          creditorsWork2 = (if b_Balance creditor' = 0 then removeAt maxCreditorIdx creditorsWork1
                            else creditorsWork1);
          debtorsWork2 = (if b_Balance debtor' = 0 then removeAt maxDebtorIdx debtorsWork1
                          else debtorsWork1)
      in (creditorsWork2, debtorsWork2, suggestions'))"

function settlement_loop ::
  "string \<Rightarrow> Balance list \<Rightarrow> Balance list \<Rightarrow> SettlementSuggestion list \<Rightarrow>
   Balance list \<times> Balance list \<times> SettlementSuggestion list" where
  "settlement_loop currency creditorsWork debtorsWork suggestions =
     (if length creditorsWork > 0 \<and> length debtorsWork > 0 then
        (case settle_at currency (findMaxIdx creditorsWork) (findMaxIdx debtorsWork)
                creditorsWork debtorsWork suggestions of
           (creditorsWork', debtorsWork', suggestions') \<Rightarrow>
             settlement_loop currency creditorsWork' debtorsWork' suggestions')
      else (creditorsWork, debtorsWork, suggestions))"
  by pat_completeness auto
termination
proof (relation "measure (\<lambda>(currency, cw, dw, sg). length cw + length dw)")
  show "wf (measure (\<lambda>(currency, cw, dw, sg). length cw + length dw))" by simp
next
  fix currency :: string and cw dw :: "Balance list" and sg :: "SettlementSuggestion list"
    and x cw' y dw' sg'
  assume ne: "0 < length cw \<and> 0 < length dw"
    and x: "(cw', y) = settle_at currency (findMaxIdx cw) (findMaxIdx dw) cw dw sg"
    and y: "(dw', sg') = y"
  have scan: "fold (\<lambda>i maxIdx. if P i maxIdx then i else maxIdx) is m < n"
    if "m < n" "set is \<subseteq> {..<n}" for P :: "nat \<Rightarrow> nat \<Rightarrow> bool" and "is" m n
    using that by (induction "is" arbitrary: m) auto
  have idx: "findMaxIdx work < length work" if "work \<noteq> []" for work
    unfolding findMaxIdx_def using that by (intro scan) auto
  have i: "findMaxIdx cw < length cw" and j: "findMaxIdx dw < length dw"
    using ne by (auto intro: idx)
  have "settle_at currency (findMaxIdx cw) (findMaxIdx dw) cw dw sg = (cw', dw', sg')"
    using x y by simp
  then have "length cw' + length dw' < length cw + length dw"
    using i j by (auto simp: settle_at_def Let_def removeAt_def split: if_splits)
  then show "((currency, cw', dw', sg'), (currency, cw, dw, sg))
        \<in> measure (\<lambda>(currency, cw, dw, sg). length cw + length dw)"
    by simp
qed

declare settlement_loop.simps [simp del]

definition generateSettlementSuggestions ::
  "Balance list \<Rightarrow> Balance list \<Rightarrow> string \<Rightarrow> SettlementSuggestion list" where
  "generateSettlementSuggestions creditors debtors currency =
     (let creditorsWork =
            map (\<lambda>c. \<lparr>b_ID = 0, b_GroupID = 0, b_UserID = 0, b_Balance = b_Balance c,
                       b_Currency = [], b_Group = None, b_User = b_User c\<rparr>) creditors;
          debtorsWork =
            map (\<lambda>d. \<lparr>b_ID = 0, b_GroupID = 0, b_UserID = 0, b_Balance = b_Balance d,
                       b_Currency = [], b_Group = None, b_User = b_User d\<rparr>) debtors
      in snd (snd (settlement_loop currency creditorsWork debtorsWork [])))"

text \<open>The loop of \<open>SimplifyDebts\<close> that separates debtors (positive balance) from
  creditors (negative balance, kept as its absolute value).\<close>

fun partition_loop :: "Balance list \<Rightarrow> Balance list \<Rightarrow> Balance list \<Rightarrow> Balance list \<times> Balance list" where
  "partition_loop [] creditors debtors = (creditors, debtors)"
| "partition_loop (balance # rest) creditors debtors =
     (if b_Balance balance > 0 then partition_loop rest creditors (debtors @ [balance])
      else if b_Balance balance < 0 then
        partition_loop rest (creditors @ [balance\<lparr>b_Balance := \<bar>b_Balance balance\<bar>\<rparr>]) debtors
      else partition_loop rest creditors debtors)"

text \<open>The part of \<open>SimplifyDebts\<close> after the balances are read.\<close>

definition simplify :: "Balance list \<Rightarrow> string \<Rightarrow> DebtSimplification" where
  "simplify balances currency =
     (case partition_loop balances [] [] of
        (creditors, debtors) \<Rightarrow>
          let originalTransactions0 = int (length debtors) * int (length creditors);
              originalTransactions = (if originalTransactions0 = 0 then 1 else originalTransactions0);
              suggestions = generateSettlementSuggestions creditors debtors currency;
              simplifiedTransactions = int (length suggestions);
              savings0 = originalTransactions - simplifiedTransactions;
              savings = (if savings0 < 0 then 0 else savings0)
          in \<lparr>ds_OriginalTransactions = originalTransactions,
               ds_SimplifiedTransactions = simplifiedTransactions,
               ds_Savings = savings, ds_Suggestions = suggestions\<rparr>)"

definition SimplifyDebts :: "deps \<Rightarrow> DB \<Rightarrow> string \<Rightarrow> failure + DebtSimplification" where
  "SimplifyDebts lib db groupUUID =
     (if \<not> IsValidUUID lib groupUUID then
        Inl (AppErr (NewInvalidValueError ''group_uuid'' groupUUID))
      else case groupRepo_GetByUUID db groupUUID of
        Inl err \<Rightarrow> Inl err
      | Inr grp \<Rightarrow>
          (case balanceRepo_GetGroupBalances db (g_ID grp) ''USD'' of
            Inl err \<Rightarrow> Inl err
          | Inr balances \<Rightarrow> Inr (simplify balances ''USD'')))"

section \<open>Notions used in the statements\<close>

text \<open>How many balances of a snapshot are positive (debtors) and negative (creditors).\<close>

definition debtorCount :: "Balance list \<Rightarrow> int" where
  "debtorCount balances = int (length (filter (\<lambda>b. b_Balance b > 0) balances))"

definition creditorCount :: "Balance list \<Rightarrow> int" where
  "creditorCount balances = int (length (filter (\<lambda>b. b_Balance b < 0) balances))"

text \<open>
  A participant is a valid group member when its identifier is well formed, names a user,
  and the user belongs to the group: the three checks each split loop makes.
\<close>

definition participant :: "DB \<Rightarrow> string \<Rightarrow> User option" where
  "participant db uuid = (case userRepo_GetByUUID db uuid of Inl err \<Rightarrow> None | Inr user \<Rightarrow> Some user)"

definition valid_member :: "deps \<Rightarrow> DB \<Rightarrow> int \<Rightarrow> string \<Rightarrow> bool" where
  "valid_member lib db groupID uuid =
     (IsValidUUID lib uuid \<and>
      (case userRepo_GetByUUID db uuid of
         Inl err \<Rightarrow> False
       | Inr user \<Rightarrow> groupRepo_IsMember db groupID (u_ID user) = Inr True))"

text \<open>The split each loop builds for a participant that passes its checks.\<close>

definition equalSplit :: "DB \<Rightarrow> decimal \<Rightarrow> CreateExpenseSplitRequest \<Rightarrow> ExpenseSplit" where
  "equalSplit db amount splitReq =
     \<lparr>es_ID = 0, es_ExpenseID = 0, es_UserID = u_ID (the (participant db (sq_UserUUID splitReq))),
      es_Amount = amount, es_Percentage = 0, es_User = participant db (sq_UserUUID splitReq)\<rparr>"

definition exactSplit :: "DB \<Rightarrow> CreateExpenseSplitRequest \<Rightarrow> ExpenseSplit" where
  "exactSplit db splitReq =
     \<lparr>es_ID = 0, es_ExpenseID = 0, es_UserID = u_ID (the (participant db (sq_UserUUID splitReq))),
      es_Amount = sq_Amount splitReq, es_Percentage = 0,
      es_User = participant db (sq_UserUUID splitReq)\<rparr>"

definition percentageSplit :: "DB \<Rightarrow> decimal \<Rightarrow> CreateExpenseSplitRequest \<Rightarrow> ExpenseSplit" where
  "percentageSplit db amount splitReq =
     \<lparr>es_ID = 0, es_ExpenseID = 0, es_UserID = u_ID (the (participant db (sq_UserUUID splitReq))),
      es_Amount = Round (Round (amount * sq_Percentage splitReq / 100) DivisionPrecision) 2,
      es_Percentage = sq_Percentage splitReq,
      es_User = participant db (sq_UserUUID splitReq)\<rparr>"

text \<open>
  \<open>expense_request_checked\<close> holds when the checks of \<open>CreateExpense\<close> before the split
  calculation all pass; \<open>storeExpense\<close> is the rest of the function once the splits are
  known: the transaction and the read of the stored splits.
\<close>

definition newExpense :: "string \<Rightarrow> Group \<Rightarrow> User \<Rightarrow> CreateExpenseRequest \<Rightarrow> Expense" where
  "newExpense newUUID grp payer req =
     \<lparr>e_ID = 0, e_UUID = newUUID, e_GroupID = g_ID grp, e_PaidBy = u_ID payer,
      e_Amount = rq_Amount req,
      e_Currency = (if rq_Currency req = [] then ''USD'' else rq_Currency req),
      e_Description = rq_Description req, e_SplitType = rq_SplitType req, e_Splits = []\<rparr>"

definition storeExpense :: "DB \<Rightarrow> Expense \<Rightarrow> ExpenseSplit list \<Rightarrow> DB \<times> (failure + Expense)" where
  "storeExpense db expense splits =
     (case WithTransaction db (createExpense_tx expense splits) of
        (db', Inl err) \<Rightarrow> (db', Inl err)
      | (db', Inr expense') \<Rightarrow>
          (case expenseRepo_GetExpenseSplits db' (e_ID expense') of
            Inl err \<Rightarrow> (db', Inl err)
          | Inr stored \<Rightarrow> (db', Inr (expense'\<lparr>e_Splits := stored\<rparr>))))"

definition expense_request_checked ::
  "deps \<Rightarrow> DB \<Rightarrow> CreateExpenseRequest \<Rightarrow> Group \<Rightarrow> User \<Rightarrow> bool" where
  "expense_request_checked lib db req grp payer =
     (ValidateAmount (rq_Amount req) = None \<and>
      ValidateDescription (rq_Description req) = None \<and>
      ValidateCurrency lib (if rq_Currency req = [] then ''USD'' else rq_Currency req) = None \<and>
      IsValidUUID lib (rq_GroupUUID req) \<and>
      IsValidUUID lib (rq_PaidByUUID req) \<and>
      groupRepo_GetByUUID db (rq_GroupUUID req) = Inr grp \<and>
      userRepo_GetByUUID db (rq_PaidByUUID req) = Inr payer \<and>
      groupRepo_IsMember db (g_ID grp) (u_ID payer) = Inr True)"

text \<open>
  For the working sets of the matching: all remainders positive, the sum of the
  remainders, and the sum of the amounts suggested so far.
\<close>

definition positive :: "Balance list \<Rightarrow> bool" where
  "positive work = list_all (\<lambda>b. b_Balance b > 0) work"

definition remaining :: "Balance list \<Rightarrow> decimal" where
  "remaining work = sum_list (map b_Balance work)"

definition suggested :: "SettlementSuggestion list \<Rightarrow> decimal" where
  "suggested suggestions = sum_list (map sg_Amount suggestions)"

text \<open>
  A run of the matching under any selection policy: each round settles between some
  creditor and some debtor still in the working sets, whichever they are.
\<close>

inductive matching_run ::
  "string \<Rightarrow> Balance list \<Rightarrow> Balance list \<Rightarrow> SettlementSuggestion list \<Rightarrow>
   SettlementSuggestion list \<Rightarrow> bool" where
  stop: "cw = [] \<or> dw = [] \<Longrightarrow> matching_run cur cw dw sg sg"
| round: "cw \<noteq> [] \<Longrightarrow> dw \<noteq> [] \<Longrightarrow> i < length cw \<Longrightarrow> j < length dw \<Longrightarrow>
          settle_at cur i j cw dw sg = (cw', dw', sg') \<Longrightarrow>
          matching_run cur cw' dw' sg' out \<Longrightarrow> matching_run cur cw dw sg out"

text \<open>The working copy \<open>generateSettlementSuggestions\<close> makes of a balance, and the two sums
  of a snapshot: of its positive balances and of the absolute values of its negative ones.\<close>

definition workingCopy :: "Balance \<Rightarrow> Balance" where
  "workingCopy b = \<lparr>b_ID = 0, b_GroupID = 0, b_UserID = 0, b_Balance = b_Balance b,
                    b_Currency = [], b_Group = None, b_User = b_User b\<rparr>"

definition debtorSum :: "Balance list \<Rightarrow> decimal" where
  "debtorSum balances = sum_list (map b_Balance (filter (\<lambda>b. b_Balance b > 0) balances))"

definition creditorSum :: "Balance list \<Rightarrow> decimal" where
  "creditorSum balances = sum_list (map (\<lambda>b. \<bar>b_Balance b\<bar>) (filter (\<lambda>b. b_Balance b < 0) balances))"

text \<open>The balance the ledger holds for a group, a user and a currency: zero without a row.\<close>

definition currentBalance :: "DB \<Rightarrow> int \<Rightarrow> int \<Rightarrow> string \<Rightarrow> decimal" where
  "currentBalance db groupID userID currency =
     (case find (\<lambda>b. b_GroupID b = groupID \<and> b_UserID b = userID \<and> b_Currency b = currency)
             (user_balances db) of
        None \<Rightarrow> 0
      | Some row \<Rightarrow> b_Balance row)"

text \<open>
  \<open>settlement_request_checked\<close> holds when the checks of \<open>CreateSettlement\<close> before the
  read of the balance all pass; \<open>storeSettlement\<close> is the rest of the function once the
  amount is covered: the transaction and the read of the stored settlement.
\<close>

definition settlement_request_checked ::
  "deps \<Rightarrow> DB \<Rightarrow> CreateSettlementRequest \<Rightarrow> Group \<Rightarrow> User \<Rightarrow> User \<Rightarrow> bool" where
  "settlement_request_checked lib db req grp fromUser toUser =
     (ValidateAmount (sr_Amount req) = None \<and>
      ValidateCurrency lib (if sr_Currency req = [] then ''USD'' else sr_Currency req) = None \<and>
      IsValidUUID lib (sr_GroupUUID req) \<and>
      IsValidUUID lib (sr_FromUserUUID req) \<and>
      IsValidUUID lib (sr_ToUserUUID req) \<and>
      sr_FromUserUUID req \<noteq> sr_ToUserUUID req \<and>
      groupRepo_GetByUUID db (sr_GroupUUID req) = Inr grp \<and>
      userRepo_GetByUUID db (sr_FromUserUUID req) = Inr fromUser \<and>
      userRepo_GetByUUID db (sr_ToUserUUID req) = Inr toUser \<and>
      groupRepo_IsMember db (g_ID grp) (u_ID fromUser) = Inr True \<and>
      groupRepo_IsMember db (g_ID grp) (u_ID toUser) = Inr True)"

definition newSettlement ::
  "string \<Rightarrow> Group \<Rightarrow> User \<Rightarrow> User \<Rightarrow> CreateSettlementRequest \<Rightarrow> Settlement" where
  "newSettlement newUUID grp fromUser toUser req =
     \<lparr>st_ID = 0, st_UUID = newUUID, st_GroupID = g_ID grp,
      st_FromUserID = u_ID fromUser, st_ToUserID = u_ID toUser,
      st_Amount = sr_Amount req,
      st_Currency = (if sr_Currency req = [] then ''USD'' else sr_Currency req),
      st_Description = sr_Description req, st_Group = None,
      st_FromUser = None, st_ToUser = None\<rparr>"

definition storeSettlement :: "DB \<Rightarrow> Settlement \<Rightarrow> DB \<times> (failure + Settlement)" where
  "storeSettlement db settlement =
     (case WithTransaction db (createSettlement_tx settlement) of
        (db', Inl err) \<Rightarrow> (db', Inl err)
      | (db', Inr settlement') \<Rightarrow> (db', settlementRepo_GetByUUID db' (st_UUID settlement')))"

text \<open>An amount in cents: a decimal of at most two places, which a \<open>DECIMAL(15,2)\<close> column
  stores as it is.\<close>

definition cents :: "decimal \<Rightarrow> bool" where
  "cents d = (Round d 2 = d)"

text \<open>The sum of the balances of a group in a currency.\<close>

definition groupBalanceSum :: "DB \<Rightarrow> int \<Rightarrow> string \<Rightarrow> decimal" where
  "groupBalanceSum db groupID currency =
     sum_list (map b_Balance
       (filter (\<lambda>b. b_GroupID b = groupID \<and> b_Currency b = currency) (user_balances db)))"

text \<open>
  The schema gives \<open>user_balances\<close> a unique key on group, user and currency:
  \<open>balance_keys_unique\<close> says that the rows of the ledger respect it.
\<close>

definition balance_keys_unique :: "DB \<Rightarrow> bool" where
  "balance_keys_unique db =
     distinct (map (\<lambda>b. (b_GroupID b, b_UserID b, b_Currency b)) (user_balances db))"

text \<open>
  A sequence of calls on the ledger: each operation is a call of \<open>CreateExpense\<close> or of
  \<open>CreateSettlement\<close> with the identifier it generates, and leaves the database the call
  returns, changed when the call commits and unchanged when it fails.
\<close>

datatype operation =
  ExpenseOp string CreateExpenseRequest
| SettlementOp string CreateSettlementRequest

fun applyOperation :: "deps \<Rightarrow> DB \<Rightarrow> operation \<Rightarrow> DB" where
  "applyOperation lib db (ExpenseOp newUUID req) = fst (CreateExpense lib db newUUID req)"
| "applyOperation lib db (SettlementOp newUUID req) = fst (CreateSettlement lib db newUUID req)"

text \<open>
  The amounts of an expense request are in cents when its total is and, for an exact
  split, each supplied amount is. An operation is balanced when it is a settlement, or an
  expense in cents whose split is not a percentage split.
\<close>

definition amounts_in_cents :: "CreateExpenseRequest \<Rightarrow> bool" where
  "amounts_in_cents req =
     (cents (rq_Amount req) \<and>
      (rq_SplitType req = SplitTypeExact \<longrightarrow> list_all (\<lambda>s. cents (sq_Amount s)) (rq_Splits req)))"

fun balancedOperation :: "operation \<Rightarrow> bool" where
  "balancedOperation (ExpenseOp newUUID req) =
     (rq_SplitType req \<noteq> SplitTypePercentage \<and> amounts_in_cents req)"
| "balancedOperation (SettlementOp newUUID req) = True"

section \<open>A small database and requests for the examples\<close>

text \<open>Three users, Alice, Bob and Carol, all members of one group, and no balances yet.\<close>

definition db0 :: DB where
  "db0 = \<lparr>online = True,
          users = [\<lparr>u_ID = 1, u_UUID = ''alice'', u_Name = ''Alice'', u_Email = ''a@x.io''\<rparr>,
                   \<lparr>u_ID = 2, u_UUID = ''bob'', u_Name = ''Bob'', u_Email = ''b@x.io''\<rparr>,
                   \<lparr>u_ID = 3, u_UUID = ''carol'', u_Name = ''Carol'', u_Email = ''c@x.io''\<rparr>],
          groups = [\<lparr>g_ID = 10, g_UUID = ''trip'', g_Name = ''Trip'', g_Description = [],
                     g_CreatedBy = 1, g_Creator = None\<rparr>],
          group_members = [\<lparr>gm_ID = 1, gm_GroupID = 10, gm_UserID = 1\<rparr>,
                           \<lparr>gm_ID = 2, gm_GroupID = 10, gm_UserID = 2\<rparr>,
                           \<lparr>gm_ID = 3, gm_GroupID = 10, gm_UserID = 3\<rparr>],
          expenses = [], expense_splits = [], settlements = [], user_balances = []\<rparr>"

text \<open>A library for the examples: every identifier that is not empty is well formed. The
  examples hold ASCII text only and never reach \<open>UnicodeToUpper\<close>.\<close>

definition lib0 :: deps where
  "lib0 = \<lparr>IsValidUUID = (\<lambda>s. s \<noteq> []), DecimalString = (\<lambda>d. []),
            UnicodeToUpper = (\<lambda>s. s)\<rparr>"

text \<open>Requests on that database: Alice pays for a dinner in the group.\<close>

definition splitOf :: "string \<Rightarrow> decimal \<Rightarrow> decimal \<Rightarrow> CreateExpenseSplitRequest" where
  "splitOf uuid amount percentage =
     \<lparr>sq_UserUUID = uuid, sq_Amount = amount, sq_Percentage = percentage\<rparr>"

definition requestOf ::
  "decimal \<Rightarrow> string \<Rightarrow> CreateExpenseSplitRequest list \<Rightarrow> CreateExpenseRequest" where
  "requestOf amount splitType splits =
     \<lparr>rq_GroupUUID = ''trip'', rq_PaidByUUID = ''alice'', rq_Amount = amount,
      rq_Currency = ''USD'', rq_Description = ''Dinner'', rq_SplitType = splitType,
      rq_Splits = splits\<rparr>"

definition grp0 :: Group where
  "grp0 = \<lparr>g_ID = 10, g_UUID = ''trip'', g_Name = ''Trip'', g_Description = [], g_CreatedBy = 1,
          g_Creator = Some \<lparr>u_ID = 1, u_UUID = ''alice'', u_Name = ''Alice'', u_Email = ''a@x.io''\<rparr>\<rparr>"

definition alice0 :: User where
  "alice0 = \<lparr>u_ID = 1, u_UUID = ''alice'', u_Name = ''Alice'', u_Email = ''a@x.io''\<rparr>"

definition bob0 :: User where
  "bob0 = \<lparr>u_ID = 2, u_UUID = ''bob'', u_Name = ''Bob'', u_Email = ''b@x.io''\<rparr>"

text \<open>Working sets and a snapshot: Alice owes 50, Bob is owed 30 and Carol 20.\<close>

definition cw0 :: "Balance list" where
  "cw0 = [\<lparr>b_ID = 0, b_GroupID = 0, b_UserID = 0, b_Balance = 30, b_Currency = [],
           b_Group = None, b_User = None\<rparr>,
          \<lparr>b_ID = 0, b_GroupID = 0, b_UserID = 0, b_Balance = 20, b_Currency = [],
           b_Group = None, b_User = None\<rparr>]"

definition dw0 :: "Balance list" where
  "dw0 = [\<lparr>b_ID = 0, b_GroupID = 0, b_UserID = 0, b_Balance = 50, b_Currency = [],
           b_Group = None, b_User = None\<rparr>]"

definition balances0 :: "Balance list" where
  "balances0 =
     [\<lparr>b_ID = 1, b_GroupID = 10, b_UserID = 1, b_Balance = 50, b_Currency = ''USD'',
       b_Group = None, b_User = None\<rparr>,
      \<lparr>b_ID = 2, b_GroupID = 10, b_UserID = 2, b_Balance = - 30, b_Currency = ''USD'',
       b_Group = None, b_User = None\<rparr>,
      \<lparr>b_ID = 3, b_GroupID = 10, b_UserID = 3, b_Balance = - 20, b_Currency = ''USD'',
       b_Group = None, b_User = None\<rparr>]"

text \<open>The database once Alice owes Bob 20, and a settlement from Alice to Bob.\<close>

definition db1 :: DB where
  "db1 = db0\<lparr>user_balances :=
     [\<lparr>b_ID = 1, b_GroupID = 10, b_UserID = 1, b_Balance = 20, b_Currency = ''USD'',
       b_Group = None, b_User = None\<rparr>,
      \<lparr>b_ID = 2, b_GroupID = 10, b_UserID = 2, b_Balance = - 20, b_Currency = ''USD'',
       b_Group = None, b_User = None\<rparr>]\<rparr>"

definition settleOf :: "decimal \<Rightarrow> CreateSettlementRequest" where
  "settleOf amount =
     \<lparr>sr_GroupUUID = ''trip'', sr_FromUserUUID = ''alice'', sr_ToUserUUID = ''bob'',
      sr_Amount = amount, sr_Currency = ''USD'', sr_Description = []\<rparr>"

text \<open>An expense of 10.01 that Alice pays and splits 50% / 50% with Bob.\<close>

definition halves :: CreateExpenseRequest where
  "halves = requestOf (1001 / 100) ''percentage'' [splitOf ''alice'' 0 50, splitOf ''bob'' 0 50]"

text \<open>
  An expense of 0.009999999999999999 that Alice pays and splits equally with Bob, and an
  expense of 0.03 that she splits 16.6666666666666666% / 83.3333333333333334% with him.
\<close>

definition sliver :: CreateExpenseRequest where
  "sliver = requestOf (9999999999999999 / 10 ^ 18) ''equal'' [splitOf ''alice'' 0 0, splitOf ''bob'' 0 0]"

definition sixth :: CreateExpenseRequest where
  "sixth = requestOf (3 / 100) ''percentage''
     [splitOf ''alice'' 0 (166666666666666666 / 10 ^ 16),
      splitOf ''bob'' 0 (833333333333333334 / 10 ^ 16)]"

text \<open>Two operations on the empty ledger: Alice pays 100 split equally among the three,
  then Bob settles his share of 33.33 with Alice.\<close>

definition ops0 :: "operation list" where
  "ops0 =
     [ExpenseOp ''e1'' (requestOf 100 ''equal''
        [splitOf ''alice'' 0 0, splitOf ''bob'' 0 0, splitOf ''carol'' 0 0]),
      SettlementOp ''s1''
        \<lparr>sr_GroupUUID = ''trip'', sr_FromUserUUID = ''bob'', sr_ToUserUUID = ''alice'',
         sr_Amount = 3333 / 100, sr_Currency = ''USD'', sr_Description = []\<rparr>]"

section \<open>Amounts in cents\<close>

lemma floor_half: "\<lfloor>(of_int k :: rat) + 1 / 2\<rfloor> = k"
  by linarith

lemma floor_one_half: "\<lfloor>1 / 2 :: rat\<rfloor> = 0"
  using floor_half [of 0] by simp

lemma Round_minus: "Round (- d) places = - Round d places"
  by (cases "d = 0") (auto simp: Round_def floor_one_half)

lemma Round_of_int: "Round (of_int k / 10 ^ places) places = of_int k / 10 ^ places"
proof (cases "k < 0")
  case True
  then have "(of_int k :: rat) / 10 ^ places < 0" by (simp add: divide_neg_pos)
  moreover have "\<lfloor>- (of_int k :: rat) + 1 / 2\<rfloor> = - k"
    using floor_half [of "- k"] by simp
  ultimately show ?thesis by (simp add: Round_def)
next
  case False
  then have "\<not> (of_int k :: rat) / 10 ^ places < 0" by (simp add: divide_less_0_iff)
  then show ?thesis by (simp add: Round_def floor_half)
qed

lemma Round_is_int: "\<exists>k::int. Round d places = of_int k / 10 ^ places"
proof (cases "d < 0")
  case True
  then have "Round d places = of_int (- \<lfloor>- d * 10 ^ places + 1 / 2\<rfloor>) / 10 ^ places"
    by (simp add: Round_def)
  then show ?thesis by blast
next
  case False
  then have "Round d places = of_int \<lfloor>d * 10 ^ places + 1 / 2\<rfloor> / 10 ^ places"
    by (simp add: Round_def)
  then show ?thesis by blast
qed

lemma Round_Round: "Round (Round d places) places = Round d places"
  using Round_is_int [of d places] Round_of_int by auto

lemma cents_iff: "cents d \<longleftrightarrow> (\<exists>k::int. d = of_int k / 100)"
proof
  assume "cents d"
  then have "d = Round d 2" by (simp add: cents_def)
  with Round_is_int [of d 2] show "\<exists>k::int. d = of_int k / 100" by auto
next
  assume "\<exists>k::int. d = of_int k / 100"
  then obtain k :: int where d: "d = of_int k / 100" by auto
  have "Round (of_int k / 10 ^ 2) 2 = of_int k / 10 ^ 2" by (rule Round_of_int)
  then have "Round (of_int k / 100) 2 = of_int k / 100" by simp
  then show "cents d" unfolding cents_def d .
qed

lemma cents_Round: "cents (Round d 2)"
  by (simp add: cents_def Round_Round)

lemma cents_0: "cents 0"
  by (simp add: cents_def Round_def floor_one_half)

lemma cents_add: "cents x \<Longrightarrow> cents y \<Longrightarrow> cents (x + y)"
proof -
  assume "cents x" "cents y"
  then obtain k l :: int where "x = of_int k / 100" "y = of_int l / 100"
    by (auto simp: cents_iff)
  then have "x + y = of_int (k + l) / 100" by (simp add: add_divide_distrib)
  then show ?thesis unfolding cents_iff by blast
qed

lemma cents_minus: "cents x \<Longrightarrow> cents (- x)"
  by (simp add: cents_def Round_minus)

lemma cents_diff: "cents x \<Longrightarrow> cents y \<Longrightarrow> cents (x - y)"
  using cents_add [of x "- y"] cents_minus [of y] by simp

lemma cents_of_nat_mult: "cents x \<Longrightarrow> cents (of_nat n * x)"
  by (induction n) (simp_all add: cents_0 cents_add algebra_simps)

lemma cents_sum_list: "list_all cents xs \<Longrightarrow> cents (sum_list xs)"
  by (induction xs) (simp_all add: cents_0 cents_add)

text \<open>
  The division of the decimal library rounds the quotient to 16 places, and the services
  round the result to 2 places. On an amount in cents shared among fewer than \<open>10 ^ 14\<close>
  parties, and on an amount in cents times a percentage in cents, the two roundings give
  what one rounding of the exact quotient to 2 places gives.
\<close>

lemma Round_nonneg_eq:
  assumes "0 \<le> d" and "of_int m \<le> d * 10 ^ places + 1 / 2" and "d * 10 ^ places + 1 / 2 < of_int m + 1"
  shows "Round d places = of_int m / 10 ^ places"
proof -
  have "\<lfloor>d * 10 ^ places + 1 / 2\<rfloor> = m"
    using assms(2,3) by (simp add: floor_eq_iff)
  with assms(1) show ?thesis by (simp add: Round_def)
qed

lemma double_round_nonneg:
  fixes k :: int and n :: nat
  assumes k: "0 \<le> k" and n: "0 < n" "n < 10 ^ 14"
  shows "Round (Round (of_int k / 100 / of_nat n) 16) 2 = Round (of_int k / 100 / of_nat n) 2"
proof -
  define y :: rat where "y = of_int k / 100 / of_nat n"
  define m where "m = \<lfloor>y * 10 ^ 2 + 1 / 2\<rfloor>"
  define r where "r = \<lfloor>y * 10 ^ 16 + 1 / 2\<rfloor>"
  have y0: "0 \<le> y" using k by (simp add: y_def)
  have npos: "(0::rat) < of_nat n" using n(1) by simp
  have R2: "Round y 2 = of_int m / 10 ^ 2" using y0 by (simp add: Round_def m_def)
  have R16: "Round y 16 = of_int r / 10 ^ 16" using y0 by (simp add: Round_def r_def)
  have r0: "0 \<le> r" unfolding r_def using y0 by (simp add: le_floor_iff)
  have m1: "of_int m \<le> y * 100 + 1 / 2" and m2: "y * 100 + 1 / 2 < of_int m + 1"
    using floor_correct [of "y * 10 ^ 2 + 1 / 2"] by (simp_all add: m_def)
  have low: "of_int ((2 * m - 1) * 5 * 10 ^ 13) \<le> y * 10 ^ 16 + 1 / 2"
  proof -
    have "(of_int (2 * m - 1) :: rat) / 200 \<le> y" using m1 by simp
    then have "(of_int (2 * m - 1) :: rat) / 200 * 10 ^ 16 \<le> y * 10 ^ 16"
      by (simp only: mult_le_cancel_right) simp
    then show ?thesis by simp
  qed
  then have rlow: "(2 * m - 1) * 5 * 10 ^ 13 \<le> r"
    unfolding r_def by (simp only: le_floor_iff)
  have yk: "y * (200 * of_nat n) = of_int (2 * k)"
    using npos by (simp add: y_def)
  have "y * 200 < of_int (2 * m + 1)" using m2 by simp
  then have "y * 200 * of_nat n < of_int (2 * m + 1) * of_nat n"
    using npos by (simp only: mult_less_cancel_right) simp
  then have "(of_int (2 * k) :: rat) < of_int ((2 * m + 1) * int n)"
    using yk by (simp add: algebra_simps)
  then have "2 * k < (2 * m + 1) * int n" by (simp only: of_int_less_iff)
  then have "2 * k + 1 \<le> (2 * m + 1) * int n" by simp
  then have "(of_int (2 * k + 1) :: rat) \<le> of_int ((2 * m + 1) * int n)"
    by (simp only: of_int_le_iff)
  then have gap: "y * (200 * of_nat n) + 1 \<le> of_int (2 * m + 1) * of_nat n"
    using yk by simp
  have n14: "(of_nat n :: rat) < 10 ^ 14" using n(2) by (metis of_nat_less_iff of_nat_numeral of_nat_power)
  have up: "y * 10 ^ 16 + 1 / 2 < of_int ((2 * m + 1) * 5 * 10 ^ 13)"
  proof -
    have "y * (200 * of_nat n) * (5 * 10 ^ 13) + 5 * 10 ^ 13 \<le>
          of_int (2 * m + 1) * of_nat n * (5 * 10 ^ 13)"
      using gap by (simp add: algebra_simps)
    moreover have "(of_nat n :: rat) / 2 < 5 * 10 ^ 13" using n14 by simp
    ultimately have "y * (200 * of_nat n) * (5 * 10 ^ 13) + of_nat n / 2 <
          of_int (2 * m + 1) * of_nat n * (5 * 10 ^ 13)"
      by linarith
    then have "(y * 10 ^ 16 + 1 / 2) * of_nat n < of_int ((2 * m + 1) * 5 * 10 ^ 13) * of_nat n"
      by (simp add: algebra_simps)
    then show ?thesis using npos by (simp only: mult_less_cancel_right)
  qed
  then have rup: "r < (2 * m + 1) * 5 * 10 ^ 13"
    unfolding r_def by (simp only: floor_less_iff)
  have a: "of_int m \<le> (of_int r :: rat) / 10 ^ 16 * 10 ^ 2 + 1 / 2"
  proof -
    have "(of_int ((2 * m - 1) * 5 * 10 ^ 13) :: rat) \<le> of_int r"
      using rlow by (simp only: of_int_le_iff)
    then show ?thesis by simp
  qed
  have b: "(of_int r :: rat) / 10 ^ 16 * 10 ^ 2 + 1 / 2 < of_int m + 1"
  proof -
    have "(of_int r :: rat) < of_int ((2 * m + 1) * 5 * 10 ^ 13)"
      using rup by (simp only: of_int_less_iff)
    then show ?thesis by simp
  qed
  have "0 \<le> (of_int r :: rat) / 10 ^ 16" using r0 by simp
  from Round_nonneg_eq [OF this a b] show ?thesis
    unfolding y_def [symmetric] R16 R2 .
qed

lemma equal_share_in_cents:
  assumes "cents amount" and "0 < n" and "n < 10 ^ 14"
  shows "Round (Round (amount / of_nat n) DivisionPrecision) 2 = Round (amount / of_nat n) 2"
proof -
  from assms(1) obtain k :: int where t: "amount = of_int k / 100" by (auto simp: cents_iff)
  show ?thesis
  proof (cases "0 \<le> k")
    case True
    from double_round_nonneg [OF True assms(2,3)] show ?thesis
      by (simp add: t DivisionPrecision_def)
  next
    case False
    then have "0 \<le> - k" by simp
    from double_round_nonneg [OF this assms(2,3)]
    have "Round (Round (- (of_int k / 100 / of_nat n)) 16) 2 = Round (- (of_int k / 100 / of_nat n)) 2"
      by simp
    then show ?thesis
      by (simp add: t DivisionPrecision_def Round_minus)
  qed
qed

lemma percentage_share_in_cents:
  assumes "cents amount" and "cents percentage"
  shows "Round (Round (amount * percentage / 100) DivisionPrecision) 2 =
         Round (amount * percentage / 100) 2"
proof -
  from assms obtain k l :: int where t: "amount = of_int k / 100" "percentage = of_int l / 100"
    by (auto simp: cents_iff)
  have eq: "amount * percentage / 100 = of_int (k * l * 10 ^ 10) / 10 ^ 16"
    by (simp add: t)
  have r: "Round (amount * percentage / 100) 16 = amount * percentage / 100"
    unfolding eq by (rule Round_of_int)
  show ?thesis unfolding DivisionPrecision_def r ..
qed

section \<open>One round of the greedy loop leaves fewer parties\<close>

lemma findMaxIdx_fold_less:
  "m < n \<Longrightarrow> set is \<subseteq> {..<n} \<Longrightarrow>
   fold (\<lambda>i maxIdx. if P i maxIdx then i else maxIdx) is m < n"
  by (induction "is" arbitrary: m) auto

lemma findMaxIdx_less: "work \<noteq> [] \<Longrightarrow> findMaxIdx work < length work"
  unfolding findMaxIdx_def by (rule findMaxIdx_fold_less) auto

lemma length_removeAt: "i < length xs \<Longrightarrow> length (removeAt i xs) = length xs - 1"
  by (simp add: removeAt_def)

lemma settle_at_decreases:
  assumes "i < length cw" "j < length dw" "settle_at cur i j cw dw sg = (cw', dw', sg')"
  shows "length cw' + length dw' < length cw + length dw"
    and "length cw' \<le> length cw" and "length dw' \<le> length dw"
  using assms
  by (auto simp: settle_at_def Let_def length_removeAt split: if_splits)

section \<open>Reading a balance that has no row\<close>

text \<open>
  Claim C9. When the server answers and \<open>user_balances\<close> holds no row for the group, the
  user and the currency, \<open>GetByGroupAndUser\<close> returns no error but a balance of zero that
  carries the group, the user and the currency asked for.
\<close>

theorem C9_absent_balance_reads_zero:
  assumes "online db"
    and "\<not> list_ex (\<lambda>b. b_GroupID b = groupID \<and> b_UserID b = userID \<and> b_Currency b = currency)
             (user_balances db)"
  shows "balanceRepo_GetByGroupAndUser db groupID userID currency =
           Inr \<lparr>b_ID = 0, b_GroupID = groupID, b_UserID = userID, b_Balance = 0,
                b_Currency = currency, b_Group = None, b_User = None\<rparr>"
proof -
  have "find (\<lambda>b. b_GroupID b = groupID \<and> b_UserID b = userID \<and> b_Currency b = currency)
          (user_balances db) = None"
    using assms(2) by (simp add: find_None_iff list_ex_iff)
  then show ?thesis
    using assms(1) by (simp add: balanceRepo_GetByGroupAndUser_def)
qed

theorem C9_absent_balance_reads_zero_witness:
  "online db0 \<and>
   balanceRepo_GetByGroupAndUser db0 10 1 ''USD'' =
     Inr \<lparr>b_ID = 0, b_GroupID = 10, b_UserID = 1, b_Balance = 0,
          b_Currency = ''USD'', b_Group = None, b_User = None\<rparr>"
  using C9_absent_balance_reads_zero [of db0 10 1 "''USD''"]
  by (simp add: db0_def)

section \<open>The counts that SimplifyDebts reports\<close>

lemma partition_loop_eq:
  "partition_loop balances creditors debtors =
     (creditors @ map (\<lambda>b. b\<lparr>b_Balance := \<bar>b_Balance b\<bar>\<rparr>) (filter (\<lambda>b. b_Balance b < 0) balances),
      debtors @ filter (\<lambda>b. b_Balance b > 0) balances)"
  by (induction balances arbitrary: creditors debtors) auto

text \<open>
  Claim C7, as the code has it. For every snapshot of balances, the original transaction
  count is the number of debtors times the number of creditors when that product is not
  zero, and 1 when it is (the code raises a zero product to 1); the simplified count is the
  number of suggestions; the savings are the original count minus the number of
  suggestions, and 0 when that difference is negative.
\<close>

theorem C7_simplify_counts:
  "ds_OriginalTransactions (simplify balances currency) =
     (if debtorCount balances * creditorCount balances = 0 then 1
      else debtorCount balances * creditorCount balances) \<and>
   ds_SimplifiedTransactions (simplify balances currency) =
     int (length (ds_Suggestions (simplify balances currency))) \<and>
   ds_Savings (simplify balances currency) =
     max 0 (ds_OriginalTransactions (simplify balances currency) -
            int (length (ds_Suggestions (simplify balances currency))))"
  by (simp add: simplify_def partition_loop_eq debtorCount_def creditorCount_def Let_def max_def)

text \<open>
  The claim as written fails on a group without balances: no debtor and no creditor, a
  product of 0, and yet an original count of 1 and savings of 1.
\<close>

theorem C7_zero_product_counterexample:
  "SimplifyDebts lib0 db0 ''trip'' =
     Inr \<lparr>ds_OriginalTransactions = 1, ds_SimplifiedTransactions = 0, ds_Savings = 1,
          ds_Suggestions = []\<rparr> \<and>
   debtorCount [] * creditorCount [] = 0"
  by (simp add: SimplifyDebts_def lib0_def db0_def groupRepo_GetByUUID_def
      balanceRepo_GetGroupBalances_def simplify_def generateSettlementSuggestions_def
      settlement_loop.simps debtorCount_def creditorCount_def)

section \<open>Participants of a split\<close>

lemma valid_memberD:
  assumes "valid_member lib db groupID uuid"
  obtains user where "IsValidUUID lib uuid" "userRepo_GetByUUID db uuid = Inr user"
    "groupRepo_IsMember db groupID (u_ID user) = Inr True" "participant db uuid = Some user"
  using assms by (auto simp: valid_member_def participant_def split: sum.splits)

lemma calculateEqualSplits_loop_step:
  assumes "valid_member lib db groupID (sq_UserUUID splitReq)"
  shows "calculateEqualSplits_loop lib db req groupID amountPerUser i (splitReq # rest) splits totalAssigned =
           calculateEqualSplits_loop lib db req groupID amountPerUser (i + 1) rest
             (splits @ [equalSplit db (if i = int (length (rq_Splits req)) - 1
                                       then rq_Amount req - totalAssigned else amountPerUser) splitReq])
             (totalAssigned + (if i = int (length (rq_Splits req)) - 1
                               then rq_Amount req - totalAssigned else amountPerUser))"
proof -
  from assms obtain user where u: "IsValidUUID lib (sq_UserUUID splitReq)"
    "userRepo_GetByUUID db (sq_UserUUID splitReq) = Inr user"
    "groupRepo_IsMember db groupID (u_ID user) = Inr True"
    "participant db (sq_UserUUID splitReq) = Some user"
    by (rule valid_memberD)
  show ?thesis
    using u by (simp add: equalSplit_def Let_def)
qed

lemma calculateEqualSplits_loop_members:
  assumes "list_all (\<lambda>s. valid_member lib db groupID (sq_UserUUID s)) rest"
    and "i + int (length rest) = int (length (rq_Splits req))"
    and "rest \<noteq> []"
  shows "calculateEqualSplits_loop lib db req groupID amountPerUser i rest splits totalAssigned =
           Inr (splits @ map (equalSplit db amountPerUser) (butlast rest) @
                [equalSplit db (rq_Amount req - (totalAssigned + of_nat (length rest - 1) * amountPerUser))
                   (last rest)])"
  using assms
proof (induction rest arbitrary: i splits totalAssigned)
  case Nil
  then show ?case by simp
next
  case (Cons splitReq rest)
  from Cons.prems(1) have vm: "valid_member lib db groupID (sq_UserUUID splitReq)"
    and rest_ok: "list_all (\<lambda>s. valid_member lib db groupID (sq_UserUUID s)) rest"
    by simp_all
  note step = calculateEqualSplits_loop_step [OF vm]
  show ?case
  proof (cases "rest = []")
    case True
    with Cons.prems(2) have "i = int (length (rq_Splits req)) - 1" by simp
    with True show ?thesis by (simp only: step) simp
  next
    case False
    with Cons.prems(2) have ne: "i \<noteq> int (length (rq_Splits req)) - 1"
      and nxt: "(i + 1) + int (length rest) = int (length (rq_Splits req))"
      by auto
    have len: "(of_nat (length (splitReq # rest) - 1) :: rat) = 1 + of_nat (length rest - 1)"
      using False by (cases rest) simp_all
    have tot: "totalAssigned + amountPerUser + of_nat (length rest - 1) * amountPerUser =
               totalAssigned + of_nat (length (splitReq # rest) - 1) * amountPerUser"
      unfolding len by (simp add: algebra_simps)
    have "calculateEqualSplits_loop lib db req groupID amountPerUser i (splitReq # rest) splits totalAssigned =
          calculateEqualSplits_loop lib db req groupID amountPerUser (i + 1) rest
             (splits @ [equalSplit db amountPerUser splitReq]) (totalAssigned + amountPerUser)"
      using ne by (simp only: step if_False)
    also have "\<dots> = Inr ((splits @ [equalSplit db amountPerUser splitReq]) @
                map (equalSplit db amountPerUser) (butlast rest) @
                [equalSplit db (rq_Amount req - (totalAssigned + amountPerUser +
                    of_nat (length rest - 1) * amountPerUser)) (last rest)])"
      by (rule Cons.IH [OF rest_ok nxt False])
    finally show ?thesis
      using False by (simp only: tot) simp
  qed
qed

lemma calculateExactSplits_loop_step:
  assumes "valid_member lib db groupID (sq_UserUUID splitReq)" and "sq_Amount splitReq > 0"
  shows "calculateExactSplits_loop lib db groupID (splitReq # rest) splits totalSplitAmount =
           calculateExactSplits_loop lib db groupID rest (splits @ [exactSplit db splitReq])
             (totalSplitAmount + sq_Amount splitReq)"
proof -
  from assms(1) obtain user where u: "IsValidUUID lib (sq_UserUUID splitReq)"
    "userRepo_GetByUUID db (sq_UserUUID splitReq) = Inr user"
    "groupRepo_IsMember db groupID (u_ID user) = Inr True"
    "participant db (sq_UserUUID splitReq) = Some user"
    by (rule valid_memberD)
  show ?thesis
    using u assms(2) by (simp add: exactSplit_def)
qed

lemma calculateExactSplits_loop_members:
  assumes "list_all (\<lambda>s. valid_member lib db groupID (sq_UserUUID s) \<and> sq_Amount s > 0) rest"
  shows "calculateExactSplits_loop lib db groupID rest splits totalSplitAmount =
           Inr (splits @ map (exactSplit db) rest, totalSplitAmount + sum_list (map sq_Amount rest))"
  using assms
proof (induction rest arbitrary: splits totalSplitAmount)
  case Nil
  then show ?case by simp
next
  case (Cons splitReq rest)
  then have "calculateExactSplits_loop lib db groupID (splitReq # rest) splits totalSplitAmount =
     calculateExactSplits_loop lib db groupID rest (splits @ [exactSplit db splitReq])
             (totalSplitAmount + sq_Amount splitReq)"
    by (intro calculateExactSplits_loop_step) simp_all
  also have "\<dots> = Inr ((splits @ [exactSplit db splitReq]) @ map (exactSplit db) rest,
       (totalSplitAmount + sq_Amount splitReq) + sum_list (map sq_Amount rest))"
    using Cons.prems by (intro Cons.IH) simp
  finally show ?case by (simp add: add.assoc)
qed

lemma calculateExactSplits_loop_nonpositive:
  assumes "IsValidUUID lib (sq_UserUUID splitReq)" and "sq_Amount splitReq \<le> 0"
  shows "calculateExactSplits_loop lib db groupID (splitReq # rest) splits totalSplitAmount =
           Inl (AppErr (NewValidationError ''Split amounts must be greater than zero''))"
  using assms by simp

lemma calculateExactSplits_loop_prefix:
  assumes "list_all (\<lambda>s. valid_member lib db groupID (sq_UserUUID s) \<and> sq_Amount s > 0) pre"
  shows "calculateExactSplits_loop lib db groupID (pre @ rest) splits totalSplitAmount =
           calculateExactSplits_loop lib db groupID rest (splits @ map (exactSplit db) pre)
             (totalSplitAmount + sum_list (map sq_Amount pre))"
  using assms
proof (induction pre arbitrary: splits totalSplitAmount)
  case Nil
  then show ?case by simp
next
  case (Cons splitReq pre)
  then have "calculateExactSplits_loop lib db groupID ((splitReq # pre) @ rest) splits totalSplitAmount =
     calculateExactSplits_loop lib db groupID (pre @ rest) (splits @ [exactSplit db splitReq])
             (totalSplitAmount + sq_Amount splitReq)"
    unfolding append_Cons by (intro calculateExactSplits_loop_step) simp_all
  also have "\<dots> = calculateExactSplits_loop lib db groupID rest
       ((splits @ [exactSplit db splitReq]) @ map (exactSplit db) pre)
       ((totalSplitAmount + sq_Amount splitReq) + sum_list (map sq_Amount pre))"
    using Cons.prems by (intro Cons.IH) simp
  finally show ?case by (simp add: add.assoc)
qed

text \<open>The errors of the three loops, by code.\<close>

lemma repo_error_codes:
  "userRepo_GetByUUID db uuid = Inl err \<Longrightarrow>
     err = AppErr NewDatabaseError \<or> err = AppErr (NewNotFoundError ''User'')"
  "groupRepo_IsMember db groupID userID = Inl err \<Longrightarrow> err = AppErr NewDatabaseError"
  by (auto simp: userRepo_GetByUUID_def groupRepo_IsMember_def split: if_splits option.splits)

lemma calculateExactSplits_loop_nonpositive_rejected:
  assumes "list_ex (\<lambda>s. sq_Amount s \<le> 0) rest"
  shows "\<exists>e. calculateExactSplits_loop lib db groupID rest splits totalSplitAmount = Inl (AppErr e) \<and>
             Code e \<in> {ErrCodeInvalid, ErrCodeValidation, ErrCodeNotFound, ErrCodeDatabase}"
  using assms
proof (induction rest arbitrary: splits totalSplitAmount)
  case Nil
  then show ?case by simp
next
  case (Cons splitReq rest)
  show ?case
  proof (cases "sq_Amount splitReq \<le> 0")
    case True
    then show ?thesis
      by (simp add: NewInvalidValueError_def NewValidationError_def)
  next
    case False
    with Cons.prems have ex: "list_ex (\<lambda>s. sq_Amount s \<le> 0) rest" by simp
    show ?thesis
    proof (cases "IsValidUUID lib (sq_UserUUID splitReq)")
      case False
      then show ?thesis by (simp add: NewInvalidValueError_def)
    next
      case valid: True
      show ?thesis
      proof (cases "userRepo_GetByUUID db (sq_UserUUID splitReq)")
        case (Inl err)
        with valid \<open>\<not> sq_Amount splitReq \<le> 0\<close> repo_error_codes(1) [OF Inl] show ?thesis
          by (auto simp: NewDatabaseError_def NewNotFoundError_def)
      next
        case (Inr user)
        show ?thesis
        proof (cases "groupRepo_IsMember db groupID (u_ID user)")
          case (Inl err)
          with valid Inr \<open>\<not> sq_Amount splitReq \<le> 0\<close> repo_error_codes(2) [OF Inl] show ?thesis
            by (auto simp: NewDatabaseError_def)
        next
          case isMember: (Inr isMember)
          show ?thesis
          proof (cases isMember)
            case True
            with valid Inr isMember \<open>\<not> sq_Amount splitReq \<le> 0\<close> Cons.IH [OF ex] show ?thesis
              by simp
          next
            case False
            with valid Inr isMember \<open>\<not> sq_Amount splitReq \<le> 0\<close> show ?thesis
              by (simp add: NewValidationError_def)
          qed
        qed
      qed
    qed
  qed
qed

lemma ValidatePercentage_None: "ValidatePercentage p = None \<longleftrightarrow> 0 \<le> p \<and> p \<le> 100"
  by (auto simp: ValidatePercentage_def)

lemma Div_100: "Div x 100 = Some (Round (x / 100) DivisionPrecision)"
  by (simp add: Div_def)

lemma calculatePercentageSplits_loop_step:
  assumes "valid_member lib db groupID (sq_UserUUID splitReq)"
    and "0 \<le> sq_Percentage splitReq" and "sq_Percentage splitReq \<le> 100"
  shows "calculatePercentageSplits_loop lib db req groupID (splitReq # rest) splits totalPercentage =
           calculatePercentageSplits_loop lib db req groupID rest
             (splits @ [percentageSplit db (rq_Amount req) splitReq])
             (totalPercentage + sq_Percentage splitReq)"
proof -
  from assms(1) obtain user where u: "IsValidUUID lib (sq_UserUUID splitReq)"
    "userRepo_GetByUUID db (sq_UserUUID splitReq) = Inr user"
    "groupRepo_IsMember db groupID (u_ID user) = Inr True"
    "participant db (sq_UserUUID splitReq) = Some user"
    by (rule valid_memberD)
  have "ValidatePercentage (sq_Percentage splitReq) = None"
    using assms(2,3) by (simp add: ValidatePercentage_None)
  then show ?thesis
    using u by (simp add: percentageSplit_def Div_100)
qed

lemma calculatePercentageSplits_loop_members:
  assumes "list_all (\<lambda>s. valid_member lib db groupID (sq_UserUUID s) \<and>
                          0 \<le> sq_Percentage s \<and> sq_Percentage s \<le> 100) rest"
  shows "calculatePercentageSplits_loop lib db req groupID rest splits totalPercentage =
           Inr (splits @ map (percentageSplit db (rq_Amount req)) rest,
                totalPercentage + sum_list (map sq_Percentage rest))"
  using assms
proof (induction rest arbitrary: splits totalPercentage)
  case Nil
  then show ?case by simp
next
  case (Cons splitReq rest)
  then have "calculatePercentageSplits_loop lib db req groupID (splitReq # rest) splits totalPercentage =
     calculatePercentageSplits_loop lib db req groupID rest
       (splits @ [percentageSplit db (rq_Amount req) splitReq])
       (totalPercentage + sq_Percentage splitReq)"
    by (intro calculatePercentageSplits_loop_step) simp_all
  also have "\<dots> = Inr ((splits @ [percentageSplit db (rq_Amount req) splitReq]) @
       map (percentageSplit db (rq_Amount req)) rest,
       (totalPercentage + sq_Percentage splitReq) + sum_list (map sq_Percentage rest))"
    using Cons.prems by (intro Cons.IH) simp
  finally show ?case by (simp add: add.assoc)
qed

lemma calculatePercentageSplits_loop_Inr:
  assumes "calculatePercentageSplits_loop lib db req groupID rest splits totalPercentage = Inr out"
  shows "list_all (\<lambda>s. valid_member lib db groupID (sq_UserUUID s) \<and>
                        0 \<le> sq_Percentage s \<and> sq_Percentage s \<le> 100) rest"
  using assms
proof (induction rest arbitrary: splits totalPercentage)
  case Nil
  then show ?case by simp
next
  case (Cons splitReq rest)
  from Cons.prems have valid: "IsValidUUID lib (sq_UserUUID splitReq)"
    by (auto split: if_splits)
  from Cons.prems valid have pct: "ValidatePercentage (sq_Percentage splitReq) = None"
    by (auto split: option.splits)
  from Cons.prems valid pct obtain user where
    user: "userRepo_GetByUUID db (sq_UserUUID splitReq) = Inr user"
    by (cases "userRepo_GetByUUID db (sq_UserUUID splitReq)") auto
  from Cons.prems valid pct user obtain isMember where
    mem: "groupRepo_IsMember db groupID (u_ID user) = Inr isMember"
    by (cases "groupRepo_IsMember db groupID (u_ID user)") auto
  from Cons.prems valid pct user mem have isMember by (auto split: if_splits)
  with Cons.prems valid pct user mem have
    "calculatePercentageSplits_loop lib db req groupID rest
       (splits @ [\<lparr>es_ID = 0, es_ExpenseID = 0, es_UserID = u_ID user,
          es_Amount = Round (Round (rq_Amount req * sq_Percentage splitReq / 100) DivisionPrecision) 2,
          es_Percentage = sq_Percentage splitReq, es_User = Some user\<rparr>])
       (totalPercentage + sq_Percentage splitReq) = Inr out"
    by (simp add: Div_100)
  then have "list_all (\<lambda>s. valid_member lib db groupID (sq_UserUUID s) \<and>
                        0 \<le> sq_Percentage s \<and> sq_Percentage s \<le> 100) rest"
    by (rule Cons.IH)
  moreover have "valid_member lib db groupID (sq_UserUUID splitReq)"
    using valid user mem \<open>isMember\<close> by (simp add: valid_member_def)
  ultimately show ?case
    using pct by (simp add: ValidatePercentage_None)
qed

lemma calculateExactSplits_loop_Inr:
  assumes "calculateExactSplits_loop lib db groupID rest splits totalSplitAmount = Inr out"
  shows "list_all (\<lambda>s. valid_member lib db groupID (sq_UserUUID s) \<and> sq_Amount s > 0) rest"
  using assms
proof (induction rest arbitrary: splits totalSplitAmount)
  case Nil
  then show ?case by simp
next
  case (Cons splitReq rest)
  from Cons.prems have valid: "IsValidUUID lib (sq_UserUUID splitReq)"
    by (auto split: if_splits)
  from Cons.prems valid have pos: "sq_Amount splitReq > 0"
    by (auto split: if_splits)
  from Cons.prems valid pos obtain user where
    user: "userRepo_GetByUUID db (sq_UserUUID splitReq) = Inr user"
    by (cases "userRepo_GetByUUID db (sq_UserUUID splitReq)") auto
  from Cons.prems valid pos user obtain isMember where
    mem: "groupRepo_IsMember db groupID (u_ID user) = Inr isMember"
    by (cases "groupRepo_IsMember db groupID (u_ID user)") auto
  from Cons.prems valid pos user mem have isMember by (auto split: if_splits)
  with Cons.prems valid pos user mem have
    "calculateExactSplits_loop lib db groupID rest
       (splits @ [\<lparr>es_ID = 0, es_ExpenseID = 0, es_UserID = u_ID user,
          es_Amount = sq_Amount splitReq, es_Percentage = 0, es_User = Some user\<rparr>])
       (totalSplitAmount + sq_Amount splitReq) = Inr out"
    by simp
  then have "list_all (\<lambda>s. valid_member lib db groupID (sq_UserUUID s) \<and> sq_Amount s > 0) rest"
    by (rule Cons.IH)
  moreover have "valid_member lib db groupID (sq_UserUUID splitReq)"
    using valid user mem \<open>isMember\<close> by (simp add: valid_member_def)
  ultimately show ?case
    using pos by simp
qed

section \<open>What CreateExpense does once the request is checked\<close>

lemma CreateExpense_checked:
  assumes "expense_request_checked lib db req grp payer"
  shows "CreateExpense lib db newUUID req =
           (case validateAndCalculateSplits lib db req (g_ID grp) of
              Inl err \<Rightarrow> (db, Inl err)
            | Inr splits \<Rightarrow> storeExpense db (newExpense newUUID grp payer req) splits)"
  using assms
  by (simp add: CreateExpense_def expense_request_checked_def storeExpense_def newExpense_def
      Let_def cong: sum.case_cong)

lemma UpdateBalance_error:
  "balanceRepo_UpdateBalance db g u a c = Inl err \<Longrightarrow> err = AppErr NewDatabaseError"
  by (auto simp: balanceRepo_UpdateBalance_def Let_def split: if_splits)

lemma updateBalancesAfterExpense_loop_error:
  "updateBalancesAfterExpense_loop db expense splits = Inl err \<Longrightarrow> err = AppErr NewDatabaseError"
  by (induction splits arbitrary: db) (auto split: sum.splits dest: UpdateBalance_error)

lemma updateBalancesAfterExpense_error:
  "updateBalancesAfterExpense db expense splits = Inl err \<Longrightarrow> err = AppErr NewDatabaseError"
  by (auto simp: updateBalancesAfterExpense_def split: sum.splits
      dest: UpdateBalance_error updateBalancesAfterExpense_loop_error)

lemma CreateSplit_error:
  "expenseRepo_CreateSplit db split = Inl err \<Longrightarrow> err = AppErr NewDatabaseError"
  by (auto simp: expenseRepo_CreateSplit_def Let_def split: if_splits)

lemma createSplits_loop_error:
  "createSplits_loop db expense splits acc = Inl err \<Longrightarrow> err = AppErr NewDatabaseError"
  by (induction splits arbitrary: db acc) (auto split: sum.splits dest: CreateSplit_error)

lemma expenseRepo_Create_error:
  "expenseRepo_Create db expense = Inl err \<Longrightarrow> err = AppErr NewDatabaseError"
  by (auto simp: expenseRepo_Create_def Let_def split: if_splits)

lemma createExpense_tx_error:
  "createExpense_tx expense splits tx = Inl err \<Longrightarrow> err = AppErr NewDatabaseError"
  by (auto simp: createExpense_tx_def split: sum.splits prod.splits
      dest: expenseRepo_Create_error createSplits_loop_error updateBalancesAfterExpense_error)

lemma GetExpenseSplits_error:
  "expenseRepo_GetExpenseSplits db expenseID = Inl err \<Longrightarrow> err = AppErr NewDatabaseError"
  by (auto simp: expenseRepo_GetExpenseSplits_def Let_def split: if_splits)

lemma storeExpense_error:
  assumes "snd (storeExpense db expense splits) = Inl err"
  shows "err = AppErr NewDatabaseError \<or> err = DriverErr ''begin''"
  using assms
  by (auto simp: storeExpense_def WithTransaction_def split: if_splits sum.splits prod.splits
      dest: createExpense_tx_error GetExpenseSplits_error)

lemma storeExpense_not_split_error:
  "snd (storeExpense db expense splits) \<noteq> Inl (AppErr e) \<or> Code e = ErrCodeDatabase"
  using storeExpense_error [of db expense splits "AppErr e"]
  by (auto simp: NewDatabaseError_def)

section \<open>The examples pass the checks\<close>

lemma db0_participants:
  "userRepo_GetByUUID db0 ''alice'' =
     Inr \<lparr>u_ID = 1, u_UUID = ''alice'', u_Name = ''Alice'', u_Email = ''a@x.io''\<rparr>"
  "userRepo_GetByUUID db0 ''bob'' =
     Inr \<lparr>u_ID = 2, u_UUID = ''bob'', u_Name = ''Bob'', u_Email = ''b@x.io''\<rparr>"
  "userRepo_GetByUUID db0 ''carol'' =
     Inr \<lparr>u_ID = 3, u_UUID = ''carol'', u_Name = ''Carol'', u_Email = ''c@x.io''\<rparr>"
  "userRepo_GetByUUID db0 ''dave'' = Inl (AppErr (NewNotFoundError ''User''))"
  "groupRepo_IsMember db0 10 1 = Inr True"
  "groupRepo_IsMember db0 10 2 = Inr True"
  "groupRepo_IsMember db0 10 3 = Inr True"
  by (simp_all add: userRepo_GetByUUID_def groupRepo_IsMember_def db0_def)

lemma db0_members:
  "valid_member lib0 db0 10 ''alice''" "valid_member lib0 db0 10 ''bob''"
  "valid_member lib0 db0 10 ''carol''"
  by (simp_all add: valid_member_def db0_participants lib0_def)

lemma db0_group:
  "groupRepo_GetByUUID db0 ''trip'' =
     Inr \<lparr>g_ID = 10, g_UUID = ''trip'', g_Name = ''Trip'', g_Description = [], g_CreatedBy = 1,
          g_Creator = Some \<lparr>u_ID = 1, u_UUID = ''alice'', u_Name = ''Alice'', u_Email = ''a@x.io''\<rparr>\<rparr>"
  by (simp add: groupRepo_GetByUUID_def db0_def)

lemma ValidateAmount_examples:
  "ValidateAmount 100 = None" "ValidateAmount (1001 / 100) = None" "ValidateAmount 200 = None"
  "ValidateAmount 20 = None" "ValidateAmount 50 = None"
  by (simp_all add: ValidateAmount_def)

lemma ValidateDescription_Dinner: "ValidateDescription ''Dinner'' = None"
  by code_simp

lemma ValidateCurrency_USD: "ValidateCurrency lib ''USD'' = None"
  by (simp add: ValidateCurrency_def ToUpper_def toUpperChar_def SupportedCurrencies_def)

lemma Round_examples:
  "Round (Round (100 / 3) DivisionPrecision) 2 = 3333 / 100"
  "Round (Round (1001 / 100 * 50 / 100) DivisionPrecision) 2 = 501 / 100"
  "Round (Round (200 * 60 / 100) DivisionPrecision) 2 = 120"
  "Round (Round (200 * 40 / 100) DivisionPrecision) 2 = 80"
  by code_simp+

section \<open>Equal splits\<close>

lemma sum_list_replicate_rat: "sum_list (replicate n (x::rat)) = of_nat n * x"
  by (induction n) (simp_all add: algebra_simps)

text \<open>
  Claim C2. For an equal split among \<open>N \<ge> 1\<close> participants who are all valid group
  members, the calculation succeeds; each of the first \<open>N - 1\<close> participants owes the
  total divided by \<open>N\<close> by the decimal library, which rounds the quotient to 16 places,
  rounded to 2 places; the last one owes the total minus what the others were assigned,
  and the \<open>N\<close> amounts sum to the total exactly. \<open>CreateExpense\<close>, on a request that passes
  its earlier checks, stores the expense with exactly these splits. When the total is in
  cents and \<open>N < 10 ^ 14\<close>, the share of the first \<open>N - 1\<close> is the exact quotient rounded
  to 2 places.
\<close>

theorem C2_equal_split:
  assumes "rq_Splits req \<noteq> []"
    and "list_all (\<lambda>s. valid_member lib db groupID (sq_UserUUID s)) (rq_Splits req)"
  shows "\<exists>splits.
     calculateEqualSplits lib db req groupID = Inr splits \<and>
     map es_Amount splits =
       replicate (length (rq_Splits req) - 1)
         (Round (Round (rq_Amount req / of_nat (length (rq_Splits req))) DivisionPrecision) 2) @
       [rq_Amount req - sum_list (replicate (length (rq_Splits req) - 1)
         (Round (Round (rq_Amount req / of_nat (length (rq_Splits req))) DivisionPrecision) 2))] \<and>
     sum_list (map es_Amount splits) = rq_Amount req \<and>
     map es_UserID splits = map (\<lambda>s. u_ID (the (participant db (sq_UserUUID s)))) (rq_Splits req) \<and>
     (\<forall>grp payer newUUID.
        rq_SplitType req = SplitTypeEqual \<and> expense_request_checked lib db req grp payer \<and>
        g_ID grp = groupID \<longrightarrow>
        CreateExpense lib db newUUID req =
          storeExpense db (newExpense newUUID grp payer req) splits) \<and>
     (cents (rq_Amount req) \<and> length (rq_Splits req) < 10 ^ 14 \<longrightarrow>
        map es_Amount splits =
          replicate (length (rq_Splits req) - 1)
            (Round (rq_Amount req / of_nat (length (rq_Splits req))) 2) @
          [rq_Amount req - sum_list (replicate (length (rq_Splits req) - 1)
            (Round (rq_Amount req / of_nat (length (rq_Splits req))) 2))])"
proof -
  define n where "n = length (rq_Splits req)"
  define share where "share = Round (Round (rq_Amount req / of_nat n) DivisionPrecision) 2"
  define splits where "splits = map (equalSplit db share) (butlast (rq_Splits req)) @
    [equalSplit db (rq_Amount req - of_nat (n - 1) * share) (last (rq_Splits req))]"
  have n: "n \<noteq> 0" using assms(1) by (simp add: n_def)
  have div: "Div (rq_Amount req) (of_nat n) = Some (Round (rq_Amount req / of_nat n) DivisionPrecision)"
    using n by (simp add: Div_def)
  have "calculateEqualSplits_loop lib db req groupID share 0 (rq_Splits req) [] 0 =
          Inr ([] @ map (equalSplit db share) (butlast (rq_Splits req)) @
               [equalSplit db (rq_Amount req - (0 + of_nat (length (rq_Splits req) - 1) * share))
                  (last (rq_Splits req))])"
    by (rule calculateEqualSplits_loop_members [OF assms(2) _ assms(1)]) simp
  then have calc: "calculateEqualSplits lib db req groupID = Inr splits"
    using div by (simp add: calculateEqualSplits_def n_def [symmetric] share_def splits_def Let_def)
  have amounts: "map es_Amount splits = replicate (n - 1) share @ [rq_Amount req - of_nat (n - 1) * share]"
    by (simp add: splits_def equalSplit_def comp_def map_replicate_const n_def)
  have ids: "map es_UserID splits =
      map (\<lambda>s. u_ID (the (participant db (sq_UserUUID s)))) (rq_Splits req)"
  proof -
    have "map es_UserID splits =
        map (\<lambda>s. u_ID (the (participant db (sq_UserUUID s)))) (butlast (rq_Splits req) @ [last (rq_Splits req)])"
      by (simp add: splits_def equalSplit_def comp_def)
    then show ?thesis using assms(1) by simp
  qed
  have total: "sum_list (map es_Amount splits) = rq_Amount req"
    by (simp add: amounts sum_list_replicate_rat)
  have stored: "CreateExpense lib db newUUID req = storeExpense db (newExpense newUUID grp payer req) splits"
    if "rq_SplitType req = SplitTypeEqual" "expense_request_checked lib db req grp payer"
       "g_ID grp = groupID" for grp payer newUUID
    using that assms(1) calc
    by (simp add: CreateExpense_checked validateAndCalculateSplits_def)
  have create: "\<forall>grp payer newUUID.
        rq_SplitType req = SplitTypeEqual \<and> expense_request_checked lib db req grp payer \<and>
        g_ID grp = groupID \<longrightarrow>
        CreateExpense lib db newUUID req =
          storeExpense db (newExpense newUUID grp payer req) splits"
    using stored by blast
  have amounts': "map es_Amount splits =
       replicate (length (rq_Splits req) - 1)
         (Round (Round (rq_Amount req / of_nat (length (rq_Splits req))) DivisionPrecision) 2) @
       [rq_Amount req - sum_list (replicate (length (rq_Splits req) - 1)
         (Round (Round (rq_Amount req / of_nat (length (rq_Splits req))) DivisionPrecision) 2))]"
    using amounts by (simp add: sum_list_replicate_rat n_def share_def)
  have agree: "cents (rq_Amount req) \<and> length (rq_Splits req) < 10 ^ 14 \<longrightarrow>
        map es_Amount splits =
          replicate (length (rq_Splits req) - 1)
            (Round (rq_Amount req / of_nat (length (rq_Splits req))) 2) @
          [rq_Amount req - sum_list (replicate (length (rq_Splits req) - 1)
            (Round (rq_Amount req / of_nat (length (rq_Splits req))) 2))]"
  proof
    assume h: "cents (rq_Amount req) \<and> length (rq_Splits req) < 10 ^ 14"
    have "0 < length (rq_Splits req)" using assms(1) by simp
    from equal_share_in_cents [OF conjunct1 [OF h] this conjunct2 [OF h]] amounts'
    show "map es_Amount splits =
          replicate (length (rq_Splits req) - 1)
            (Round (rq_Amount req / of_nat (length (rq_Splits req))) 2) @
          [rq_Amount req - sum_list (replicate (length (rq_Splits req) - 1)
            (Round (rq_Amount req / of_nat (length (rq_Splits req))) 2))]"
      by simp
  qed
  show ?thesis
    by (rule exI [of _ splits]) (intro conjI calc amounts' total ids create agree)
qed

theorem C2_equal_split_witness:
  "rq_Splits (requestOf 100 ''equal'' [splitOf ''alice'' 0 0, splitOf ''bob'' 0 0, splitOf ''carol'' 0 0]) \<noteq> [] \<and>
   list_all (\<lambda>s. valid_member lib0 db0 10 (sq_UserUUID s))
     (rq_Splits (requestOf 100 ''equal'' [splitOf ''alice'' 0 0, splitOf ''bob'' 0 0, splitOf ''carol'' 0 0])) \<and>
   (\<exists>splits.
      calculateEqualSplits lib0 db0
        (requestOf 100 ''equal'' [splitOf ''alice'' 0 0, splitOf ''bob'' 0 0, splitOf ''carol'' 0 0]) 10 =
        Inr splits \<and>
      map es_Amount splits = [3333 / 100, 3333 / 100, 3334 / 100] \<and>
      sum_list (map es_Amount splits) = 100 \<and>
      map es_UserID splits = [1, 2, 3])"
proof -
  let ?req = "requestOf 100 ''equal'' [splitOf ''alice'' 0 0, splitOf ''bob'' 0 0, splitOf ''carol'' 0 0]"
  have h1: "rq_Splits ?req \<noteq> []" by (simp add: requestOf_def)
  have h2: "list_all (\<lambda>s. valid_member lib0 db0 10 (sq_UserUUID s)) (rq_Splits ?req)"
    by (simp add: requestOf_def splitOf_def db0_members)
  have three: "length (rq_Splits ?req) - 1 = Suc (Suc 0)" "(of_nat (length (rq_Splits ?req)) :: rat) = 3"
    "rq_Amount ?req = 100"
    by (simp_all add: requestOf_def)
  from C2_equal_split [OF h1 h2] obtain splits where
    s: "calculateEqualSplits lib0 db0 ?req 10 = Inr splits"
      "map es_Amount splits =
       replicate (length (rq_Splits ?req) - 1)
         (Round (Round (rq_Amount ?req / of_nat (length (rq_Splits ?req))) DivisionPrecision) 2) @
       [rq_Amount ?req - sum_list (replicate (length (rq_Splits ?req) - 1)
         (Round (Round (rq_Amount ?req / of_nat (length (rq_Splits ?req))) DivisionPrecision) 2))]"
      "sum_list (map es_Amount splits) = rq_Amount ?req"
      "map es_UserID splits = map (\<lambda>s. u_ID (the (participant db0 (sq_UserUUID s)))) (rq_Splits ?req)"
    by blast
  have a: "map es_Amount splits = [3333 / 100, 3333 / 100, 3334 / 100]"
    unfolding s(2) three Round_examples by simp
  have i: "map es_UserID splits = [1, 2, 3]"
    unfolding s(4) by (simp add: requestOf_def splitOf_def participant_def db0_participants)
  show ?thesis
    using h1 h2 s(1) a i s(3) three(3) by auto
qed

lemma sliver_calculated:
  "map_sum id (map es_Amount) (calculateEqualSplits lib0 db0 sliver 10) =
     Inr [1 / 100, 9999999999999999 / 10 ^ 18 - 1 / 100]"
  by code_simp

lemma sliver_checks:
  "0 < rq_Amount sliver" "ValidateAmount (rq_Amount sliver) = None"
  "Round (rq_Amount sliver / of_nat (length (rq_Splits sliver))) 2 = 0"
  by code_simp+

lemma sliver_result:
  "map_sum id (\<lambda>e. map es_Amount (e_Splits e)) (snd (CreateExpense lib0 db0 ''e1'' sliver)) =
   Inr [1 / 100, 0]"
  by code_simp

text \<open>
  Claim C2 with the exact quotient in place of the decimal division. The total
  0.009999999999999999, positive and accepted by \<open>ValidateAmount\<close>, is split equally
  between Alice and Bob, both valid members. The quotient 0.0049999999999999995 rounds to
  0.00 at 2 places; the decimal division first rounds it to 0.005 at 16 places, and the
  share of Alice is 0.01. \<open>CreateExpense\<close> accepts the request and stores that share.
\<close>

theorem C2_double_rounding_counterexample:
  "0 < rq_Amount sliver \<and> ValidateAmount (rq_Amount sliver) = None \<and>
   valid_member lib0 db0 10 ''alice'' \<and> valid_member lib0 db0 10 ''bob'' \<and>
   (\<exists>splits. calculateEqualSplits lib0 db0 sliver 10 = Inr splits \<and>
      map es_Amount splits = [1 / 100, rq_Amount sliver - 1 / 100]) \<and>
   Round (rq_Amount sliver / of_nat (length (rq_Splits sliver))) 2 = 0 \<and>
   (\<exists>expense. snd (CreateExpense lib0 db0 ''e1'' sliver) = Inr expense \<and>
      map es_Amount (e_Splits expense) = [1 / 100, 0])"
proof -
  have 1: "\<exists>splits. calculateEqualSplits lib0 db0 sliver 10 = Inr splits \<and>
      map es_Amount splits = [1 / 100, rq_Amount sliver - 1 / 100]"
    using sliver_calculated
    by (cases "calculateEqualSplits lib0 db0 sliver 10") (auto simp: sliver_def requestOf_def)
  have 2: "\<exists>expense. snd (CreateExpense lib0 db0 ''e1'' sliver) = Inr expense \<and>
      map es_Amount (e_Splits expense) = [1 / 100, 0]"
    using sliver_result by (cases "snd (CreateExpense lib0 db0 ''e1'' sliver)") auto
  show ?thesis
    by (intro conjI sliver_checks db0_members 1 2)
qed

section \<open>Exact splits\<close>

lemma calculateExactSplits_members:
  assumes "list_all (\<lambda>s. valid_member lib db groupID (sq_UserUUID s) \<and> sq_Amount s > 0) (rq_Splits req)"
  shows "calculateExactSplits lib db req groupID =
           (if sum_list (map sq_Amount (rq_Splits req)) = rq_Amount req
            then Inr (map (exactSplit db) (rq_Splits req))
            else Inl (AppErr (NewInvalidSplitError
                   ''Sum of split amounts must equal total expense amount'')))"
  by (simp add: calculateExactSplits_def calculateExactSplits_loop_members [OF assms])

lemma Code_NewInvalidSplitError: "Code (NewInvalidSplitError m) = ErrCodeInvalidSplit"
  by (simp add: NewInvalidSplitError_def)

lemma ErrCodeDatabase_neq: "ErrCodeDatabase \<noteq> ErrCodeInvalidSplit" "ErrCodeDatabase \<noteq> ErrCodeValidation"
  "ErrCodeDatabase \<noteq> ErrCodeInsufficientFund"
  by (simp_all add: ErrCodeDatabase_def ErrCodeInvalidSplit_def ErrCodeValidation_def
      ErrCodeInsufficientFund_def)

lemma storeExpense_Code:
  "snd (storeExpense db expense splits) = Inl (AppErr e) \<Longrightarrow> Code e = ErrCodeDatabase"
  using storeExpense_not_split_error [of db expense splits e] by simp

text \<open>
  Claim C6. For an exact split whose participants are all valid group members and whose
  supplied amounts are all positive, the calculation fails with \<open>INVALID_SPLIT\<close> exactly
  when the supplied amounts do not sum to the declared total; when they do, it succeeds
  and every participant owes the amount supplied. The same equivalence holds for
  \<open>CreateExpense\<close> on a request with at least one split that passes its earlier checks.
\<close>

theorem C6_exact_split:
  assumes "list_all (\<lambda>s. valid_member lib db groupID (sq_UserUUID s) \<and> sq_Amount s > 0) (rq_Splits req)"
  shows "((\<exists>e. calculateExactSplits lib db req groupID = Inl (AppErr e) \<and> Code e = ErrCodeInvalidSplit)
            \<longleftrightarrow> sum_list (map sq_Amount (rq_Splits req)) \<noteq> rq_Amount req) \<and>
         (sum_list (map sq_Amount (rq_Splits req)) \<noteq> rq_Amount req \<longrightarrow>
            calculateExactSplits lib db req groupID =
              Inl (AppErr (NewInvalidSplitError ''Sum of split amounts must equal total expense amount''))) \<and>
         (sum_list (map sq_Amount (rq_Splits req)) = rq_Amount req \<longrightarrow>
            (\<exists>splits. calculateExactSplits lib db req groupID = Inr splits \<and>
               map es_Amount splits = map sq_Amount (rq_Splits req) \<and>
               map es_UserID splits =
                 map (\<lambda>s. u_ID (the (participant db (sq_UserUUID s)))) (rq_Splits req))) \<and>
         (\<forall>grp payer newUUID.
            rq_Splits req \<noteq> [] \<and> rq_SplitType req = SplitTypeExact \<and>
            expense_request_checked lib db req grp payer \<and> g_ID grp = groupID \<longrightarrow>
            ((\<exists>e. snd (CreateExpense lib db newUUID req) = Inl (AppErr e) \<and> Code e = ErrCodeInvalidSplit)
               \<longleftrightarrow> sum_list (map sq_Amount (rq_Splits req)) \<noteq> rq_Amount req))"
proof -
  note calc = calculateExactSplits_members [OF assms]
  have a: "(\<exists>e. calculateExactSplits lib db req groupID = Inl (AppErr e) \<and> Code e = ErrCodeInvalidSplit)
            \<longleftrightarrow> sum_list (map sq_Amount (rq_Splits req)) \<noteq> rq_Amount req"
    by (simp add: calc Code_NewInvalidSplitError)
  have b: "sum_list (map sq_Amount (rq_Splits req)) \<noteq> rq_Amount req \<longrightarrow>
            calculateExactSplits lib db req groupID =
              Inl (AppErr (NewInvalidSplitError ''Sum of split amounts must equal total expense amount''))"
    by (simp add: calc)
  have c: "sum_list (map sq_Amount (rq_Splits req)) = rq_Amount req \<longrightarrow>
            (\<exists>splits. calculateExactSplits lib db req groupID = Inr splits \<and>
               map es_Amount splits = map sq_Amount (rq_Splits req) \<and>
               map es_UserID splits =
                 map (\<lambda>s. u_ID (the (participant db (sq_UserUUID s)))) (rq_Splits req))"
    by (simp add: calc exactSplit_def comp_def)
  have d: "(\<exists>e. snd (CreateExpense lib db newUUID req) = Inl (AppErr e) \<and> Code e = ErrCodeInvalidSplit)
               \<longleftrightarrow> sum_list (map sq_Amount (rq_Splits req)) \<noteq> rq_Amount req"
    if h: "rq_Splits req \<noteq> []" "rq_SplitType req = SplitTypeExact"
       "expense_request_checked lib db req grp payer" "g_ID grp = groupID"
    for grp payer newUUID
  proof -
    have v: "validateAndCalculateSplits lib db req (g_ID grp) = calculateExactSplits lib db req groupID"
      using h(1,2,4)
      by (simp add: validateAndCalculateSplits_def SplitTypeExact_def SplitTypeEqual_def)
    show ?thesis
    proof (cases "sum_list (map sq_Amount (rq_Splits req)) = rq_Amount req")
      case True
      then have "CreateExpense lib db newUUID req =
          storeExpense db (newExpense newUUID grp payer req) (map (exactSplit db) (rq_Splits req))"
        by (simp add: CreateExpense_checked [OF h(3)] v calc)
      then show ?thesis
        using True storeExpense_Code ErrCodeDatabase_neq(1) by fastforce
    next
      case False
      then have "CreateExpense lib db newUUID req =
          (db, Inl (AppErr (NewInvalidSplitError
                   ''Sum of split amounts must equal total expense amount'')))"
        by (simp add: CreateExpense_checked [OF h(3)] v calc)
      then show ?thesis
        using False by (simp add: Code_NewInvalidSplitError)
    qed
  qed
  show ?thesis
    using a b c d by blast
qed

lemma db0_request_checked:
  "ValidateAmount amount = None \<Longrightarrow>
   expense_request_checked lib0 db0 (requestOf amount splitType splits) grp0 alice0"
  by (simp add: expense_request_checked_def requestOf_def ValidateDescription_Dinner
      ValidateCurrency_USD db0_group db0_participants lib0_def grp0_def alice0_def)

theorem C6_exact_split_witness:
  "list_all (\<lambda>s. valid_member lib0 db0 10 (sq_UserUUID s) \<and> sq_Amount s > 0)
     (rq_Splits (requestOf 100 ''exact'' [splitOf ''alice'' 30 0, splitOf ''bob'' 50 0])) \<and>
   calculateExactSplits lib0 db0 (requestOf 100 ''exact'' [splitOf ''alice'' 30 0, splitOf ''bob'' 50 0]) 10 =
     Inl (AppErr (NewInvalidSplitError ''Sum of split amounts must equal total expense amount'')) \<and>
   (\<exists>e. snd (CreateExpense lib0 db0 ''e1''
              (requestOf 100 ''exact'' [splitOf ''alice'' 30 0, splitOf ''bob'' 50 0])) = Inl (AppErr e) \<and>
        Code e = ErrCodeInvalidSplit) \<and>
   list_all (\<lambda>s. valid_member lib0 db0 10 (sq_UserUUID s) \<and> sq_Amount s > 0)
     (rq_Splits (requestOf 100 ''exact'' [splitOf ''alice'' 60 0, splitOf ''bob'' 40 0])) \<and>
   (\<exists>splits.
      calculateExactSplits lib0 db0 (requestOf 100 ''exact'' [splitOf ''alice'' 60 0, splitOf ''bob'' 40 0]) 10 =
        Inr splits \<and> map es_Amount splits = [60, 40] \<and> map es_UserID splits = [1, 2])"
proof -
  let ?bad = "requestOf 100 ''exact'' [splitOf ''alice'' 30 0, splitOf ''bob'' 50 0]"
  let ?good = "requestOf 100 ''exact'' [splitOf ''alice'' 60 0, splitOf ''bob'' 40 0]"
  have hb: "list_all (\<lambda>s. valid_member lib0 db0 10 (sq_UserUUID s) \<and> sq_Amount s > 0) (rq_Splits ?bad)"
    by (simp add: requestOf_def splitOf_def db0_members)
  have hg: "list_all (\<lambda>s. valid_member lib0 db0 10 (sq_UserUUID s) \<and> sq_Amount s > 0) (rq_Splits ?good)"
    by (simp add: requestOf_def splitOf_def db0_members)
  have sb: "sum_list (map sq_Amount (rq_Splits ?bad)) \<noteq> rq_Amount ?bad"
    by (simp add: requestOf_def splitOf_def)
  have sg: "sum_list (map sq_Amount (rq_Splits ?good)) = rq_Amount ?good"
    by (simp add: requestOf_def splitOf_def)
  have cb: "rq_Splits ?bad \<noteq> [] \<and> rq_SplitType ?bad = SplitTypeExact \<and>
            expense_request_checked lib0 db0 ?bad grp0 alice0 \<and> g_ID grp0 = 10"
    by (simp add: db0_request_checked ValidateAmount_examples)
       (simp add: requestOf_def SplitTypeExact_def grp0_def)
  note tb = C6_exact_split [OF hb]
  note tg = C6_exact_split [OF hg]
  have 1: "calculateExactSplits lib0 db0 ?bad 10 =
     Inl (AppErr (NewInvalidSplitError ''Sum of split amounts must equal total expense amount''))"
    using tb sb by blast
  have 2: "\<exists>e. snd (CreateExpense lib0 db0 ''e1'' ?bad) = Inl (AppErr e) \<and> Code e = ErrCodeInvalidSplit"
    using tb sb cb by blast
  from tg sg obtain splits where
    s: "calculateExactSplits lib0 db0 ?good 10 = Inr splits"
       "map es_Amount splits = map sq_Amount (rq_Splits ?good)"
       "map es_UserID splits = map (\<lambda>s. u_ID (the (participant db0 (sq_UserUUID s)))) (rq_Splits ?good)"
    by blast
  have 3: "map es_Amount splits = [60, 40]"
    unfolding s(2) by (simp add: requestOf_def splitOf_def)
  have 4: "map es_UserID splits = [1, 2]"
    unfolding s(3) by (simp add: requestOf_def splitOf_def participant_def db0_participants)
  have 5: "\<exists>splits. calculateExactSplits lib0 db0 ?good 10 = Inr splits \<and>
      map es_Amount splits = [60, 40] \<and> map es_UserID splits = [1, 2]"
    using s(1) 3 4 by (intro exI [of _ splits]) simp
  show ?thesis
    by (intro conjI hb hg 1 2 5)
qed

section \<open>Percentage splits\<close>

lemma error_codes_distinct:
  "ErrCodeValidation \<noteq> ErrCodeInvalidSplit" "ErrCodeInvalid \<noteq> ErrCodeInvalidSplit"
  "ErrCodeNotFound \<noteq> ErrCodeInvalidSplit" "ErrCodeNotFound \<noteq> ErrCodeValidation"
  "ErrCodeInvalidSplit \<noteq> ErrCodeValidation"
  by (simp_all add: ErrCodeValidation_def ErrCodeInvalidSplit_def ErrCodeInvalid_def
      ErrCodeNotFound_def)

lemma Code_NewValidationError: "Code (NewValidationError m) = ErrCodeValidation"
  by (simp add: NewValidationError_def)

lemma calculatePercentageSplits_loop_out_of_range:
  assumes "list_all (\<lambda>s. valid_member lib db groupID (sq_UserUUID s)) rest"
    and "\<not> list_all (\<lambda>s. 0 \<le> sq_Percentage s \<and> sq_Percentage s \<le> 100) rest"
  shows "\<exists>e. calculatePercentageSplits_loop lib db req groupID rest splits totalPercentage =
               Inl (AppErr e) \<and> Code e = ErrCodeValidation"
  using assms
proof (induction rest arbitrary: splits totalPercentage)
  case Nil
  then show ?case by simp
next
  case (Cons splitReq rest)
  from Cons.prems(1) have vm: "valid_member lib db groupID (sq_UserUUID splitReq)"
    and rest_ok: "list_all (\<lambda>s. valid_member lib db groupID (sq_UserUUID s)) rest"
    by simp_all
  show ?case
  proof (cases "0 \<le> sq_Percentage splitReq \<and> sq_Percentage splitReq \<le> 100")
    case True
    with Cons.prems(2) have
      bad: "\<not> list_all (\<lambda>s. 0 \<le> sq_Percentage s \<and> sq_Percentage s \<le> 100) rest"
      by simp
    have "calculatePercentageSplits_loop lib db req groupID (splitReq # rest) splits totalPercentage =
       calculatePercentageSplits_loop lib db req groupID rest
         (splits @ [percentageSplit db (rq_Amount req) splitReq])
         (totalPercentage + sq_Percentage splitReq)"
      using vm True by (intro calculatePercentageSplits_loop_step) simp_all
    then show ?thesis
      using Cons.IH [OF rest_ok bad] by simp
  next
    case False
    from vm have "IsValidUUID lib (sq_UserUUID splitReq)" by (rule valid_memberD)
    moreover from False have "\<exists>m. ValidatePercentage (sq_Percentage splitReq) = Some (NewValidationError m)"
      by (auto simp: ValidatePercentage_def)
    ultimately show ?thesis
      by (auto simp: Code_NewValidationError)
  qed
qed

lemma calculatePercentageSplits_members:
  assumes "list_all (\<lambda>s. valid_member lib db groupID (sq_UserUUID s)) (rq_Splits req)"
    and "list_all (\<lambda>s. 0 \<le> sq_Percentage s \<and> sq_Percentage s \<le> 100) (rq_Splits req)"
  shows "calculatePercentageSplits lib db req groupID =
           (if sum_list (map sq_Percentage (rq_Splits req)) = 100
            then Inr (map (percentageSplit db (rq_Amount req)) (rq_Splits req))
            else Inl (AppErr (NewInvalidSplitError ''Percentages must sum to 100'')))"
proof -
  have "list_all (\<lambda>s. valid_member lib db groupID (sq_UserUUID s) \<and>
                      0 \<le> sq_Percentage s \<and> sq_Percentage s \<le> 100) (rq_Splits req)"
    using assms by (simp add: list_all_iff)
  from calculatePercentageSplits_loop_members [OF this]
  show ?thesis by (simp add: calculatePercentageSplits_def)
qed

lemma calculatePercentageSplits_out_of_range:
  assumes "list_all (\<lambda>s. valid_member lib db groupID (sq_UserUUID s)) (rq_Splits req)"
    and "\<not> list_all (\<lambda>s. 0 \<le> sq_Percentage s \<and> sq_Percentage s \<le> 100) (rq_Splits req)"
  shows "\<exists>e. calculatePercentageSplits lib db req groupID = Inl (AppErr e) \<and> Code e = ErrCodeValidation"
  using calculatePercentageSplits_loop_out_of_range [OF assms, of req "[]" 0]
  by (auto simp: calculatePercentageSplits_def)

text \<open>
  Claim C3. For a percentage split whose participants are all valid group members: the
  calculation fails with \<open>INVALID_SPLIT\<close> exactly when every percentage lies in
  \<open>[0, 100]\<close> and the percentages do not sum to 100; a percentage outside \<open>[0, 100]\<close>
  is rejected by \<open>ValidatePercentage\<close> with a \<open>VALIDATION_ERROR\<close>; the calculation
  succeeds exactly when every percentage lies in \<open>[0, 100]\<close> and they sum to 100, and
  then each participant owes the total times the percentage, divided by 100 by the
  decimal library, which rounds the quotient to 16 places, and rounded to 2 places, with
  nothing corrected afterwards. The equivalence on \<open>INVALID_SPLIT\<close> also holds for
  \<open>CreateExpense\<close> on a request with at least one split that passes its earlier checks.
  When the total and the percentages are in cents, each amount owed is the exact quotient
  rounded to 2 places.
\<close>

theorem C3_percentage_split:
  assumes "list_all (\<lambda>s. valid_member lib db groupID (sq_UserUUID s)) (rq_Splits req)"
  shows "((\<exists>e. calculatePercentageSplits lib db req groupID = Inl (AppErr e) \<and>
               Code e = ErrCodeInvalidSplit) \<longleftrightarrow>
            list_all (\<lambda>s. 0 \<le> sq_Percentage s \<and> sq_Percentage s \<le> 100) (rq_Splits req) \<and>
            sum_list (map sq_Percentage (rq_Splits req)) \<noteq> 100) \<and>
         (\<not> list_all (\<lambda>s. 0 \<le> sq_Percentage s \<and> sq_Percentage s \<le> 100) (rq_Splits req) \<longrightarrow>
            (\<exists>e. calculatePercentageSplits lib db req groupID = Inl (AppErr e) \<and>
                 Code e = ErrCodeValidation)) \<and>
         ((\<exists>splits. calculatePercentageSplits lib db req groupID = Inr splits) \<longleftrightarrow>
            list_all (\<lambda>s. 0 \<le> sq_Percentage s \<and> sq_Percentage s \<le> 100) (rq_Splits req) \<and>
            sum_list (map sq_Percentage (rq_Splits req)) = 100) \<and>
         (\<forall>splits. calculatePercentageSplits lib db req groupID = Inr splits \<longrightarrow>
            map es_Amount splits =
              map (\<lambda>s. Round (Round (rq_Amount req * sq_Percentage s / 100) DivisionPrecision) 2)
                (rq_Splits req) \<and>
            map es_Percentage splits = map sq_Percentage (rq_Splits req) \<and>
            map es_UserID splits =
              map (\<lambda>s. u_ID (the (participant db (sq_UserUUID s)))) (rq_Splits req)) \<and>
         (\<forall>grp payer newUUID.
            rq_Splits req \<noteq> [] \<and> rq_SplitType req = SplitTypePercentage \<and>
            expense_request_checked lib db req grp payer \<and> g_ID grp = groupID \<longrightarrow>
            ((\<exists>e. snd (CreateExpense lib db newUUID req) = Inl (AppErr e) \<and> Code e = ErrCodeInvalidSplit)
               \<longleftrightarrow>
             list_all (\<lambda>s. 0 \<le> sq_Percentage s \<and> sq_Percentage s \<le> 100) (rq_Splits req) \<and>
             sum_list (map sq_Percentage (rq_Splits req)) \<noteq> 100)) \<and>
         (\<forall>splits.
            calculatePercentageSplits lib db req groupID = Inr splits \<and>
            cents (rq_Amount req) \<and> list_all (\<lambda>s. cents (sq_Percentage s)) (rq_Splits req) \<longrightarrow>
            map es_Amount splits =
              map (\<lambda>s. Round (rq_Amount req * sq_Percentage s / 100) 2) (rq_Splits req))"
proof -
  let ?inrange = "list_all (\<lambda>s. 0 \<le> sq_Percentage s \<and> sq_Percentage s \<le> 100) (rq_Splits req)"
  let ?calc = "calculatePercentageSplits lib db req groupID"
  note inr = calculatePercentageSplits_members [OF assms]
  note out = calculatePercentageSplits_out_of_range [OF assms]
  have a: "(\<exists>e. ?calc = Inl (AppErr e) \<and> Code e = ErrCodeInvalidSplit) \<longleftrightarrow>
           ?inrange \<and> sum_list (map sq_Percentage (rq_Splits req)) \<noteq> 100"
  proof (cases ?inrange)
    case True
    then show ?thesis by (simp add: inr Code_NewInvalidSplitError)
  next
    case False
    with out obtain e where "?calc = Inl (AppErr e)" "Code e = ErrCodeValidation" by blast
    with False show ?thesis by (auto simp: error_codes_distinct)
  qed
  have b: "\<not> ?inrange \<longrightarrow> (\<exists>e. ?calc = Inl (AppErr e) \<and> Code e = ErrCodeValidation)"
    using out by blast
  have c: "(\<exists>splits. ?calc = Inr splits) \<longleftrightarrow>
           ?inrange \<and> sum_list (map sq_Percentage (rq_Splits req)) = 100"
  proof (cases ?inrange)
    case True
    then show ?thesis by (simp add: inr)
  next
    case False
    with out show ?thesis by auto
  qed
  have d: "map es_Amount splits =
              map (\<lambda>s. Round (Round (rq_Amount req * sq_Percentage s / 100) DivisionPrecision) 2)
                (rq_Splits req) \<and>
            map es_Percentage splits = map sq_Percentage (rq_Splits req) \<and>
            map es_UserID splits =
              map (\<lambda>s. u_ID (the (participant db (sq_UserUUID s)))) (rq_Splits req)"
    if s: "?calc = Inr splits" for splits
  proof -
    from s c have r: ?inrange by blast
    from s have "splits = map (percentageSplit db (rq_Amount req)) (rq_Splits req)"
      by (simp add: inr [OF r] split: if_splits)
    then show ?thesis by (simp add: percentageSplit_def comp_def)
  qed
  have e: "(\<exists>e. snd (CreateExpense lib db newUUID req) = Inl (AppErr e) \<and> Code e = ErrCodeInvalidSplit)
               \<longleftrightarrow> ?inrange \<and> sum_list (map sq_Percentage (rq_Splits req)) \<noteq> 100"
    if h: "rq_Splits req \<noteq> []" "rq_SplitType req = SplitTypePercentage"
       "expense_request_checked lib db req grp payer" "g_ID grp = groupID"
    for grp payer newUUID
  proof -
    have v: "validateAndCalculateSplits lib db req (g_ID grp) = ?calc"
      using h(1,2,4)
      by (simp add: validateAndCalculateSplits_def SplitTypeExact_def SplitTypeEqual_def
          SplitTypePercentage_def)
    show ?thesis
    proof (cases ?calc)
      case (Inl err)
      then have "CreateExpense lib db newUUID req = (db, Inl err)"
        by (simp add: CreateExpense_checked [OF h(3)] v)
      then show ?thesis using a Inl by simp
    next
      case (Inr splits)
      then have "CreateExpense lib db newUUID req =
          storeExpense db (newExpense newUUID grp payer req) splits"
        by (simp add: CreateExpense_checked [OF h(3)] v)
      moreover from Inr c have "?inrange \<and> sum_list (map sq_Percentage (rq_Splits req)) = 100"
        by blast
      ultimately show ?thesis
        using storeExpense_Code ErrCodeDatabase_neq(1) by fastforce
    qed
  qed
  have f: "map es_Amount splits =
              map (\<lambda>s. Round (rq_Amount req * sq_Percentage s / 100) 2) (rq_Splits req)"
    if s: "?calc = Inr splits" "cents (rq_Amount req)"
      "list_all (\<lambda>s. cents (sq_Percentage s)) (rq_Splits req)" for splits
  proof -
    have "map (\<lambda>s. Round (Round (rq_Amount req * sq_Percentage s / 100) DivisionPrecision) 2)
            (rq_Splits req) =
          map (\<lambda>s. Round (rq_Amount req * sq_Percentage s / 100) 2) (rq_Splits req)"
      using s(3) by (simp add: list_all_iff percentage_share_in_cents [OF s(2)])
    with d [OF s(1)] show ?thesis by simp
  qed
  have old: "((\<exists>e. ?calc = Inl (AppErr e) \<and> Code e = ErrCodeInvalidSplit) \<longleftrightarrow>
            ?inrange \<and> sum_list (map sq_Percentage (rq_Splits req)) \<noteq> 100) \<and>
         (\<not> ?inrange \<longrightarrow> (\<exists>e. ?calc = Inl (AppErr e) \<and> Code e = ErrCodeValidation)) \<and>
         ((\<exists>splits. ?calc = Inr splits) \<longleftrightarrow>
            ?inrange \<and> sum_list (map sq_Percentage (rq_Splits req)) = 100) \<and>
         (\<forall>splits. ?calc = Inr splits \<longrightarrow>
            map es_Amount splits =
              map (\<lambda>s. Round (Round (rq_Amount req * sq_Percentage s / 100) DivisionPrecision) 2)
                (rq_Splits req) \<and>
            map es_Percentage splits = map sq_Percentage (rq_Splits req) \<and>
            map es_UserID splits =
              map (\<lambda>s. u_ID (the (participant db (sq_UserUUID s)))) (rq_Splits req)) \<and>
         (\<forall>grp payer newUUID.
            rq_Splits req \<noteq> [] \<and> rq_SplitType req = SplitTypePercentage \<and>
            expense_request_checked lib db req grp payer \<and> g_ID grp = groupID \<longrightarrow>
            ((\<exists>e. snd (CreateExpense lib db newUUID req) = Inl (AppErr e) \<and> Code e = ErrCodeInvalidSplit)
               \<longleftrightarrow>
             ?inrange \<and> sum_list (map sq_Percentage (rq_Splits req)) \<noteq> 100))"
    using a b c d e by blast
  have new: "\<forall>splits.
            ?calc = Inr splits \<and>
            cents (rq_Amount req) \<and> list_all (\<lambda>s. cents (sq_Percentage s)) (rq_Splits req) \<longrightarrow>
            map es_Amount splits =
              map (\<lambda>s. Round (rq_Amount req * sq_Percentage s / 100) 2) (rq_Splits req)"
    using f by blast
  show ?thesis
    using old new by simp
qed

lemma Round_whole_examples:
  "Round (Round 120 DivisionPrecision) 2 = 120" "Round (Round 80 DivisionPrecision) 2 = 80"
  by code_simp+

theorem C3_percentage_split_witness:
  "list_all (\<lambda>s. valid_member lib0 db0 10 (sq_UserUUID s))
     (rq_Splits (requestOf 200 ''percentage'' [splitOf ''alice'' 0 60, splitOf ''bob'' 0 40])) \<and>
   (\<exists>splits.
      calculatePercentageSplits lib0 db0
        (requestOf 200 ''percentage'' [splitOf ''alice'' 0 60, splitOf ''bob'' 0 40]) 10 = Inr splits \<and>
      map es_Amount splits = [120, 80]) \<and>
   (\<exists>e. calculatePercentageSplits lib0 db0
          (requestOf 200 ''percentage'' [splitOf ''alice'' 0 60, splitOf ''bob'' 0 39]) 10 =
          Inl (AppErr e) \<and> Code e = ErrCodeInvalidSplit) \<and>
   (\<exists>e. snd (CreateExpense lib0 db0 ''e1''
              (requestOf 200 ''percentage'' [splitOf ''alice'' 0 60, splitOf ''bob'' 0 39])) =
          Inl (AppErr e) \<and> Code e = ErrCodeInvalidSplit) \<and>
   (\<exists>e. calculatePercentageSplits lib0 db0
          (requestOf 200 ''percentage'' [splitOf ''alice'' 0 150, splitOf ''bob'' 0 (- 50)]) 10 =
          Inl (AppErr e) \<and> Code e = ErrCodeValidation)"
proof -
  let ?ok = "requestOf 200 ''percentage'' [splitOf ''alice'' 0 60, splitOf ''bob'' 0 40]"
  let ?low = "requestOf 200 ''percentage'' [splitOf ''alice'' 0 60, splitOf ''bob'' 0 39]"
  let ?out = "requestOf 200 ''percentage'' [splitOf ''alice'' 0 150, splitOf ''bob'' 0 (- 50)]"
  have h: "list_all (\<lambda>s. valid_member lib0 db0 10 (sq_UserUUID s)) (rq_Splits ?ok)"
    "list_all (\<lambda>s. valid_member lib0 db0 10 (sq_UserUUID s)) (rq_Splits ?low)"
    "list_all (\<lambda>s. valid_member lib0 db0 10 (sq_UserUUID s)) (rq_Splits ?out)"
    by (simp_all add: requestOf_def splitOf_def db0_members)
  have rng: "list_all (\<lambda>s. 0 \<le> sq_Percentage s \<and> sq_Percentage s \<le> 100) (rq_Splits ?ok)"
    "sum_list (map sq_Percentage (rq_Splits ?ok)) = 100"
    "list_all (\<lambda>s. 0 \<le> sq_Percentage s \<and> sq_Percentage s \<le> 100) (rq_Splits ?low)"
    "sum_list (map sq_Percentage (rq_Splits ?low)) \<noteq> 100"
    "\<not> list_all (\<lambda>s. 0 \<le> sq_Percentage s \<and> sq_Percentage s \<le> 100) (rq_Splits ?out)"
    by (simp_all add: requestOf_def splitOf_def)
  have chk: "rq_Splits ?low \<noteq> [] \<and> rq_SplitType ?low = SplitTypePercentage \<and>
            expense_request_checked lib0 db0 ?low grp0 alice0 \<and> g_ID grp0 = 10"
    by (simp add: db0_request_checked ValidateAmount_examples)
       (simp add: requestOf_def SplitTypePercentage_def grp0_def)
  note t1 = C3_percentage_split [OF h(1)]
  note t2 = C3_percentage_split [OF h(2)]
  note t3 = C3_percentage_split [OF h(3)]
  from t1 rng(1,2) obtain splits where s: "calculatePercentageSplits lib0 db0 ?ok 10 = Inr splits"
    by blast
  with t1 have "map es_Amount splits =
      map (\<lambda>s. Round (Round (rq_Amount ?ok * sq_Percentage s / 100) DivisionPrecision) 2)
        (rq_Splits ?ok)"
    by blast
  then have "map es_Amount splits = [120, 80]"
    by (simp add: requestOf_def splitOf_def Round_whole_examples)
  with s have 1: "\<exists>splits. calculatePercentageSplits lib0 db0 ?ok 10 = Inr splits \<and>
      map es_Amount splits = [120, 80]"
    by (intro exI [of _ splits]) simp
  have 2: "\<exists>e. calculatePercentageSplits lib0 db0 ?low 10 = Inl (AppErr e) \<and> Code e = ErrCodeInvalidSplit"
    using t2 rng(3,4) by blast
  have 3: "\<exists>e. snd (CreateExpense lib0 db0 ''e1'' ?low) = Inl (AppErr e) \<and> Code e = ErrCodeInvalidSplit"
    using t2 rng(3,4) chk by blast
  have 4: "\<exists>e. calculatePercentageSplits lib0 db0 ?out 10 = Inl (AppErr e) \<and> Code e = ErrCodeValidation"
    using t3 rng(5) by blast
  show ?thesis
    by (intro conjI h(1) 1 2 3 4)
qed

lemma sixth_calculated:
  "map_sum id (map es_Amount) (calculatePercentageSplits lib0 db0 sixth 10) =
     Inr [1 / 100, 3 / 100]"
  by code_simp

lemma sixth_checks:
  "ValidateAmount (rq_Amount sixth) = None"
  "sum_list (map sq_Percentage (rq_Splits sixth)) = 100"
  "map (\<lambda>s. ValidatePercentage (sq_Percentage s)) (rq_Splits sixth) = [None, None]"
  "map (\<lambda>s. Round (rq_Amount sixth * sq_Percentage s / 100) 2) (rq_Splits sixth) = [0, 3 / 100]"
  by code_simp+

lemma sixth_result:
  "map_sum id (\<lambda>e. map es_Amount (e_Splits e)) (snd (CreateExpense lib0 db0 ''e1'' sixth)) =
   Inr [1 / 100, 3 / 100]"
  by code_simp

text \<open>
  Claim C3 with the exact quotient in place of the decimal division. The total 0.03 is
  split between Alice at 16.6666666666666666% and Bob at 83.3333333333333334%, both valid
  members, with percentages in \<open>[0, 100]\<close> that sum to 100. The share of Alice is
  0.00499999999999999998, which rounds to 0.00 at 2 places; the decimal division first
  rounds it to 0.005 at 16 places, and Alice owes 0.01. \<open>CreateExpense\<close> accepts the
  request and stores that amount.
\<close>

theorem C3_double_rounding_counterexample:
  "ValidateAmount (rq_Amount sixth) = None \<and>
   valid_member lib0 db0 10 ''alice'' \<and> valid_member lib0 db0 10 ''bob'' \<and>
   sum_list (map sq_Percentage (rq_Splits sixth)) = 100 \<and>
   map (\<lambda>s. ValidatePercentage (sq_Percentage s)) (rq_Splits sixth) = [None, None] \<and>
   (\<exists>splits. calculatePercentageSplits lib0 db0 sixth 10 = Inr splits \<and>
      map es_Amount splits = [1 / 100, 3 / 100]) \<and>
   map (\<lambda>s. Round (rq_Amount sixth * sq_Percentage s / 100) 2) (rq_Splits sixth) = [0, 3 / 100] \<and>
   (\<exists>expense. snd (CreateExpense lib0 db0 ''e1'' sixth) = Inr expense \<and>
      map es_Amount (e_Splits expense) = [1 / 100, 3 / 100])"
proof -
  have 1: "\<exists>splits. calculatePercentageSplits lib0 db0 sixth 10 = Inr splits \<and>
      map es_Amount splits = [1 / 100, 3 / 100]"
    using sixth_calculated by (cases "calculatePercentageSplits lib0 db0 sixth 10") auto
  have 2: "\<exists>expense. snd (CreateExpense lib0 db0 ''e1'' sixth) = Inr expense \<and>
      map es_Amount (e_Splits expense) = [1 / 100, 3 / 100]"
    using sixth_result by (cases "snd (CreateExpense lib0 db0 ''e1'' sixth)") auto
  show ?thesis
    by (intro conjI sixth_checks db0_members 1 2)
qed

section \<open>Exact splits with an amount that is not positive\<close>

lemma calculateExactSplits_loop_first_nonpositive:
  assumes "list_all (\<lambda>s. valid_member lib db groupID (sq_UserUUID s) \<and> sq_Amount s > 0) pre"
    and "IsValidUUID lib (sq_UserUUID bad)" and "sq_Amount bad \<le> 0"
  shows "calculateExactSplits_loop lib db groupID (pre @ bad # post) splits totalSplitAmount =
           Inl (AppErr (NewValidationError ''Split amounts must be greater than zero''))"
  by (simp only: calculateExactSplits_loop_prefix [OF assms(1)]
      calculateExactSplits_loop_nonpositive [OF assms(2,3)])

text \<open>
  Claim C10, as the code has it. An exact split that supplies a zero or negative amount
  is always rejected inside the loop, so the comparison of the sum with the total is
  never reached and the error is never \<open>INVALID_SPLIT\<close>, whether or not the amounts sum
  to the total. The rejection is the \<open>VALIDATION_ERROR\<close> "Split amounts must be greater
  than zero" whenever the participants listed before the first such amount are valid
  group members with positive amounts and the offending participant's identifier is
  well formed; otherwise it is the error of the check that fails first.
\<close>

theorem C10_nonpositive_amount:
  assumes "list_ex (\<lambda>s. sq_Amount s \<le> 0) (rq_Splits req)"
  shows "(\<exists>e. calculateExactSplits_loop lib db groupID (rq_Splits req) [] 0 = Inl (AppErr e) \<and>
              calculateExactSplits lib db req groupID = Inl (AppErr e) \<and>
              Code e \<noteq> ErrCodeInvalidSplit) \<and>
         (\<forall>pre bad post.
            rq_Splits req = pre @ bad # post \<and>
            list_all (\<lambda>s. valid_member lib db groupID (sq_UserUUID s) \<and> sq_Amount s > 0) pre \<and>
            IsValidUUID lib (sq_UserUUID bad) \<and> sq_Amount bad \<le> 0 \<longrightarrow>
            calculateExactSplits lib db req groupID =
              Inl (AppErr (NewValidationError ''Split amounts must be greater than zero'')))"
proof -
  from calculateExactSplits_loop_nonpositive_rejected [OF assms, of lib db groupID "[]" 0]
  obtain e where e: "calculateExactSplits_loop lib db groupID (rq_Splits req) [] 0 = Inl (AppErr e)"
    "Code e \<in> {ErrCodeInvalid, ErrCodeValidation, ErrCodeNotFound, ErrCodeDatabase}"
    by blast
  then have "calculateExactSplits lib db req groupID = Inl (AppErr e)"
    by (simp add: calculateExactSplits_def)
  moreover have "Code e \<noteq> ErrCodeInvalidSplit"
    using e(2) error_codes_distinct ErrCodeDatabase_neq by auto
  ultimately have a: "\<exists>e. calculateExactSplits_loop lib db groupID (rq_Splits req) [] 0 = Inl (AppErr e) \<and>
              calculateExactSplits lib db req groupID = Inl (AppErr e) \<and>
              Code e \<noteq> ErrCodeInvalidSplit"
    using e(1) by blast
  have b: "calculateExactSplits lib db req groupID =
              Inl (AppErr (NewValidationError ''Split amounts must be greater than zero''))"
    if "rq_Splits req = pre @ bad # post"
      "list_all (\<lambda>s. valid_member lib db groupID (sq_UserUUID s) \<and> sq_Amount s > 0) pre"
      "IsValidUUID lib (sq_UserUUID bad)" "sq_Amount bad \<le> 0" for pre bad post
    using calculateExactSplits_loop_first_nonpositive [OF that(2,3,4), of post "[]" 0] that(1)
    by (simp add: calculateExactSplits_def)
  show ?thesis using a b by blast
qed

theorem C10_nonpositive_amount_witness:
  "list_ex (\<lambda>s. sq_Amount s \<le> 0)
     (rq_Splits (requestOf 100 ''exact'' [splitOf ''alice'' 100 0, splitOf ''bob'' 0 0])) \<and>
   sum_list (map sq_Amount
     (rq_Splits (requestOf 100 ''exact'' [splitOf ''alice'' 100 0, splitOf ''bob'' 0 0]))) =
     rq_Amount (requestOf 100 ''exact'' [splitOf ''alice'' 100 0, splitOf ''bob'' 0 0]) \<and>
   calculateExactSplits lib0 db0
     (requestOf 100 ''exact'' [splitOf ''alice'' 100 0, splitOf ''bob'' 0 0]) 10 =
     Inl (AppErr (NewValidationError ''Split amounts must be greater than zero''))"
proof -
  let ?req = "requestOf 100 ''exact'' [splitOf ''alice'' 100 0, splitOf ''bob'' 0 0]"
  have h: "list_ex (\<lambda>s. sq_Amount s \<le> 0) (rq_Splits ?req)"
    by (simp add: requestOf_def splitOf_def)
  have s: "sum_list (map sq_Amount (rq_Splits ?req)) = rq_Amount ?req"
    by (simp add: requestOf_def splitOf_def)
  have p: "rq_Splits ?req = [splitOf ''alice'' 100 0] @ splitOf ''bob'' 0 0 # [] \<and>
      list_all (\<lambda>s. valid_member lib0 db0 10 (sq_UserUUID s) \<and> sq_Amount s > 0) [splitOf ''alice'' 100 0] \<and>
      IsValidUUID lib0 (sq_UserUUID (splitOf ''bob'' 0 0)) \<and> sq_Amount (splitOf ''bob'' 0 0) \<le> 0"
    by (simp add: requestOf_def splitOf_def db0_members) (simp add: lib0_def)
  have "calculateExactSplits lib0 db0 ?req 10 =
      Inl (AppErr (NewValidationError ''Split amounts must be greater than zero''))"
    using C10_nonpositive_amount [OF h, of lib0 db0 10] p by blast
  then show ?thesis using h s by simp
qed

text \<open>
  The claim as written fails when a participant listed before the offending one is
  unknown: Dave is no user, and the request that lists him first is rejected with
  \<open>NOT_FOUND\<close>, although Bob's amount is zero and the amounts sum to the total.
\<close>

theorem C10_unknown_user_first_counterexample:
  "list_ex (\<lambda>s. sq_Amount s \<le> 0)
     (rq_Splits (requestOf 100 ''exact'' [splitOf ''dave'' 100 0, splitOf ''bob'' 0 0])) \<and>
   calculateExactSplits lib0 db0
     (requestOf 100 ''exact'' [splitOf ''dave'' 100 0, splitOf ''bob'' 0 0]) 10 =
     Inl (AppErr (NewNotFoundError ''User'')) \<and>
   CreateExpense lib0 db0 ''e1''
     (requestOf 100 ''exact'' [splitOf ''dave'' 100 0, splitOf ''bob'' 0 0]) =
     (db0, Inl (AppErr (NewNotFoundError ''User''))) \<and>
   Code (NewNotFoundError ''User'') = ErrCodeNotFound \<and>
   ErrCodeNotFound \<noteq> ErrCodeValidation"
proof -
  let ?req = "requestOf 100 ''exact'' [splitOf ''dave'' 100 0, splitOf ''bob'' 0 0]"
  have 1: "list_ex (\<lambda>s. sq_Amount s \<le> 0) (rq_Splits ?req)"
    by (simp add: requestOf_def splitOf_def)
  have 2: "calculateExactSplits lib0 db0 ?req 10 = Inl (AppErr (NewNotFoundError ''User''))"
    by (simp add: calculateExactSplits_def requestOf_def splitOf_def db0_participants lib0_def)
  have chk: "expense_request_checked lib0 db0 ?req grp0 alice0"
    by (simp add: db0_request_checked ValidateAmount_examples)
  have v: "validateAndCalculateSplits lib0 db0 ?req (g_ID grp0) = calculateExactSplits lib0 db0 ?req 10"
    by (simp add: validateAndCalculateSplits_def requestOf_def SplitTypeExact_def SplitTypeEqual_def
        grp0_def)
  have 3: "CreateExpense lib0 db0 ''e1'' ?req = (db0, Inl (AppErr (NewNotFoundError ''User'')))"
    by (simp add: CreateExpense_checked [OF chk] v 2)
  show ?thesis
    using 1 2 3 by (simp add: NewNotFoundError_def error_codes_distinct)
qed

section \<open>The greedy matching loop\<close>

lemma remaining_update:
  "i < length work \<Longrightarrow>
   remaining (work[i := (work ! i)\<lparr>b_Balance := v\<rparr>]) = remaining work - b_Balance (work ! i) + v"
proof (induction work arbitrary: i)
  case Nil
  then show ?case by simp
next
  case (Cons b work)
  then show ?case by (cases i) (simp_all add: remaining_def)
qed

lemma remaining_removeAt:
  "i < length work \<Longrightarrow> remaining (removeAt i work) = remaining work - b_Balance (work ! i)"
proof (induction work arbitrary: i)
  case Nil
  then show ?case by simp
next
  case (Cons b work)
  then show ?case by (cases i) (simp_all add: remaining_def removeAt_def)
qed

lemma positive_update:
  "positive work \<Longrightarrow> 0 < v \<Longrightarrow> positive (work[i := (work ! i)\<lparr>b_Balance := v\<rparr>])"
  by (auto simp: positive_def list_all_iff dest!: set_update_subset_insert [THEN subsetD])

lemma positive_removeAt: "positive work \<Longrightarrow> positive (removeAt i work)"
  by (auto simp: positive_def list_all_iff removeAt_def dest: in_set_takeD in_set_dropD)

lemma positive_removeAt_update:
  "positive work \<Longrightarrow> positive (removeAt i (work[i := x]))"
proof -
  assume p: "positive work"
  have "removeAt i (work[i := x]) = removeAt i work"
    by (simp add: removeAt_def drop_update_cancel)
  then show ?thesis using p by (simp add: positive_removeAt)
qed

lemma remaining_removeAt_update:
  "i < length work \<Longrightarrow> remaining (removeAt i (work[i := x])) = remaining work - b_Balance (work ! i)"
proof -
  assume i: "i < length work"
  have "removeAt i (work[i := x]) = removeAt i work"
    by (simp add: removeAt_def drop_update_cancel)
  then show ?thesis using i by (simp add: remaining_removeAt)
qed

lemma positive_nth: "positive work \<Longrightarrow> i < length work \<Longrightarrow> 0 < b_Balance (work ! i)"
  by (simp add: positive_def list_all_length)

lemma settle_at_invariant:
  assumes i: "i < length cw" and j: "j < length dw"
    and pc: "positive cw" and pd: "positive dw"
    and s: "settle_at cur i j cw dw sg = (cw', dw', sg')"
  shows "positive cw'" and "positive dw'"
    and "suggested sg' + remaining cw' = suggested sg + remaining cw"
    and "suggested sg' + remaining dw' = suggested sg + remaining dw"
    and "length sg' = length sg + 1"
proof -
  define c where "c = b_Balance (cw ! i)"
  define d where "d = b_Balance (dw ! j)"
  define a where "a = (if d < c then d else c)"
  have c0: "0 < c" and d0: "0 < d"
    using positive_nth [OF pc i] positive_nth [OF pd j] by (simp_all add: c_def d_def)
  let ?cw' = "if c - a = 0 then removeAt i (cw[i := (cw ! i)\<lparr>b_Balance := c - a\<rparr>])
              else cw[i := (cw ! i)\<lparr>b_Balance := c - a\<rparr>]"
  let ?dw' = "if d - a = 0 then removeAt j (dw[j := (dw ! j)\<lparr>b_Balance := d - a\<rparr>])
              else dw[j := (dw ! j)\<lparr>b_Balance := d - a\<rparr>]"
  let ?sg' = "sg @ [\<lparr>sg_FromUser = b_User (dw ! j), sg_ToUser = b_User (cw ! i),
                     sg_Amount = a, sg_Currency = cur\<rparr>]"
  have "settle_at cur i j cw dw sg = (?cw', ?dw', ?sg')"
    unfolding settle_at_def Let_def c_def d_def a_def by simp
  with s have cw': "cw' = ?cw'" and dw': "dw' = ?dw'" and sg': "sg' = ?sg'"
    by simp_all
  show "positive cw'"
  proof (cases "c - a = 0")
    case True
    then show ?thesis by (simp add: cw' positive_removeAt_update pc)
  next
    case False
    then have "0 < c - a" using c0 d0 by (simp add: a_def split: if_splits)
    with False show ?thesis by (simp add: cw' positive_update pc)
  qed
  show "positive dw'"
  proof (cases "d - a = 0")
    case True
    then show ?thesis by (simp add: dw' positive_removeAt_update pd)
  next
    case False
    then have "0 < d - a" using c0 d0 by (simp add: a_def split: if_splits)
    with False show ?thesis by (simp add: dw' positive_update pd)
  qed
  have "remaining cw' = remaining cw - a"
    using i by (simp add: cw' remaining_removeAt_update remaining_update c_def [symmetric])
  then show "suggested sg' + remaining cw' = suggested sg + remaining cw"
    by (simp add: sg' suggested_def)
  have "remaining dw' = remaining dw - a"
    using j by (simp add: dw' remaining_removeAt_update remaining_update d_def [symmetric])
  then show "suggested sg' + remaining dw' = suggested sg + remaining dw"
    by (simp add: sg' suggested_def)
  show "length sg' = length sg + 1" by (simp add: sg')
qed

lemma positive_remaining_zero: "positive work \<Longrightarrow> remaining work = 0 \<Longrightarrow> work = []"
proof (cases work)
  case Nil
  then show ?thesis by simp
next
  case (Cons b rest)
  assume p: "positive work" and z: "remaining work = 0"
  from p Cons have b: "0 < b_Balance b" and r: "\<forall>x\<in>set rest. 0 < b_Balance x"
    by (simp_all add: positive_def list_all_iff)
  have "0 \<le> sum_list (map b_Balance rest)"
    using r by (intro sum_list_nonneg) auto
  with z Cons b show ?thesis by (simp add: remaining_def)
qed

lemma settle_at_amount:
  "\<exists>cw' dw'. settle_at cur i j cw dw sg =
     (cw', dw', sg @ [\<lparr>sg_FromUser = b_User (dw ! j), sg_ToUser = b_User (cw ! i),
                      sg_Amount = min (b_Balance (dw ! j)) (b_Balance (cw ! i)),
                      sg_Currency = cur\<rparr>])"
  by (simp add: settle_at_def Let_def min_def)

lemma settlement_loop_stop:
  "creditorsWork = [] \<or> debtorsWork = [] \<Longrightarrow>
   settlement_loop cur creditorsWork debtorsWork suggestions = (creditorsWork, debtorsWork, suggestions)"
  by (subst settlement_loop.simps) auto

lemma settlement_loop_step:
  assumes "creditorsWork \<noteq> []" "debtorsWork \<noteq> []"
    and "settle_at cur (findMaxIdx creditorsWork) (findMaxIdx debtorsWork)
           creditorsWork debtorsWork suggestions = (cw', dw', sg')"
  shows "settlement_loop cur creditorsWork debtorsWork suggestions = settlement_loop cur cw' dw' sg'"
  using assms by (subst settlement_loop.simps) simp

lemma settlement_loop_exit:
  assumes "settlement_loop cur cw dw sg = (cw', dw', sg')"
  shows "(cw' = [] \<or> dw' = []) \<and> length sg' + length cw' + length dw' \<le> length sg + length cw + length dw"
  using assms
proof (induction cur cw dw sg rule: settlement_loop.induct)
  case (1 cur cw dw sg)
  show ?case
  proof (cases "cw = [] \<or> dw = []")
    case True
    with "1.prems" show ?thesis by (auto simp: settlement_loop_stop)
  next
    case False
    obtain cw1 dw1 sg1 where
      st: "settle_at cur (findMaxIdx cw) (findMaxIdx dw) cw dw sg = (cw1, dw1, sg1)"
      by (cases "settle_at cur (findMaxIdx cw) (findMaxIdx dw) cw dw sg") auto
    from False have idx: "findMaxIdx cw < length cw" "findMaxIdx dw < length dw"
      by (auto intro: findMaxIdx_less)
    have less: "length cw1 + length dw1 < length cw + length dw"
      by (rule settle_at_decreases(1) [OF idx st])
    from settle_at_amount [of cur "findMaxIdx cw" "findMaxIdx dw" cw dw sg] st
    have len: "length sg1 = length sg + 1" by auto
    from False st "1.prems" have loop: "settlement_loop cur cw1 dw1 sg1 = (cw', dw', sg')"
      by (simp add: settlement_loop_step)
    from False have c: "0 < length cw \<and> 0 < length dw" by simp
    have "(cw' = [] \<or> dw' = []) \<and>
          length sg' + length cw' + length dw' \<le> length sg1 + length cw1 + length dw1"
      by (rule "1.IH" [OF c st [symmetric] refl loop])
    with less len show ?thesis by linarith
  qed
qed

lemma settlement_loop_invariant:
  assumes "positive cw" "positive dw" "settlement_loop cur cw dw sg = (cw', dw', sg')"
  shows "positive cw' \<and> positive dw' \<and>
         suggested sg' + remaining cw' = suggested sg + remaining cw \<and>
         suggested sg' + remaining dw' = suggested sg + remaining dw"
  using assms
proof (induction cur cw dw sg rule: settlement_loop.induct)
  case (1 cur cw dw sg)
  show ?case
  proof (cases "cw = [] \<or> dw = []")
    case True
    with "1.prems" show ?thesis by (auto simp: settlement_loop_stop)
  next
    case False
    obtain cw1 dw1 sg1 where
      st: "settle_at cur (findMaxIdx cw) (findMaxIdx dw) cw dw sg = (cw1, dw1, sg1)"
      by (cases "settle_at cur (findMaxIdx cw) (findMaxIdx dw) cw dw sg") auto
    from False have idx: "findMaxIdx cw < length cw" "findMaxIdx dw < length dw"
      by (auto intro: findMaxIdx_less)
    note inv = settle_at_invariant [OF idx "1.prems"(1,2) st]
    from False st "1.prems" have loop: "settlement_loop cur cw1 dw1 sg1 = (cw', dw', sg')"
      by (simp add: settlement_loop_step)
    from False have c: "0 < length cw \<and> 0 < length dw" by simp
    have "positive cw' \<and> positive dw' \<and>
         suggested sg' + remaining cw' = suggested sg1 + remaining cw1 \<and>
         suggested sg' + remaining dw' = suggested sg1 + remaining dw1"
      by (rule "1.IH" [OF c st [symmetric] refl inv(1,2) loop])
    with inv(3,4) show ?thesis by simp
  qed
qed

lemma settlement_loop_balanced:
  assumes "positive cw" "positive dw" "remaining cw = remaining dw"
    and "settlement_loop cur cw dw sg = (cw', dw', sg')"
  shows "cw' = [] \<and> dw' = [] \<and> suggested sg' = suggested sg + remaining dw"
proof -
  from settlement_loop_invariant [OF assms(1,2,4)] have
    p: "positive cw'" "positive dw'"
    and c: "suggested sg' + remaining cw' = suggested sg + remaining cw"
    and d: "suggested sg' + remaining dw' = suggested sg + remaining dw"
    by simp_all
  from settlement_loop_exit [OF assms(4)] have e: "cw' = [] \<or> dw' = []" by simp
  from c d assms(3) have eq: "remaining cw' = remaining dw'" by simp
  from e have "remaining cw' = 0 \<and> remaining dw' = 0"
    using eq by (auto simp: remaining_def)
  then have "cw' = []" "dw' = []"
    using p by (auto intro: positive_remaining_zero)
  with d show ?thesis by (simp add: remaining_def)
qed

text \<open>
  Claim C8. The loop is a total function: \<open>settlement_loop\<close> is defined by recursion on
  the number of parties left in the two working sets. Each round of the loop, entered
  with both sets non-empty, emits one suggestion whose amount is the smaller of the two
  selected remainders and leaves strictly fewer parties in the two sets together, since
  the party whose remainder reaches zero is removed. The loop therefore stops, with one
  of the sets empty, after at most as many rounds as there are parties. When all
  remainders are positive and the creditors' remainders sum to the debtors', both sets
  are empty when it stops.
\<close>

theorem C8_greedy_loop_terminates:
  "(creditorsWork \<noteq> [] \<and> debtorsWork \<noteq> [] \<longrightarrow>
      (\<exists>cw' dw' sg'.
         settle_at cur (findMaxIdx creditorsWork) (findMaxIdx debtorsWork)
           creditorsWork debtorsWork suggestions = (cw', dw', sg') \<and>
         sg' = suggestions @
           [\<lparr>sg_FromUser = b_User (debtorsWork ! findMaxIdx debtorsWork),
             sg_ToUser = b_User (creditorsWork ! findMaxIdx creditorsWork),
             sg_Amount = min (b_Balance (debtorsWork ! findMaxIdx debtorsWork))
                             (b_Balance (creditorsWork ! findMaxIdx creditorsWork)),
             sg_Currency = cur\<rparr>] \<and>
         length cw' + length dw' < length creditorsWork + length debtorsWork \<and>
         settlement_loop cur creditorsWork debtorsWork suggestions =
           settlement_loop cur cw' dw' sg')) \<and>
   (\<exists>cw' dw' sg'.
      settlement_loop cur creditorsWork debtorsWork suggestions = (cw', dw', sg') \<and>
      (cw' = [] \<or> dw' = []) \<and>
      length sg' \<le> length suggestions + (length creditorsWork + length debtorsWork)) \<and>
   (positive creditorsWork \<and> positive debtorsWork \<and>
    remaining creditorsWork = remaining debtorsWork \<longrightarrow>
      fst (settlement_loop cur creditorsWork debtorsWork suggestions) = [] \<and>
      fst (snd (settlement_loop cur creditorsWork debtorsWork suggestions)) = [])"
proof (intro conjI impI)
  assume ne: "creditorsWork \<noteq> [] \<and> debtorsWork \<noteq> []"
  from settle_at_amount [of cur "findMaxIdx creditorsWork" "findMaxIdx debtorsWork"
      creditorsWork debtorsWork suggestions]
  obtain cw' dw' where st: "settle_at cur (findMaxIdx creditorsWork) (findMaxIdx debtorsWork)
           creditorsWork debtorsWork suggestions =
     (cw', dw', suggestions @
           [\<lparr>sg_FromUser = b_User (debtorsWork ! findMaxIdx debtorsWork),
             sg_ToUser = b_User (creditorsWork ! findMaxIdx creditorsWork),
             sg_Amount = min (b_Balance (debtorsWork ! findMaxIdx debtorsWork))
                             (b_Balance (creditorsWork ! findMaxIdx creditorsWork)),
             sg_Currency = cur\<rparr>])"
    by blast
  from ne have idx: "findMaxIdx creditorsWork < length creditorsWork"
    "findMaxIdx debtorsWork < length debtorsWork"
    by (auto intro: findMaxIdx_less)
  have "length cw' + length dw' < length creditorsWork + length debtorsWork"
    by (rule settle_at_decreases(1) [OF idx st])
  moreover have "settlement_loop cur creditorsWork debtorsWork suggestions =
      settlement_loop cur cw' dw' (suggestions @
           [\<lparr>sg_FromUser = b_User (debtorsWork ! findMaxIdx debtorsWork),
             sg_ToUser = b_User (creditorsWork ! findMaxIdx creditorsWork),
             sg_Amount = min (b_Balance (debtorsWork ! findMaxIdx debtorsWork))
                             (b_Balance (creditorsWork ! findMaxIdx creditorsWork)),
             sg_Currency = cur\<rparr>])"
    using ne st by (intro settlement_loop_step) simp_all
  ultimately show "\<exists>cw' dw' sg'.
         settle_at cur (findMaxIdx creditorsWork) (findMaxIdx debtorsWork)
           creditorsWork debtorsWork suggestions = (cw', dw', sg') \<and>
         sg' = suggestions @
           [\<lparr>sg_FromUser = b_User (debtorsWork ! findMaxIdx debtorsWork),
             sg_ToUser = b_User (creditorsWork ! findMaxIdx creditorsWork),
             sg_Amount = min (b_Balance (debtorsWork ! findMaxIdx debtorsWork))
                             (b_Balance (creditorsWork ! findMaxIdx creditorsWork)),
             sg_Currency = cur\<rparr>] \<and>
         length cw' + length dw' < length creditorsWork + length debtorsWork \<and>
         settlement_loop cur creditorsWork debtorsWork suggestions =
           settlement_loop cur cw' dw' sg'"
    using st by blast
next
  obtain cw' dw' sg' where
    r: "settlement_loop cur creditorsWork debtorsWork suggestions = (cw', dw', sg')"
    by (cases "settlement_loop cur creditorsWork debtorsWork suggestions") auto
  from settlement_loop_exit [OF r] have "(cw' = [] \<or> dw' = [])"
    "length sg' \<le> length suggestions + (length creditorsWork + length debtorsWork)"
    by simp_all
  with r show "\<exists>cw' dw' sg'.
      settlement_loop cur creditorsWork debtorsWork suggestions = (cw', dw', sg') \<and>
      (cw' = [] \<or> dw' = []) \<and>
      length sg' \<le> length suggestions + (length creditorsWork + length debtorsWork)"
    by blast
next
  assume h: "positive creditorsWork \<and> positive debtorsWork \<and>
    remaining creditorsWork = remaining debtorsWork"
  obtain cw' dw' sg' where
    r: "settlement_loop cur creditorsWork debtorsWork suggestions = (cw', dw', sg')"
    by (cases "settlement_loop cur creditorsWork debtorsWork suggestions") auto
  from settlement_loop_balanced [OF _ _ _ r] h have "cw' = [] \<and> dw' = []" by simp
  with r show "fst (settlement_loop cur creditorsWork debtorsWork suggestions) = []"
    and "fst (snd (settlement_loop cur creditorsWork debtorsWork suggestions)) = []"
    by simp_all
qed

theorem C8_greedy_loop_terminates_witness:
  "cw0 \<noteq> [] \<and> dw0 \<noteq> [] \<and> positive cw0 \<and> positive dw0 \<and> remaining cw0 = remaining dw0 \<and>
   (\<exists>cw' dw' sg'.
      settle_at ''USD'' (findMaxIdx cw0) (findMaxIdx dw0) cw0 dw0 [] = (cw', dw', sg') \<and>
      length cw' + length dw' < length cw0 + length dw0) \<and>
   fst (settlement_loop ''USD'' cw0 dw0 []) = [] \<and>
   fst (snd (settlement_loop ''USD'' cw0 dw0 [])) = []"
proof -
  have h: "cw0 \<noteq> [] \<and> dw0 \<noteq> []" by (simp add: cw0_def dw0_def)
  have p: "positive cw0 \<and> positive dw0 \<and> remaining cw0 = remaining dw0"
    by (simp add: cw0_def dw0_def positive_def remaining_def)
  note t = C8_greedy_loop_terminates [of cw0 dw0 "''USD''" "[]"]
  from t h have 1: "\<exists>cw' dw' sg'.
      settle_at ''USD'' (findMaxIdx cw0) (findMaxIdx dw0) cw0 dw0 [] = (cw', dw', sg') \<and>
      length cw' + length dw' < length cw0 + length dw0"
    by blast
  from t p have 2: "fst (settlement_loop ''USD'' cw0 dw0 []) = [] \<and>
   fst (snd (settlement_loop ''USD'' cw0 dw0 [])) = []"
    by blast
  show ?thesis using h p 1 2 by blast
qed

lemma matching_run_total:
  assumes "matching_run cur cw dw sg out"
    and "positive cw" "positive dw" "remaining cw = remaining dw"
  shows "suggested out = suggested sg + remaining dw"
  using assms
proof (induction rule: matching_run.induct)
  case (stop cw dw cur sg)
  then have "remaining dw = 0" by (auto simp: remaining_def)
  then show ?case by simp
next
  case (round cw dw i j cur sg cw' dw' sg' out)
  note inv = settle_at_invariant [OF round.hyps(3,4) round.prems(1,2) round.hyps(5)]
  from inv(3,4) round.prems(3) have "remaining cw' = remaining dw'" by simp
  from round.IH [OF inv(1,2) this] inv(4) show ?case by simp
qed

lemma settlement_loop_run:
  "matching_run cur cw dw sg (snd (snd (settlement_loop cur cw dw sg)))"
proof (induction cur cw dw sg rule: settlement_loop.induct)
  case (1 cur cw dw sg)
  show ?case
  proof (cases "cw = [] \<or> dw = []")
    case True
    then show ?thesis by (simp add: settlement_loop_stop matching_run.stop)
  next
    case False
    obtain cw1 dw1 sg1 where
      st: "settle_at cur (findMaxIdx cw) (findMaxIdx dw) cw dw sg = (cw1, dw1, sg1)"
      by (cases "settle_at cur (findMaxIdx cw) (findMaxIdx dw) cw dw sg") auto
    from False have idx: "findMaxIdx cw < length cw" "findMaxIdx dw < length dw"
      by (auto intro: findMaxIdx_less)
    from False have c: "0 < length cw \<and> 0 < length dw" by simp
    have "matching_run cur cw1 dw1 sg1 (snd (snd (settlement_loop cur cw1 dw1 sg1)))"
      by (rule "1.IH" [OF c st [symmetric] refl])
    moreover have "settlement_loop cur cw dw sg = settlement_loop cur cw1 dw1 sg1"
      using False st by (intro settlement_loop_step) simp_all
    ultimately show ?thesis
      using False idx st by (auto intro: matching_run.round)
  qed
qed

lemma generateSettlementSuggestions_eq:
  "generateSettlementSuggestions creditors debtors currency =
     snd (snd (settlement_loop currency (map workingCopy creditors) (map workingCopy debtors) []))"
  by (simp add: generateSettlementSuggestions_def workingCopy_def [abs_def] Let_def)

lemma working_sets:
  "positive (map workingCopy (fst (partition_loop balances [] [])))"
  "positive (map workingCopy (snd (partition_loop balances [] [])))"
  "remaining (map workingCopy (fst (partition_loop balances [] []))) = creditorSum balances"
  "remaining (map workingCopy (snd (partition_loop balances [] []))) = debtorSum balances"
  by (simp_all add: partition_loop_eq positive_def remaining_def workingCopy_def list_all_iff
      comp_def creditorSum_def debtorSum_def)

lemma ds_Suggestions_simplify:
  "ds_Suggestions (simplify balances currency) =
     generateSettlementSuggestions (fst (partition_loop balances [] []))
       (snd (partition_loop balances [] [])) currency"
  by (simp add: simplify_def Let_def split: prod.splits)

text \<open>
  Claim C4. When the positive balances of a snapshot sum to the same amount as the
  absolute values of its negative balances, the amounts of the suggestions that
  \<open>SimplifyDebts\<close> computes from it sum to that amount. The same holds for every run of
  the matching from the same working sets, whichever creditor and debtor each round
  selects, so the total does not depend on how ties between maximal balances are broken;
  the run of the code is one of these runs.
\<close>

theorem C4_suggestions_total:
  assumes "debtorSum balances = creditorSum balances"
  shows "suggested (ds_Suggestions (simplify balances currency)) = debtorSum balances \<and>
         suggested (ds_Suggestions (simplify balances currency)) = creditorSum balances \<and>
         (\<forall>out. matching_run currency
                   (map workingCopy (fst (partition_loop balances [] [])))
                   (map workingCopy (snd (partition_loop balances [] []))) [] out \<longrightarrow>
                suggested out = debtorSum balances) \<and>
         matching_run currency
           (map workingCopy (fst (partition_loop balances [] [])))
           (map workingCopy (snd (partition_loop balances [] []))) []
           (ds_Suggestions (simplify balances currency))"
proof -
  let ?cw = "map workingCopy (fst (partition_loop balances [] []))"
  let ?dw = "map workingCopy (snd (partition_loop balances [] []))"
  have eq: "remaining ?cw = remaining ?dw"
    using assms by (simp only: working_sets)
  have total: "suggested out = debtorSum balances" if "matching_run currency ?cw ?dw [] out" for out
    using matching_run_total [OF that working_sets(1,2) eq]
    by (simp add: working_sets(4) suggested_def)
  have run: "matching_run currency ?cw ?dw [] (ds_Suggestions (simplify balances currency))"
    unfolding ds_Suggestions_simplify generateSettlementSuggestions_eq
    by (rule settlement_loop_run)
  from total [OF run] assms total run show ?thesis by simp
qed

theorem C4_suggestions_total_witness:
  "debtorSum balances0 = creditorSum balances0 \<and>
   suggested (ds_Suggestions (simplify balances0 ''USD'')) = 50 \<and>
   matching_run ''USD''
     (map workingCopy (fst (partition_loop balances0 [] [])))
     (map workingCopy (snd (partition_loop balances0 [] []))) []
     (ds_Suggestions (simplify balances0 ''USD''))"
proof -
  have h: "debtorSum balances0 = creditorSum balances0"
    by (simp add: debtorSum_def creditorSum_def balances0_def)
  have d: "debtorSum balances0 = 50"
    by (simp add: debtorSum_def balances0_def)
  from C4_suggestions_total [OF h, of "''USD''"] h d show ?thesis by simp
qed

lemma simplify_example:
  "map sg_Amount (ds_Suggestions (simplify balances0 ''USD'')) = [30, 20]"
  by code_simp

section \<open>Settlements and the payer's balance\<close>

lemma GetByGroupAndUser_online:
  assumes "online db"
  shows "\<exists>b. balanceRepo_GetByGroupAndUser db groupID userID currency = Inr b \<and>
             b_Balance b = currentBalance db groupID userID currency"
  using assms
  by (simp add: balanceRepo_GetByGroupAndUser_def currentBalance_def split: option.splits)

lemma find_map_same:
  assumes "\<And>x. P (f x) = P x"
  shows "find P (map f xs) = map_option f (find P xs)"
  by (induction xs) (simp_all add: assms)

lemma find_append_one:
  "find P (xs @ [y]) = (case find P xs of None \<Rightarrow> (if P y then Some y else None) | Some x \<Rightarrow> Some x)"
  by (induction xs) simp_all

lemma UpdateBalance_online:
  assumes "online db"
  shows "\<exists>db'. balanceRepo_UpdateBalance db g u a c = Inr db' \<and> online db' \<and>
           settlements db' = settlements db \<and> users db' = users db \<and> groups db' = groups db \<and>
           group_members db' = group_members db \<and> expenses db' = expenses db \<and>
           expense_splits db' = expense_splits db"
  using assms by (simp add: balanceRepo_UpdateBalance_def Let_def)

lemma currentBalance_UpdateBalance:
  assumes "balanceRepo_UpdateBalance db g u a c = Inr db'"
  shows "currentBalance db' g' u' c' =
           currentBalance db g' u' c' + (if g' = g \<and> u' = u \<and> c' = c then Round a 2 else 0)"
proof -
  let ?same = "\<lambda>b. b_GroupID b = g \<and> b_UserID b = u \<and> b_Currency b = c"
  let ?P = "\<lambda>b. b_GroupID b = g' \<and> b_UserID b = u' \<and> b_Currency b = c'"
  let ?f = "\<lambda>b. if ?same b then b\<lparr>b_Balance := b_Balance b + Round a 2\<rparr> else b"
  from assms have on: "online db" by (auto simp: balanceRepo_UpdateBalance_def Let_def split: if_splits)
  show ?thesis
  proof (cases "list_ex ?same (user_balances db)")
    case True
    with assms on have db': "user_balances db' = map ?f (user_balances db)"
      by (auto simp: balanceRepo_UpdateBalance_def Let_def)
    have "find ?P (map ?f (user_balances db)) = map_option ?f (find ?P (user_balances db))"
      by (rule find_map_same) simp
    moreover have "g' = g \<and> u' = u \<and> c' = c \<Longrightarrow> find ?P (user_balances db) \<noteq> None"
      using True by (auto simp: find_None_iff list_ex_iff)
    ultimately show ?thesis
      by (auto simp: currentBalance_def db' split: option.splits dest: find_Some_iff [THEN iffD1])
  next
    case False
    let ?new = "\<lparr>b_ID = next_id (map b_ID (user_balances db)), b_GroupID = g,
                 b_UserID = u, b_Balance = Round a 2, b_Currency = c,
                 b_Group = None, b_User = None\<rparr>"
    from False assms on have db': "user_balances db' = user_balances db @ [?new]"
      by (auto simp: balanceRepo_UpdateBalance_def Let_def)
    have "g' = g \<and> u' = u \<and> c' = c \<Longrightarrow> find ?P (user_balances db) = None"
      using False by (auto simp: find_None_iff list_ex_iff)
    then show ?thesis
      by (auto simp: currentBalance_def db' find_append_one split: option.splits)
  qed
qed

lemma checked_online:
  "settlement_request_checked lib db req grp fromUser toUser \<Longrightarrow> online db"
  by (auto simp: settlement_request_checked_def userRepo_GetByUUID_def split: if_splits)

lemma CreateSettlement_checked:
  assumes "settlement_request_checked lib db req grp fromUser toUser"
  shows "CreateSettlement lib db newUUID req =
           (if sr_Amount req >
                 currentBalance db (g_ID grp) (u_ID fromUser)
                   (if sr_Currency req = [] then ''USD'' else sr_Currency req)
            then (db, Inl (AppErr (NewInsufficientFundError
                    (DecimalString lib (currentBalance db (g_ID grp) (u_ID fromUser)
                       (if sr_Currency req = [] then ''USD'' else sr_Currency req)))
                    (DecimalString lib (sr_Amount req)))))
            else storeSettlement db (newSettlement newUUID grp fromUser toUser req))"
proof -
  let ?cur = "if sr_Currency req = [] then ''USD'' else sr_Currency req"
  from GetByGroupAndUser_online [OF checked_online [OF assms], of "g_ID grp" "u_ID fromUser" ?cur]
  obtain b where b: "balanceRepo_GetByGroupAndUser db (g_ID grp) (u_ID fromUser) ?cur = Inr b"
    "b_Balance b = currentBalance db (g_ID grp) (u_ID fromUser) ?cur"
    by blast
  show ?thesis
    using assms b
    by (simp add: CreateSettlement_def settlement_request_checked_def storeSettlement_def
        newSettlement_def Let_def)
qed

lemma settlementRepo_errors:
  "settlementRepo_Create db s = Inl err \<Longrightarrow> err = AppErr NewDatabaseError"
  "settlementRepo_GetByUUID db uuid = Inl err \<Longrightarrow>
     err = AppErr NewDatabaseError \<or> err = AppErr (NewNotFoundError ''Settlement'')"
  by (auto simp: settlementRepo_Create_def settlementRepo_GetByUUID_def Let_def
      split: if_splits option.splits)

lemma createSettlement_tx_error:
  "createSettlement_tx s tx = Inl err \<Longrightarrow> err = AppErr NewDatabaseError"
  by (auto simp: createSettlement_tx_def updateBalancesAfterSettlement_def
      split: sum.splits prod.splits dest: settlementRepo_errors(1) UpdateBalance_error)

lemma storeSettlement_Code:
  assumes "snd (storeSettlement db s) = Inl (AppErr e)"
  shows "Code e = ErrCodeDatabase \<or> Code e = ErrCodeNotFound"
  using assms
  by (auto simp: storeSettlement_def WithTransaction_def NewDatabaseError_def NewNotFoundError_def
      split: if_splits sum.splits prod.splits
      dest!: createSettlement_tx_error settlementRepo_errors(2))

lemma Code_NewInsufficientFundError: "Code (NewInsufficientFundError a r) = ErrCodeInsufficientFund"
  by (simp add: NewInsufficientFundError_def)

lemma ErrCodeNotFound_neq_Insufficient: "ErrCodeNotFound \<noteq> ErrCodeInsufficientFund"
  by (simp add: ErrCodeNotFound_def ErrCodeInsufficientFund_def)

lemma storeSettlement_fresh:
  assumes on: "online db"
    and fresh: "\<not> list_ex (\<lambda>r. st_UUID r = st_UUID s) (settlements db)"
  shows "\<exists>db' stored.
           storeSettlement db s = (db', Inr stored) \<and>
           st_UUID stored = st_UUID s \<and> st_Amount stored = Round (st_Amount s) 2 \<and>
           st_FromUserID stored = st_FromUserID s \<and> st_ToUserID stored = st_ToUserID s \<and>
           (\<forall>g u c. currentBalance db' g u c =
              currentBalance db g u c
              + (if g = st_GroupID s \<and> u = st_FromUserID s \<and> c = st_Currency s
                 then - Round (st_Amount s) 2 else 0)
              + (if g = st_GroupID s \<and> u = st_ToUserID s \<and> c = st_Currency s
                 then Round (st_Amount s) 2 else 0))"
proof -
  let ?s' = "s\<lparr>st_ID := next_id (map st_ID (settlements db))\<rparr>"
  let ?row = "?s'\<lparr>st_Amount := Round (st_Amount s) 2\<rparr>"
  let ?db1 = "db\<lparr>settlements := settlements db @ [?row]\<rparr>"
  have create: "settlementRepo_Create db s = Inr (?db1, ?s')"
    using on fresh by (simp add: settlementRepo_Create_def Let_def)
  have on1: "online ?db1" using on by simp
  from UpdateBalance_online [OF on1, of "st_GroupID s" "st_FromUserID s" "- st_Amount s" "st_Currency s"]
  obtain db2 where db2: "balanceRepo_UpdateBalance ?db1 (st_GroupID s) (st_FromUserID s) (- st_Amount s)
      (st_Currency s) = Inr db2" "online db2" "settlements db2 = settlements ?db1"
      "users db2 = users ?db1" "groups db2 = groups ?db1"
    by blast
  from UpdateBalance_online [OF db2(2), of "st_GroupID s" "st_ToUserID s" "st_Amount s" "st_Currency s"]
  obtain db3 where db3: "balanceRepo_UpdateBalance db2 (st_GroupID s) (st_ToUserID s) (st_Amount s)
      (st_Currency s) = Inr db3" "online db3" "settlements db3 = settlements db2"
      "users db3 = users db2" "groups db3 = groups db2"
    by blast
  have tx: "createSettlement_tx s db = Inr (db3, ?s')"
    using create db2(1) db3(1)
    by (simp add: createSettlement_tx_def updateBalancesAfterSettlement_def)
  have wt: "WithTransaction db (createSettlement_tx s) = (db3, Inr ?s')"
    using on tx by (simp add: WithTransaction_def)
  have rows: "settlements db3 = settlements db @ [?row]"
    using db3(3) db2(3) by simp
  have "find (\<lambda>r. st_UUID r = st_UUID s) (settlements db) = None"
    using fresh by (simp add: find_None_iff list_ex_iff)
  then have found: "find (\<lambda>r. st_UUID r = st_UUID s) (settlements db3) = Some ?row"
    by (simp add: rows find_append_one)
  define stored where "stored = ?row\<lparr>st_Group := joinGroup db3 (st_GroupID ?row),
                    st_FromUser := joinUser db3 (st_FromUserID ?row),
                    st_ToUser := joinUser db3 (st_ToUserID ?row)\<rparr>"
  have get: "settlementRepo_GetByUUID db3 (st_UUID s) = Inr stored"
    using db3(2) found by (simp add: settlementRepo_GetByUUID_def stored_def)
  have store: "storeSettlement db s = (db3, Inr stored)"
    by (simp add: storeSettlement_def wt get)
  have b1: "currentBalance ?db1 g u c = currentBalance db g u c" for g u c
    by (simp add: currentBalance_def)
  have bal: "currentBalance db3 g u c =
              currentBalance db g u c
              + (if g = st_GroupID s \<and> u = st_FromUserID s \<and> c = st_Currency s
                 then - Round (st_Amount s) 2 else 0)
              + (if g = st_GroupID s \<and> u = st_ToUserID s \<and> c = st_Currency s
                 then Round (st_Amount s) 2 else 0)"
    for g u c
    unfolding currentBalance_UpdateBalance [OF db3(1)] currentBalance_UpdateBalance [OF db2(1)] b1
      Round_minus
    by simp
  show ?thesis
    using store bal by (intro exI [of _ db3] exI [of _ stored]) (simp add: stored_def)
qed

text \<open>
  Claim C5. For a settlement request that passes the input checks, the lookups and the
  membership checks, \<open>CreateSettlement\<close> reads the payer's balance and fails with
  \<open>INSUFFICIENT_FUND\<close> exactly when the amount is strictly greater than that signed
  balance, leaving the database as it was; so a balance that is zero or negative rejects
  every settlement. A settlement of exactly the balance, with a settlement identifier
  that is new and two users with different ids, succeeds and leaves the payer's balance
  at zero; the balance read is in cents, as the column that stores it makes it.
\<close>

theorem C5_settlement_insufficient_debt:
  assumes "settlement_request_checked lib db req grp fromUser toUser"
  shows "(\<exists>b. balanceRepo_GetByGroupAndUser db (g_ID grp) (u_ID fromUser)
                 (if sr_Currency req = [] then ''USD'' else sr_Currency req) = Inr b \<and>
              b_Balance b = currentBalance db (g_ID grp) (u_ID fromUser)
                 (if sr_Currency req = [] then ''USD'' else sr_Currency req)) \<and>
         ((\<exists>e. snd (CreateSettlement lib db newUUID req) = Inl (AppErr e) \<and>
               Code e = ErrCodeInsufficientFund) \<longleftrightarrow>
          sr_Amount req > currentBalance db (g_ID grp) (u_ID fromUser)
                 (if sr_Currency req = [] then ''USD'' else sr_Currency req)) \<and>
         (sr_Amount req > currentBalance db (g_ID grp) (u_ID fromUser)
                 (if sr_Currency req = [] then ''USD'' else sr_Currency req) \<longrightarrow>
            fst (CreateSettlement lib db newUUID req) = db) \<and>
         (currentBalance db (g_ID grp) (u_ID fromUser)
                 (if sr_Currency req = [] then ''USD'' else sr_Currency req) \<le> 0 \<longrightarrow>
            (\<exists>e. snd (CreateSettlement lib db newUUID req) = Inl (AppErr e) \<and>
               Code e = ErrCodeInsufficientFund)) \<and>
         (sr_Amount req = currentBalance db (g_ID grp) (u_ID fromUser)
                 (if sr_Currency req = [] then ''USD'' else sr_Currency req) \<and>
          cents (currentBalance db (g_ID grp) (u_ID fromUser)
                 (if sr_Currency req = [] then ''USD'' else sr_Currency req)) \<and>
          \<not> list_ex (\<lambda>r. st_UUID r = newUUID) (settlements db) \<and>
          u_ID fromUser \<noteq> u_ID toUser \<longrightarrow>
            (\<exists>stored. snd (CreateSettlement lib db newUUID req) = Inr stored \<and>
               st_Amount stored = sr_Amount req \<and> st_FromUserID stored = u_ID fromUser \<and>
               st_ToUserID stored = u_ID toUser) \<and>
            currentBalance (fst (CreateSettlement lib db newUUID req)) (g_ID grp) (u_ID fromUser)
                 (if sr_Currency req = [] then ''USD'' else sr_Currency req) = 0)"
proof -
  let ?cur = "if sr_Currency req = [] then ''USD'' else sr_Currency req"
  let ?bal = "currentBalance db (g_ID grp) (u_ID fromUser) ?cur"
  let ?s = "newSettlement newUUID grp fromUser toUser req"
  note on = checked_online [OF assms]
  note cs = CreateSettlement_checked [OF assms, of newUUID]
  have pos: "0 < sr_Amount req"
    using assms by (auto simp: settlement_request_checked_def ValidateAmount_def split: if_splits)
  have a: "\<exists>b. balanceRepo_GetByGroupAndUser db (g_ID grp) (u_ID fromUser) ?cur = Inr b \<and>
              b_Balance b = ?bal"
    by (rule GetByGroupAndUser_online [OF on])
  have b: "(\<exists>e. snd (CreateSettlement lib db newUUID req) = Inl (AppErr e) \<and>
               Code e = ErrCodeInsufficientFund) \<longleftrightarrow> sr_Amount req > ?bal"
  proof (cases "sr_Amount req > ?bal")
    case True
    then show ?thesis by (simp add: cs Code_NewInsufficientFundError)
  next
    case False
    then have "CreateSettlement lib db newUUID req = storeSettlement db ?s" by (simp add: cs)
    with False show ?thesis
      using storeSettlement_Code [of db ?s] ErrCodeDatabase_neq(3) ErrCodeNotFound_neq_Insufficient
      by auto
  qed
  have c: "sr_Amount req > ?bal \<longrightarrow> fst (CreateSettlement lib db newUUID req) = db"
    by (simp add: cs)
  have d: "?bal \<le> 0 \<longrightarrow> (\<exists>e. snd (CreateSettlement lib db newUUID req) = Inl (AppErr e) \<and>
               Code e = ErrCodeInsufficientFund)"
    using b pos by auto
  have e: "(\<exists>stored. snd (CreateSettlement lib db newUUID req) = Inr stored \<and>
               st_Amount stored = sr_Amount req \<and> st_FromUserID stored = u_ID fromUser \<and>
               st_ToUserID stored = u_ID toUser) \<and>
            currentBalance (fst (CreateSettlement lib db newUUID req)) (g_ID grp) (u_ID fromUser) ?cur = 0"
    if h: "sr_Amount req = ?bal" "\<not> list_ex (\<lambda>r. st_UUID r = newUUID) (settlements db)"
      "u_ID fromUser \<noteq> u_ID toUser" "cents ?bal"
  proof -
    have r: "Round (sr_Amount req) 2 = sr_Amount req"
      using h(1,4) by (simp add: cents_def)
    from h(1) have eq: "CreateSettlement lib db newUUID req = storeSettlement db ?s"
      by (simp add: cs)
    have fresh: "\<not> list_ex (\<lambda>r. st_UUID r = st_UUID ?s) (settlements db)"
      using h(2) by (simp add: newSettlement_def)
    from storeSettlement_fresh [OF on fresh] obtain db' stored where
      st: "storeSettlement db ?s = (db', Inr stored)"
        "st_Amount stored = Round (st_Amount ?s) 2" "st_FromUserID stored = st_FromUserID ?s"
        "st_ToUserID stored = st_ToUserID ?s"
      and bal: "\<And>g u c. currentBalance db' g u c =
              currentBalance db g u c
              + (if g = st_GroupID ?s \<and> u = st_FromUserID ?s \<and> c = st_Currency ?s
                 then - Round (st_Amount ?s) 2 else 0)
              + (if g = st_GroupID ?s \<and> u = st_ToUserID ?s \<and> c = st_Currency ?s
                 then Round (st_Amount ?s) 2 else 0)"
      by blast
    have "currentBalance db' (g_ID grp) (u_ID fromUser) ?cur = ?bal - sr_Amount req"
      unfolding bal using h(3) r by (simp add: newSettlement_def)
    with h(1) st r show ?thesis
      by (simp add: eq newSettlement_def)
  qed
  show ?thesis
    using a b c d e by blast
qed

lemma db1_settle_checked:
  "ValidateAmount amount = None \<Longrightarrow>
   settlement_request_checked lib0 db1 (settleOf amount) grp0 alice0 bob0"
  by (simp add: settlement_request_checked_def settleOf_def ValidateCurrency_USD lib0_def
      groupRepo_GetByUUID_def userRepo_GetByUUID_def groupRepo_IsMember_def db1_def db0_def
      grp0_def alice0_def bob0_def)

lemma db1_balance: "currentBalance db1 10 1 ''USD'' = 20"
  by (simp add: currentBalance_def db1_def)

theorem C5_settlement_insufficient_debt_witness:
  "settlement_request_checked lib0 db1 (settleOf 50) grp0 alice0 bob0 \<and>
   currentBalance db1 10 1 ''USD'' = 20 \<and>
   (\<exists>e. snd (CreateSettlement lib0 db1 ''s1'' (settleOf 50)) = Inl (AppErr e) \<and>
        Code e = ErrCodeInsufficientFund) \<and>
   fst (CreateSettlement lib0 db1 ''s1'' (settleOf 50)) = db1 \<and>
   settlement_request_checked lib0 db1 (settleOf 20) grp0 alice0 bob0 \<and>
   cents (currentBalance db1 10 1 ''USD'') \<and>
   (\<exists>stored. snd (CreateSettlement lib0 db1 ''s1'' (settleOf 20)) = Inr stored \<and>
      st_Amount stored = 20) \<and>
   currentBalance (fst (CreateSettlement lib0 db1 ''s1'' (settleOf 20))) 10 1 ''USD'' = 0"
proof -
  have c50: "settlement_request_checked lib0 db1 (settleOf 50) grp0 alice0 bob0"
    and c20: "settlement_request_checked lib0 db1 (settleOf 20) grp0 alice0 bob0"
    by (simp_all add: db1_settle_checked ValidateAmount_examples)
  have ids: "g_ID grp0 = 10" "u_ID alice0 = 1" "u_ID bob0 = 2"
    "\<And>a. (if sr_Currency (settleOf a) = [] then ''USD'' else sr_Currency (settleOf a)) = ''USD''"
    "\<And>a. sr_Amount (settleOf a) = a"
    by (simp_all add: grp0_def alice0_def bob0_def settleOf_def)
  have fresh: "\<not> list_ex (\<lambda>r. st_UUID r = ''s1'') (settlements db1)"
    by (simp add: db1_def db0_def)
  have c: "cents 20"
    using cents_iff [of 20] by (simp add: exI [of _ 2000])
  note t50 = C5_settlement_insufficient_debt [OF c50, of "''s1''", unfolded ids db1_balance]
  note t20 = C5_settlement_insufficient_debt [OF c20, of "''s1''", unfolded ids db1_balance]
  have 1: "\<exists>e. snd (CreateSettlement lib0 db1 ''s1'' (settleOf 50)) = Inl (AppErr e) \<and>
        Code e = ErrCodeInsufficientFund"
    using t50 by simp
  have 2: "fst (CreateSettlement lib0 db1 ''s1'' (settleOf 50)) = db1"
    using t50 by simp
  have 3: "(\<exists>stored. snd (CreateSettlement lib0 db1 ''s1'' (settleOf 20)) = Inr stored \<and>
      st_Amount stored = 20) \<and>
   currentBalance (fst (CreateSettlement lib0 db1 ''s1'' (settleOf 20))) 10 1 ''USD'' = 0"
    using t20 fresh c by auto
  show ?thesis
    using c50 c20 db1_balance 1 2 3 c by simp
qed

section \<open>The sum of a group's balances\<close>

text \<open>
  An update of one balance adds its amount, rounded to cents, to the sum of that group and
  currency, and to no other sum; it keeps the keys of the ledger unique.
\<close>

lemma map_bump_none:
  "\<not> list_ex same rows \<Longrightarrow> map (\<lambda>b. if same b then f b else b) rows = rows"
  by (induction rows) auto

lemma bump_sum:
  assumes "distinct (map (\<lambda>b. (b_GroupID b, b_UserID b, b_Currency b)) rows)"
    and "list_ex (\<lambda>b. b_GroupID b = g \<and> b_UserID b = u \<and> b_Currency b = c) rows"
  shows "sum_list (map b_Balance (filter (\<lambda>b. b_GroupID b = g' \<and> b_Currency b = c')
           (map (\<lambda>b. if b_GroupID b = g \<and> b_UserID b = u \<and> b_Currency b = c
                      then b\<lparr>b_Balance := b_Balance b + a\<rparr> else b) rows))) =
         sum_list (map b_Balance (filter (\<lambda>b. b_GroupID b = g' \<and> b_Currency b = c') rows)) +
         (if g' = g \<and> c' = c then a else 0)"
  using assms
proof (induction rows)
  case Nil
  then show ?case by simp
next
  case (Cons row rows)
  let ?same = "\<lambda>b. b_GroupID b = g \<and> b_UserID b = u \<and> b_Currency b = c"
  show ?case
  proof (cases "?same row")
    case True
    with Cons.prems(1) have "\<not> list_ex ?same rows"
      by (auto simp: list_ex_iff image_iff)
    then have "map (\<lambda>b. if ?same b then b\<lparr>b_Balance := b_Balance b + a\<rparr> else b) rows = rows"
      by (rule map_bump_none)
    with True show ?thesis by auto
  next
    case False
    with Cons.prems have "distinct (map (\<lambda>b. (b_GroupID b, b_UserID b, b_Currency b)) rows)"
      "list_ex ?same rows"
      by simp_all
    from Cons.IH [OF this] False show ?thesis by auto
  qed
qed

lemma UpdateBalance_sum:
  assumes "balance_keys_unique db" and "balanceRepo_UpdateBalance db g u a c = Inr db'"
  shows "groupBalanceSum db' g' c' =
           groupBalanceSum db g' c' + (if g' = g \<and> c' = c then Round a 2 else 0)"
    and "balance_keys_unique db'"
proof -
  let ?same = "\<lambda>b. b_GroupID b = g \<and> b_UserID b = u \<and> b_Currency b = c"
  let ?f = "\<lambda>b. if ?same b then b\<lparr>b_Balance := b_Balance b + Round a 2\<rparr> else b"
  from assms(2) have on: "online db"
    by (auto simp: balanceRepo_UpdateBalance_def Let_def split: if_splits)
  have "groupBalanceSum db' g' c' =
          groupBalanceSum db g' c' + (if g' = g \<and> c' = c then Round a 2 else 0) \<and>
        balance_keys_unique db'"
  proof (cases "list_ex ?same (user_balances db)")
    case True
    with assms(2) on have db': "user_balances db' = map ?f (user_balances db)"
      by (auto simp: balanceRepo_UpdateBalance_def Let_def)
    have keys: "(\<lambda>b. (b_GroupID b, b_UserID b, b_Currency b)) \<circ> ?f =
                (\<lambda>b. (b_GroupID b, b_UserID b, b_Currency b))"
      by (auto simp: fun_eq_iff)
    show ?thesis
      using bump_sum [OF assms(1) [unfolded balance_keys_unique_def] True, of g' c' "Round a 2"]
        assms(1)
      by (simp add: groupBalanceSum_def balance_keys_unique_def db' keys)
  next
    case False
    let ?new = "\<lparr>b_ID = next_id (map b_ID (user_balances db)), b_GroupID = g,
                 b_UserID = u, b_Balance = Round a 2, b_Currency = c,
                 b_Group = None, b_User = None\<rparr>"
    from False assms(2) on have db': "user_balances db' = user_balances db @ [?new]"
      by (auto simp: balanceRepo_UpdateBalance_def Let_def)
    from False have "(g, u, c) \<notin> set (map (\<lambda>b. (b_GroupID b, b_UserID b, b_Currency b)) (user_balances db))"
      by (auto simp: list_ex_iff)
    with assms(1) show ?thesis
      by (auto simp: groupBalanceSum_def balance_keys_unique_def db')
  qed
  then show "groupBalanceSum db' g' c' =
      groupBalanceSum db g' c' + (if g' = g \<and> c' = c then Round a 2 else 0)"
    and "balance_keys_unique db'"
    by simp_all
qed

text \<open>
  The balance updates of an expense add the split amounts and take the amount of the
  expense, each rounded to cents by the column: the sum of the group moves by the
  difference of the two.
\<close>

lemma updateBalancesAfterExpense_loop_sum:
  assumes "balance_keys_unique db"
    and "updateBalancesAfterExpense_loop db expense splits = Inr db'"
  shows "groupBalanceSum db' g c =
           groupBalanceSum db g c +
           (if g = e_GroupID expense \<and> c = e_Currency expense
            then sum_list (map (\<lambda>s. Round (es_Amount s) 2) splits) else 0) \<and>
         balance_keys_unique db'"
  using assms
proof (induction splits arbitrary: db)
  case Nil
  then show ?case by simp
next
  case (Cons split rest)
  from Cons.prems(2) obtain db1 where
    u: "balanceRepo_UpdateBalance db (e_GroupID expense) (es_UserID split) (es_Amount split)
          (e_Currency expense) = Inr db1"
    and r: "updateBalancesAfterExpense_loop db1 expense rest = Inr db'"
    by (auto split: sum.splits)
  note s = UpdateBalance_sum [OF Cons.prems(1) u]
  from Cons.IH [OF s(2) r] s(1) [of g c] show ?case by simp
qed

lemma updateBalancesAfterExpense_sum:
  assumes "balance_keys_unique db"
    and "updateBalancesAfterExpense db expense splits = Inr db'"
  shows "groupBalanceSum db' g c =
           groupBalanceSum db g c +
           (if g = e_GroupID expense \<and> c = e_Currency expense
            then sum_list (map (\<lambda>s. Round (es_Amount s) 2) splits) - Round (e_Amount expense) 2
            else 0) \<and>
         balance_keys_unique db'"
proof -
  from assms(2) obtain db1 where
    l: "updateBalancesAfterExpense_loop db expense splits = Inr db1"
    and u: "balanceRepo_UpdateBalance db1 (e_GroupID expense) (e_PaidBy expense)
              (- e_Amount expense) (e_Currency expense) = Inr db'"
    by (auto simp: updateBalancesAfterExpense_def split: sum.splits)
  from updateBalancesAfterExpense_loop_sum [OF assms(1) l, of g c]
  have 1: "groupBalanceSum db1 g c =
           groupBalanceSum db g c +
           (if g = e_GroupID expense \<and> c = e_Currency expense
            then sum_list (map (\<lambda>s. Round (es_Amount s) 2) splits) else 0)"
    and k: "balance_keys_unique db1"
    by simp_all
  note s = UpdateBalance_sum [OF k u]
  from s(1) [of g c] 1 s(2) show ?thesis by (simp add: Round_minus)
qed

lemma CreateSplit_balances:
  "expenseRepo_CreateSplit db split = Inr (db', split') \<Longrightarrow>
   user_balances db' = user_balances db \<and> es_Amount split' = es_Amount split"
  by (auto simp: expenseRepo_CreateSplit_def Let_def split: if_splits)

lemma createSplits_loop_balances:
  "createSplits_loop db expense splits acc = Inr (db', splits') \<Longrightarrow>
   user_balances db' = user_balances db \<and>
   map es_Amount splits' = map es_Amount acc @ map es_Amount splits"
proof (induction splits arbitrary: db acc)
  case Nil
  then show ?case by simp
next
  case (Cons split rest)
  from Cons.prems obtain db1 split1 where
    c: "expenseRepo_CreateSplit db (split\<lparr>es_ExpenseID := e_ID expense\<rparr>) = Inr (db1, split1)"
    and r: "createSplits_loop db1 expense rest (acc @ [split1]) = Inr (db', splits')"
    by (auto split: sum.splits)
  from CreateSplit_balances [OF c] Cons.IH [OF r] show ?case by simp
qed

lemma expenseRepo_Create_balances:
  "expenseRepo_Create db expense = Inr (db', expense') \<Longrightarrow>
   user_balances db' = user_balances db \<and> e_GroupID expense' = e_GroupID expense \<and>
   e_Currency expense' = e_Currency expense \<and> e_Amount expense' = e_Amount expense"
  by (auto simp: expenseRepo_Create_def Let_def split: if_splits)

lemma groupBalanceSum_cong:
  "user_balances db' = user_balances db \<Longrightarrow> groupBalanceSum db' g c = groupBalanceSum db g c"
  by (simp add: groupBalanceSum_def)

lemma balance_keys_unique_cong:
  "user_balances db' = user_balances db \<Longrightarrow> balance_keys_unique db' = balance_keys_unique db"
  by (simp add: balance_keys_unique_def)

lemma createExpense_tx_sum:
  assumes "balance_keys_unique db" and "createExpense_tx expense splits db = Inr (db', expense')"
  shows "groupBalanceSum db' g c =
           groupBalanceSum db g c +
           (if g = e_GroupID expense \<and> c = e_Currency expense
            then sum_list (map (\<lambda>s. Round (es_Amount s) 2) splits) - Round (e_Amount expense) 2
            else 0) \<and>
         balance_keys_unique db'"
proof -
  from assms(2) obtain db1 e1 db2 splits2 where
    c: "expenseRepo_Create db expense = Inr (db1, e1)"
    and l: "createSplits_loop db1 e1 splits [] = Inr (db2, splits2)"
    and u: "updateBalancesAfterExpense db2 e1 splits2 = Inr db'"
    by (auto simp: createExpense_tx_def split: sum.splits prod.splits)
  note c' = expenseRepo_Create_balances [OF c]
  note l' = createSplits_loop_balances [OF l]
  have ub: "user_balances db2 = user_balances db" using c' l' by simp
  have k2: "balance_keys_unique db2"
    using assms(1) balance_keys_unique_cong [OF ub] by simp
  have "map (\<lambda>s. Round (es_Amount s) 2) splits2 = map (\<lambda>a. Round a 2) (map es_Amount splits2)"
    by (simp add: comp_def)
  also have "\<dots> = map (\<lambda>a. Round a 2) (map es_Amount splits)" using l' by simp
  also have "\<dots> = map (\<lambda>s. Round (es_Amount s) 2) splits" by (simp add: comp_def)
  finally have r: "map (\<lambda>s. Round (es_Amount s) 2) splits2 = map (\<lambda>s. Round (es_Amount s) 2) splits" .
  from updateBalancesAfterExpense_sum [OF k2 u, of g c] groupBalanceSum_cong [OF ub, of g c] c' r
  show ?thesis by simp
qed

lemma storeExpense_sum:
  assumes "balance_keys_unique db"
  shows "(groupBalanceSum (fst (storeExpense db expense splits)) g c = groupBalanceSum db g c \<or>
          groupBalanceSum (fst (storeExpense db expense splits)) g c =
            groupBalanceSum db g c +
            (sum_list (map (\<lambda>s. Round (es_Amount s) 2) splits) - Round (e_Amount expense) 2)) \<and>
         (sum_list (map (\<lambda>s. Round (es_Amount s) 2) splits) = Round (e_Amount expense) 2 \<longrightarrow>
          groupBalanceSum (fst (storeExpense db expense splits)) g c = groupBalanceSum db g c) \<and>
         balance_keys_unique (fst (storeExpense db expense splits))"
proof (cases "online db")
  case False
  then show ?thesis using assms by (simp add: storeExpense_def WithTransaction_def)
next
  case True
  show ?thesis
  proof (cases "createExpense_tx expense splits db")
    case (Inl err)
    with True show ?thesis using assms by (simp add: storeExpense_def WithTransaction_def)
  next
    case (Inr r)
    obtain db' e' where r: "r = (db', e')" by (cases r)
    with Inr True have f: "fst (storeExpense db expense splits) = db'"
      by (simp add: storeExpense_def WithTransaction_def split: sum.splits)
    from createExpense_tx_sum [OF assms Inr [unfolded r], of g c] show ?thesis
      unfolding f by auto
  qed
qed

lemma CreateExpense_cases:
  "fst (CreateExpense lib db newUUID req) = db \<or>
   (\<exists>grp payer splits.
      validateAndCalculateSplits lib db req (g_ID grp) = Inr splits \<and>
      CreateExpense lib db newUUID req = storeExpense db (newExpense newUUID grp payer req) splits)"
proof (cases "\<exists>grp payer. expense_request_checked lib db req grp payer")
  case True
  then obtain grp payer where c: "expense_request_checked lib db req grp payer" by blast
  show ?thesis
  proof (cases "validateAndCalculateSplits lib db req (g_ID grp)")
    case (Inl err)
    then show ?thesis by (simp add: CreateExpense_checked [OF c])
  next
    case (Inr splits)
    then have "CreateExpense lib db newUUID req = storeExpense db (newExpense newUUID grp payer req) splits"
      by (simp add: CreateExpense_checked [OF c])
    with Inr show ?thesis by blast
  qed
next
  case False
  then have "fst (CreateExpense lib db newUUID req) = db"
    by (auto simp: CreateExpense_def expense_request_checked_def Let_def
        split: option.splits sum.splits if_splits)
  then show ?thesis by simp
qed

text \<open>
  The equal and the exact calculation return amounts that sum to the amount of the
  expense. When the amounts of the request are in cents, so are the amounts returned, and
  no column rounds what it is given: an expense of either kind leaves every sum of the
  ledger as it was. So does every settlement, which takes from one balance what it adds to
  the other.
\<close>

lemma calculateEqualSplits_loop_Inr:
  assumes "calculateEqualSplits_loop lib db req groupID amountPerUser i rest splits totalAssigned = Inr out"
  shows "list_all (\<lambda>s. valid_member lib db groupID (sq_UserUUID s)) rest"
  using assms
proof (induction rest arbitrary: i splits totalAssigned)
  case Nil
  then show ?case by simp
next
  case (Cons splitReq rest)
  from Cons.prems have valid: "IsValidUUID lib (sq_UserUUID splitReq)"
    by (auto split: if_splits)
  from Cons.prems valid obtain user where
    user: "userRepo_GetByUUID db (sq_UserUUID splitReq) = Inr user"
    by (cases "userRepo_GetByUUID db (sq_UserUUID splitReq)") auto
  from Cons.prems valid user obtain isMember where
    mem: "groupRepo_IsMember db groupID (u_ID user) = Inr isMember"
    by (cases "groupRepo_IsMember db groupID (u_ID user)") auto
  from Cons.prems valid user mem have isMember by (auto split: if_splits)
  have vm: "valid_member lib db groupID (sq_UserUUID splitReq)"
    using valid user mem \<open>isMember\<close> by (simp add: valid_member_def)
  from Cons.prems have "\<exists>i' splits' total'.
      calculateEqualSplits_loop lib db req groupID amountPerUser i' rest splits' total' = Inr out"
    unfolding calculateEqualSplits_loop_step [OF vm] by blast
  then have "list_all (\<lambda>s. valid_member lib db groupID (sq_UserUUID s)) rest"
    using Cons.IH by blast
  with vm show ?case by simp
qed

lemma calculateEqualSplits_amounts:
  assumes "rq_Splits req \<noteq> []" and "calculateEqualSplits lib db req groupID = Inr splits"
  shows "map es_Amount splits =
      replicate (length (rq_Splits req) - 1)
        (Round (Round (rq_Amount req / of_nat (length (rq_Splits req))) DivisionPrecision) 2) @
      [rq_Amount req - of_nat (length (rq_Splits req) - 1) *
         Round (Round (rq_Amount req / of_nat (length (rq_Splits req))) DivisionPrecision) 2]"
proof -
  define share where
    "share = Round (Round (rq_Amount req / of_nat (length (rq_Splits req))) DivisionPrecision) 2"
  have div: "Div (rq_Amount req) (of_nat (length (rq_Splits req))) =
      Some (Round (rq_Amount req / of_nat (length (rq_Splits req))) DivisionPrecision)"
    using assms(1) by (simp add: Div_def)
  from assms(2) have loop:
    "calculateEqualSplits_loop lib db req groupID share 0 (rq_Splits req) [] 0 = Inr splits"
    by (simp add: calculateEqualSplits_def div share_def Let_def)
  from calculateEqualSplits_loop_Inr [OF loop]
  have vm: "list_all (\<lambda>s. valid_member lib db groupID (sq_UserUUID s)) (rq_Splits req)" .
  have "calculateEqualSplits_loop lib db req groupID share 0 (rq_Splits req) [] 0 =
          Inr ([] @ map (equalSplit db share) (butlast (rq_Splits req)) @
               [equalSplit db (rq_Amount req - (0 + of_nat (length (rq_Splits req) - 1) * share))
                  (last (rq_Splits req))])"
    by (rule calculateEqualSplits_loop_members [OF vm _ assms(1)]) simp
  with loop have "splits = map (equalSplit db share) (butlast (rq_Splits req)) @
               [equalSplit db (rq_Amount req - of_nat (length (rq_Splits req) - 1) * share)
                  (last (rq_Splits req))]"
    by simp
  then have "map es_Amount splits = replicate (length (rq_Splits req) - 1) share @
      [rq_Amount req - of_nat (length (rq_Splits req) - 1) * share]"
    by (simp add: equalSplit_def comp_def map_replicate_const)
  then show ?thesis by (simp add: share_def)
qed

lemma calculateEqualSplits_sum:
  assumes "rq_Splits req \<noteq> []" and "calculateEqualSplits lib db req groupID = Inr splits"
  shows "sum_list (map es_Amount splits) = rq_Amount req"
  by (simp add: calculateEqualSplits_amounts [OF assms] sum_list_replicate_rat)

lemma calculateEqualSplits_cents:
  assumes "rq_Splits req \<noteq> []" and "calculateEqualSplits lib db req groupID = Inr splits"
    and "cents (rq_Amount req)"
  shows "list_all cents (map es_Amount splits)"
  unfolding calculateEqualSplits_amounts [OF assms(1,2)]
  by (simp add: list_all_iff cents_Round cents_diff cents_of_nat_mult assms(3))

lemma calculateExactSplits_amounts:
  assumes "calculateExactSplits lib db req groupID = Inr splits"
  shows "map es_Amount splits = map sq_Amount (rq_Splits req) \<and>
         sum_list (map es_Amount splits) = rq_Amount req"
proof -
  from assms obtain out where
    loop: "calculateExactSplits_loop lib db groupID (rq_Splits req) [] 0 = Inr out"
    by (auto simp: calculateExactSplits_def split: sum.splits)
  note m = calculateExactSplits_members [OF calculateExactSplits_loop_Inr [OF loop]]
  from assms show ?thesis
    by (auto simp: m exactSplit_def comp_def split: if_splits)
qed

lemma validateAndCalculateSplits_sum:
  assumes "validateAndCalculateSplits lib db req groupID = Inr splits"
    and "rq_SplitType req \<noteq> SplitTypePercentage"
  shows "sum_list (map es_Amount splits) = rq_Amount req"
  using assms calculateEqualSplits_sum [of req lib db groupID splits]
    calculateExactSplits_amounts [of lib db req groupID splits]
  by (auto simp: validateAndCalculateSplits_def split: if_splits)

lemma validateAndCalculateSplits_cents:
  assumes "validateAndCalculateSplits lib db req groupID = Inr splits"
    and "rq_SplitType req \<noteq> SplitTypePercentage"
    and "amounts_in_cents req"
  shows "list_all cents (map es_Amount splits)"
proof (cases "rq_SplitType req = SplitTypeEqual")
  case True
  with assms(1) have "rq_Splits req \<noteq> []" "calculateEqualSplits lib db req groupID = Inr splits"
    by (auto simp: validateAndCalculateSplits_def split: if_splits)
  from calculateEqualSplits_cents [OF this] assms(3) show ?thesis
    by (simp add: amounts_in_cents_def)
next
  case False
  with assms(1,2) have e: "rq_SplitType req = SplitTypeExact"
    "calculateExactSplits lib db req groupID = Inr splits"
    by (auto simp: validateAndCalculateSplits_def split: if_splits)
  from calculateExactSplits_amounts [OF e(2)] assms(3) e(1) show ?thesis
    by (simp add: amounts_in_cents_def list_all_iff)
qed

lemma sum_list_Round_cents:
  "list_all cents xs \<Longrightarrow> sum_list (map (\<lambda>a. Round a 2) xs) = sum_list xs"
  by (induction xs) (simp_all add: cents_def)

lemma CreateExpense_sum:
  assumes "balance_keys_unique db" and "rq_SplitType req \<noteq> SplitTypePercentage"
    and "amounts_in_cents req"
  shows "groupBalanceSum (fst (CreateExpense lib db newUUID req)) g c = groupBalanceSum db g c \<and>
         balance_keys_unique (fst (CreateExpense lib db newUUID req))"
proof -
  from CreateExpense_cases [of lib db newUUID req]
  consider "fst (CreateExpense lib db newUUID req) = db"
    | grp payer splits where "validateAndCalculateSplits lib db req (g_ID grp) = Inr splits"
        "CreateExpense lib db newUUID req = storeExpense db (newExpense newUUID grp payer req) splits"
    by blast
  then show ?thesis
  proof cases
    case 1
    then show ?thesis using assms(1) by simp
  next
    case 2
    have "sum_list (map (\<lambda>s. Round (es_Amount s) 2) splits) =
          sum_list (map (\<lambda>a. Round a 2) (map es_Amount splits))"
      by (simp add: comp_def)
    also have "\<dots> = sum_list (map es_Amount splits)"
      by (rule sum_list_Round_cents [OF validateAndCalculateSplits_cents [OF 2(1) assms(2,3)]])
    also have "\<dots> = rq_Amount req"
      by (rule validateAndCalculateSplits_sum [OF 2(1) assms(2)])
    also have "\<dots> = Round (e_Amount (newExpense newUUID grp payer req)) 2"
      using assms(3) by (simp add: newExpense_def amounts_in_cents_def cents_def)
    finally have "sum_list (map (\<lambda>s. Round (es_Amount s) 2) splits) =
        Round (e_Amount (newExpense newUUID grp payer req)) 2" .
    with storeExpense_sum [OF assms(1), of "newExpense newUUID grp payer req" splits g c]
    show ?thesis by (simp add: 2(2))
  qed
qed

lemma cents_100: "cents 100"
  using cents_iff [of 100] by (simp add: exI [of _ 10000])

lemma CreateExpense_sum_example:
  "balance_keys_unique db0 \<and>
   rq_SplitType (requestOf 100 ''equal''
      [splitOf ''alice'' 0 0, splitOf ''bob'' 0 0, splitOf ''carol'' 0 0]) \<noteq> SplitTypePercentage \<and>
   amounts_in_cents (requestOf 100 ''equal''
      [splitOf ''alice'' 0 0, splitOf ''bob'' 0 0, splitOf ''carol'' 0 0]) \<and>
   groupBalanceSum (fst (CreateExpense lib0 db0 ''e1'' (requestOf 100 ''equal''
      [splitOf ''alice'' 0 0, splitOf ''bob'' 0 0, splitOf ''carol'' 0 0]))) 10 ''USD'' = 0"
proof -
  let ?req = "requestOf 100 ''equal'' [splitOf ''alice'' 0 0, splitOf ''bob'' 0 0, splitOf ''carol'' 0 0]"
  have k: "balance_keys_unique db0" by (simp add: balance_keys_unique_def db0_def)
  have p: "rq_SplitType ?req \<noteq> SplitTypePercentage"
    by (simp add: requestOf_def SplitTypePercentage_def)
  have a: "amounts_in_cents ?req"
    by (simp add: amounts_in_cents_def requestOf_def SplitTypeExact_def cents_100)
  have z: "groupBalanceSum db0 10 ''USD'' = 0" by (simp add: groupBalanceSum_def db0_def)
  from CreateExpense_sum [OF k p a, of lib0 "''e1''" 10 "''USD''"] k p a z show ?thesis by simp
qed

lemma storeSettlement_sum:
  assumes "balance_keys_unique db"
  shows "groupBalanceSum (fst (storeSettlement db s)) g c = groupBalanceSum db g c \<and>
         balance_keys_unique (fst (storeSettlement db s))"
proof (cases "online db")
  case False
  then show ?thesis using assms by (simp add: storeSettlement_def WithTransaction_def)
next
  case True
  show ?thesis
  proof (cases "createSettlement_tx s db")
    case (Inl err)
    with True show ?thesis using assms by (simp add: storeSettlement_def WithTransaction_def)
  next
    case (Inr r)
    obtain db' s' where r: "r = (db', s')" by (cases r)
    with Inr True have f: "fst (storeSettlement db s) = db'"
      by (simp add: storeSettlement_def WithTransaction_def)
    from Inr r obtain db1 db2 where
      c: "settlementRepo_Create db s = Inr (db1, s')"
      and u1: "balanceRepo_UpdateBalance db1 (st_GroupID s') (st_FromUserID s') (- st_Amount s')
                 (st_Currency s') = Inr db2"
      and u2: "balanceRepo_UpdateBalance db2 (st_GroupID s') (st_ToUserID s') (st_Amount s')
                 (st_Currency s') = Inr db'"
      by (auto simp: createSettlement_tx_def updateBalancesAfterSettlement_def
          split: sum.splits prod.splits)
    from c have ub: "user_balances db1 = user_balances db"
      by (auto simp: settlementRepo_Create_def Let_def split: if_splits)
    have k1: "balance_keys_unique db1"
      using assms balance_keys_unique_cong [OF ub] by simp
    note a = UpdateBalance_sum [OF k1 u1]
    note b = UpdateBalance_sum [OF a(2) u2]
    from a(1) [of g c] b(1) [of g c] b(2) groupBalanceSum_cong [OF ub, of g c]
    show ?thesis unfolding f by (simp add: Round_minus)
  qed
qed

lemma CreateSettlement_cases:
  "fst (CreateSettlement lib db newUUID req) = db \<or>
   (\<exists>s. CreateSettlement lib db newUUID req = storeSettlement db s)"
proof (cases "\<exists>grp fromUser toUser. settlement_request_checked lib db req grp fromUser toUser")
  case True
  then obtain grp fromUser toUser where
    c: "settlement_request_checked lib db req grp fromUser toUser" by blast
  show ?thesis
    unfolding CreateSettlement_checked [OF c] by auto
next
  case False
  then have "fst (CreateSettlement lib db newUUID req) = db"
    by (auto simp: CreateSettlement_def settlement_request_checked_def Let_def
        split: option.splits sum.splits if_splits)
  then show ?thesis by simp
qed

lemma CreateSettlement_sum:
  assumes "balance_keys_unique db"
  shows "groupBalanceSum (fst (CreateSettlement lib db newUUID req)) g c = groupBalanceSum db g c \<and>
         balance_keys_unique (fst (CreateSettlement lib db newUUID req))"
  using CreateSettlement_cases [of lib db newUUID req] storeSettlement_sum [OF assms] assms
  by auto

lemma CreateSettlement_sum_example:
  "balance_keys_unique db1 \<and>
   groupBalanceSum (fst (CreateSettlement lib0 db1 ''s1'' (settleOf 20))) 10 ''USD'' = 0"
proof -
  have k: "balance_keys_unique db1" by (simp add: balance_keys_unique_def db1_def db0_def)
  have z: "groupBalanceSum db1 10 ''USD'' = 0" by (simp add: groupBalanceSum_def db1_def db0_def)
  from CreateSettlement_sum [OF k, of lib0 "''s1''" "settleOf 20" 10 "''USD''"] k z
  show ?thesis by simp
qed

text \<open>
  Hence any sequence of settlements and of expenses in cents with equal or exact splits,
  committed or not, leaves every sum of the ledger as it was: zero on a ledger that
  started empty.
\<close>

lemma applyOperation_sum:
  assumes "balance_keys_unique db" and "balancedOperation op"
  shows "groupBalanceSum (applyOperation lib db op) g c = groupBalanceSum db g c \<and>
         balance_keys_unique (applyOperation lib db op)"
proof (cases op)
  case (ExpenseOp newUUID req)
  with assms(2) have "rq_SplitType req \<noteq> SplitTypePercentage" "amounts_in_cents req" by simp_all
  from CreateExpense_sum [OF assms(1) this] show ?thesis by (simp add: ExpenseOp)
next
  case (SettlementOp newUUID req)
  from CreateSettlement_sum [OF assms(1)] show ?thesis by (simp add: SettlementOp)
qed

lemma operations_sum:
  assumes "balance_keys_unique db" and "list_all balancedOperation ops"
  shows "groupBalanceSum (foldl (applyOperation lib) db ops) g c = groupBalanceSum db g c \<and>
         balance_keys_unique (foldl (applyOperation lib) db ops)"
  using assms
proof (induction ops arbitrary: db)
  case Nil
  then show ?case by simp
next
  case (Cons op ops)
  from Cons.prems(2) have h: "balancedOperation op" and t: "list_all balancedOperation ops"
    by simp_all
  note s = applyOperation_sum [OF Cons.prems(1) h, of lib]
  from s [of g c] have k: "balance_keys_unique (applyOperation lib db op)" by simp
  from Cons.IH [OF k t] s [of g c] show ?case by simp
qed

lemma ops0_balances:
  "map (\<lambda>b. (b_GroupID b, b_UserID b, b_Currency b, b_Balance b))
     (user_balances (foldl (applyOperation lib0) db0 ops0)) =
   [(10, 1, ''USD'', - (3334 / 100)), (10, 2, ''USD'', 0), (10, 3, ''USD'', 3334 / 100)]"
  by code_simp

lemma operations_sum_example:
  "balance_keys_unique db0 \<and> list_all balancedOperation ops0 \<and>
   groupBalanceSum (foldl (applyOperation lib0) db0 ops0) 10 ''USD'' = 0"
proof -
  have k: "balance_keys_unique db0" by (simp add: balance_keys_unique_def db0_def)
  have p: "list_all balancedOperation ops0"
    by (simp add: ops0_def requestOf_def SplitTypePercentage_def SplitTypeExact_def
        amounts_in_cents_def cents_100)
  have z: "groupBalanceSum db0 10 ''USD'' = 0" by (simp add: groupBalanceSum_def db0_def)
  from operations_sum [OF k p, of lib0 10 "''USD''"] k p z show ?thesis by simp
qed

text \<open>
  An amount below a cent breaks the sum even with an equal split: 0.015 among the three
  gives shares of 0.01, 0.01 and -0.005, which the balance column stores as 0.01, 0.01 and
  -0.01, against a credit of 0.02 for the payer.
\<close>

lemma subcent_equal_split_sum:
  "groupBalanceSum (fst (CreateExpense lib0 db0 ''e1'' (requestOf (15 / 1000) ''equal''
      [splitOf ''alice'' 0 0, splitOf ''bob'' 0 0, splitOf ''carol'' 0 0]))) 10 ''USD'' = - (1 / 100)"
  by code_simp

text \<open>The percentage calculation rounds each share and corrects no remainder.\<close>

lemma halves_result:
  "map_sum id (\<lambda>e. (e_Amount e, map es_Amount (e_Splits e), map es_UserID (e_Splits e)))
     (snd (CreateExpense lib0 db0 ''e1'' halves)) =
   Inr (1001 / 100, [501 / 100, 501 / 100], [1, 2])"
  by code_simp

lemma halves_balances:
  "map (\<lambda>b. (b_GroupID b, b_UserID b, b_Currency b, b_Balance b))
     (user_balances (fst (CreateExpense lib0 db0 ''e1'' halves))) =
   [(10, 1, ''USD'', - 5), (10, 2, ''USD'', 501 / 100)]"
  by code_simp

lemma halves_sum: "groupBalanceSum (fst (CreateExpense lib0 db0 ''e1'' halves)) 10 ''USD'' = 1 / 100"
  by code_simp

text \<open>
  Claim C1 at a percentage split. On the empty ledger, whose balances sum to zero, the
  expense of 10.01 split 50% / 50% is accepted; each share is 5.005 rounded to 5.01, the
  two debits are 5.01 each and the payer's credit is 10.01, so the deltas sum to 0.01
  and so do the balances of the group afterwards.
\<close>

theorem C1_percentage_split_breaks_zero_sum:
  "groupBalanceSum db0 10 ''USD'' = 0 \<and>
   (\<exists>expense. snd (CreateExpense lib0 db0 ''e1'' halves) = Inr expense \<and>
      e_Amount expense = 1001 / 100 \<and>
      map es_Amount (e_Splits expense) = [501 / 100, 501 / 100]) \<and>
   map (\<lambda>b. (b_UserID b, b_Balance b)) (user_balances (fst (CreateExpense lib0 db0 ''e1'' halves))) =
     [(1, - 5), (2, 501 / 100)] \<and>
   groupBalanceSum (fst (CreateExpense lib0 db0 ''e1'' halves)) 10 ''USD'' = 1 / 100"
proof -
  have 1: "groupBalanceSum db0 10 ''USD'' = 0"
    by (simp add: groupBalanceSum_def db0_def)
  have 2: "\<exists>expense. snd (CreateExpense lib0 db0 ''e1'' halves) = Inr expense \<and>
      e_Amount expense = 1001 / 100 \<and>
      map es_Amount (e_Splits expense) = [501 / 100, 501 / 100]"
    using halves_result by (cases "snd (CreateExpense lib0 db0 ''e1'' halves)") auto
  have 3: "map (\<lambda>b. (b_UserID b, b_Balance b))
      (user_balances (fst (CreateExpense lib0 db0 ''e1'' halves))) = [(1, - 5), (2, 501 / 100)]"
  proof -
    have "map (\<lambda>b. (b_UserID b, b_Balance b)) (user_balances (fst (CreateExpense lib0 db0 ''e1'' halves))) =
          map (\<lambda>(g, u, c, x). (u, x))
            (map (\<lambda>b. (b_GroupID b, b_UserID b, b_Currency b, b_Balance b))
              (user_balances (fst (CreateExpense lib0 db0 ''e1'' halves))))"
      by (simp add: comp_def)
    then show ?thesis by (simp add: halves_balances)
  qed
  show ?thesis using 1 2 3 halves_sum by blast
qed

end
